(* ===== verification/Prelude.thy ===== *)
theory Prelude
  imports Main "HOL-Library.Word" "HOL-Library.Char_ord" "HOL-Library.List_Lexorder"
    "HOL-Library.Sublist"
begin

text \<open>
  The prelude of the development: the machine integers, strings and results the Solarix
  sources use, with the generic lemmas every component shares.

  \<^item> \<open>Result<T, E>\<close> is the sum type \<open>'e + 'a\<close> (\<open>Inl\<close> is \<open>Err\<close>), the \<open>?\<close> operator is \<open>bindR\<close>,
    \<open>map_err\<close> is \<open>map_errR\<close> and \<open>iter().map(f).collect::<Result<Vec<_>, _>>()\<close> is \<open>collectR\<close>.
  \<^item> \<open>u8\<close>, \<open>u32\<close>, \<open>u64\<close> and \<open>i64\<close> values are words; \<open>usize\<close> offsets and lengths are naturals
    with the 64-bit bound written out where the code checks it.
  \<^item> \<open>String\<close> and \<open>&str\<close> are the UTF-8 bytes as a \<^typ>\<open>string\<close>, ordered as Rust orders them.
  \<^item> \<open>HashMap\<close> is a map, and serde's \<open>Map\<close> (a \<open>BTreeMap\<close> in this build) is a key-sorted
    association list.
\<close>

named_theorems resR \<open>inversion of results built with the question-mark operator\<close>
named_theorems le_bytesR \<open>little-endian conversions\<close>

section \<open>Types\<close>

type_synonym byte = "8 word"
type_synonym bytes = "byte list"
type_synonym u8 = "8 word"
type_synonym u32 = "32 word"
type_synonym u64 = "64 word"
type_synonym i64 = "64 word"

section \<open>Results\<close>

definition bindR :: "'e + 'a \<Rightarrow> ('a \<Rightarrow> 'e + 'b) \<Rightarrow> 'e + 'b" where
  "bindR m f = (case m of Inl e \<Rightarrow> Inl e | Inr x \<Rightarrow> f x)"

definition map_errR :: "('e \<Rightarrow> 'f) \<Rightarrow> 'e + 'a \<Rightarrow> 'f + 'a" where
  "map_errR f m = (case m of Inl e \<Rightarrow> Inl (f e) | Inr x \<Rightarrow> Inr x)"

definition ok_orR :: "'e \<Rightarrow> 'a option \<Rightarrow> 'e + 'a" where
  "ok_orR e x = (case x of None \<Rightarrow> Inl e | Some y \<Rightarrow> Inr y)"

fun collectR :: "('a \<Rightarrow> 'e + 'b) \<Rightarrow> 'a list \<Rightarrow> 'e + 'b list" where
  "collectR f [] = Inr []"
| "collectR f (x # xs) = bindR (f x) (\<lambda>y. bindR (collectR f xs) (\<lambda>ys. Inr (y # ys)))"

lemma bindR_simps [simp]: "bindR (Inl e) f = Inl e" "bindR (Inr x) f = f x"
  by (simp_all add: bindR_def)

lemma bindR_cong [fundef_cong]:
  "m = m' \<Longrightarrow> (\<And>x. m' = Inr x \<Longrightarrow> f x = g x) \<Longrightarrow> bindR m f = bindR m' g"
  by (cases m') simp_all

text \<open>Evaluation of a bind from the left: the continuation stays unreduced until its argument is known.\<close>

lemma bindR_weak_cong: "m = m' \<Longrightarrow> bindR m f = bindR m' f"
  by simp

lemma bindR_Inr [resR]: "bindR m f = Inr y \<longleftrightarrow> (\<exists>x. m = Inr x \<and> f x = Inr y)"
  by (cases m) simp_all

lemma bindR_Inl [resR]: "bindR m f = Inl e \<longleftrightarrow> m = Inl e \<or> (\<exists>x. m = Inr x \<and> f x = Inl e)"
  by (cases m) simp_all

lemma map_errR_simps [simp]:
  "map_errR f (Inl e) = Inl (f e)" "map_errR f (Inr x) = Inr x"
  by (simp_all add: map_errR_def)

lemma map_errR_Inr [resR]: "map_errR f m = Inr y \<longleftrightarrow> m = Inr y"
  by (cases m) simp_all

lemma ok_orR_simps [simp]: "ok_orR e None = Inl e" "ok_orR e (Some x) = Inr x"
  by (simp_all add: ok_orR_def)

lemma ok_orR_Inr [resR]: "ok_orR e x = Inr y \<longleftrightarrow> x = Some y"
  by (cases x) simp_all

lemma collectR_length: "collectR f xs = Inr ys \<Longrightarrow> length ys = length xs"
  by (induction xs arbitrary: ys) (auto simp: resR)

lemma collectR_list_all2: "collectR f xs = Inr ys \<longleftrightarrow> list_all2 (\<lambda>x y. f x = Inr y) xs ys"
proof (induction xs arbitrary: ys)
  case (Cons x xs)
  then show ?case
    by (cases ys) (auto simp: resR)
qed auto

section \<open>Machine arithmetic\<close>

definition usize_bound :: nat where
  "usize_bound = 2 ^ 64"

definition checked_add :: "nat \<Rightarrow> nat \<Rightarrow> nat option" where
  "checked_add a b = (if a + b < usize_bound then Some (a + b) else None)"

definition checked_mul :: "nat \<Rightarrow> nat \<Rightarrow> nat option" where
  "checked_mul a b = (if a * b < usize_bound then Some (a * b) else None)"

text \<open>The unchecked \<open>+\<close> of a release build on \<open>usize\<close>.\<close>

definition wrapping_add :: "nat \<Rightarrow> nat \<Rightarrow> nat" where
  "wrapping_add a b = (a + b) mod usize_bound"

definition saturating_add :: "u64 \<Rightarrow> u64 \<Rightarrow> u64" where
  "saturating_add a b = (if unat a + unat b < 2 ^ 64 then a + b else - 1)"

lemma unat_saturating_add: "unat (saturating_add a b) = min (unat a + unat b) (2 ^ 64 - 1)"
proof (cases "unat a + unat b < 2 ^ 64")
  case True
  then show ?thesis by (simp add: saturating_add_def unat_word_ariths)
next
  case False
  have "unat (- 1 :: u64) = 2 ^ 64 - 1" by (simp add: unsigned_minus_1_eq_mask mask_eq_exp_minus_1)
  with False show ?thesis by (simp add: saturating_add_def)
qed

lemma unat_u64_less [simp]: "unat (x :: u64) < 18446744073709551616"
  using unsigned_less [where ?'b = 64 and ?'a = nat, of x] by simp

lemma unat_u64_le [simp]: "unat (x :: u64) \<le> 18446744073709551615"
proof -
  have "unat x < 18446744073709551616" by (rule unat_u64_less)
  then show ?thesis by linarith
qed

text \<open>The cast \<open>u64 as i64\<close>.\<close>

lemma bit63_u64: "bit (uint (x :: u64)) 63 \<longleftrightarrow> \<not> unat x < 2 ^ 63"
proof -
  have u: "uint x = int (unat x)" by (rule uint_nat)
  have lt: "unat x < 2 ^ 64" using unsigned_less [where ?'b = 64 and ?'a = nat, of x] by simp
  have "odd (unat x div 2 ^ 63) \<longleftrightarrow> \<not> unat x < 2 ^ 63"
  proof (cases "unat x < 2 ^ 63")
    case False
    then have "unat x div 2 ^ 63 = 1" using lt by (intro div_nat_eqI) simp_all
    then show ?thesis using False by simp
  qed simp
  then show ?thesis unfolding u bit_of_nat_iff_bit by (simp only: bit_iff_odd)
qed

lemma sint_u64_neg: "sint (x :: u64) < 0 \<longleftrightarrow> \<not> unat x < 2 ^ 63"
  unfolding sint_uint by (simp add: signed_take_bit_negative_iff bit63_u64)

lemma sint_u64_small: "unat (x :: u64) < 2 ^ 63 \<Longrightarrow> sint x = int (unat x)"
proof -
  assume s: "unat x < 2 ^ 63"
  then have "\<not> bit (uint x) 63" using bit63_u64 by simp
  then have "sint x = take_bit 63 (uint x)" unfolding sint_uint by (simp add: signed_take_bit_eq_if_positive)
  also have "\<dots> = uint x"
  proof (rule take_bit_int_eq_self)
    have "int (unat x) < int (2 ^ 63)" using s by (simp only: of_nat_less_iff)
    then show "uint x < 2 ^ 63" by (simp only: uint_nat of_nat_power of_nat_numeral)
  qed simp
  finally show ?thesis by (simp only: uint_nat)
qed

lemma sint_u64_inj: "sint (x :: u64) = sint y \<longleftrightarrow> x = y"
proof
  assume "sint x = sint y"
  then have "(of_int (sint x) :: u64) = of_int (sint y)" by simp
  then show "x = y" by simp
qed simp

section \<open>Strings\<close>

definition char_of_byte :: "byte \<Rightarrow> char" where
  "char_of_byte b = char_of (unat b)"

definition byte_of_char :: "char \<Rightarrow> byte" where
  "byte_of_char c = of_nat (of_char c)"

definition as_bytes :: "string \<Rightarrow> bytes" where
  "as_bytes s = map byte_of_char s"

definition of_bytes :: "bytes \<Rightarrow> string" where
  "of_bytes bs = map char_of_byte bs"

lemma byte_of_char_of_byte [simp]: "byte_of_char (char_of_byte b) = b"
proof -
  have "unat b < 256" using unsigned_less [where ?'b = 8 and ?'a = nat, of b] by simp
  then show ?thesis by (simp add: byte_of_char_def char_of_byte_def)
qed

lemma char_of_byte_of_char [simp]: "char_of_byte (byte_of_char c) = c"
proof -
  have "(of_char c :: nat) < 256" by simp
  then have "unat (byte_of_char c) = of_char c"
    by (simp add: byte_of_char_def unat_of_nat)
  then show ?thesis by (simp add: char_of_byte_def)
qed

lemma of_bytes_as_bytes [simp]: "of_bytes (as_bytes s) = s"
  by (simp add: of_bytes_def as_bytes_def o_def)

lemma as_bytes_of_bytes [simp]: "as_bytes (of_bytes bs) = bs"
  by (simp add: of_bytes_def as_bytes_def o_def)

text \<open>Decimal and hexadecimal printing, as \<open>Display\<close> and \<open>LowerHex\<close> print.\<close>

definition digit_char :: "nat \<Rightarrow> char" where
  "digit_char d = char_of (48 + d)"

fun show_nat :: "nat \<Rightarrow> string" where
  "show_nat n = (if n < 10 then [digit_char n] else show_nat (n div 10) @ [digit_char (n mod 10)])"

declare show_nat.simps [simp del]

definition show_int :: "int \<Rightarrow> string" where
  "show_int i = (if i < 0 then CHR ''-'' # show_nat (nat (- i)) else show_nat (nat i))"

definition hex_digit :: "nat \<Rightarrow> char" where
  "hex_digit d = (if d < 10 then char_of (48 + d) else char_of (87 + d))"

definition hex2 :: "byte \<Rightarrow> string" where
  "hex2 b = [hex_digit (unat b div 16), hex_digit (unat b mod 16)]"

text \<open>Reading decimals, as \<open>str::parse::<i64>\<close> reads them: an optional sign, then one or more digits.\<close>

definition is_digit :: "char \<Rightarrow> bool" where
  "is_digit c = (48 \<le> (of_char c :: nat) \<and> (of_char c :: nat) \<le> 57)"

definition digit_val :: "char \<Rightarrow> nat" where
  "digit_val c = of_char c - 48"

definition read_nat :: "string \<Rightarrow> nat option" where
  "read_nat s = (if s \<noteq> [] \<and> list_all is_digit s
     then Some (foldl (\<lambda>acc c. 10 * acc + digit_val c) 0 s) else None)"

definition parse_i64 :: "string \<Rightarrow> int option" where
  "parse_i64 s =
     (let v = (case s of [] \<Rightarrow> None
               | c # cs \<Rightarrow> if c = CHR ''-'' then map_option (\<lambda>n. - int n) (read_nat cs)
                          else if c = CHR ''+'' then map_option int (read_nat cs)
                          else map_option int (read_nat s))
      in case v of None \<Rightarrow> None
         | Some i \<Rightarrow> if - (2 ^ 63) \<le> i \<and> i < 2 ^ 63 then Some i else None)"

lemma of_char_digit_char: "d < 10 \<Longrightarrow> (of_char (digit_char d) :: nat) = 48 + d"
  by (simp add: digit_char_def)

lemma is_digit_digit_char [simp]: "d < 10 \<Longrightarrow> is_digit (digit_char d)"
  by (simp add: is_digit_def of_char_digit_char)

lemma digit_val_digit_char [simp]: "d < 10 \<Longrightarrow> digit_val (digit_char d) = d"
  by (simp add: digit_val_def of_char_digit_char)

lemma show_nat_nonempty [simp]: "show_nat n \<noteq> []"
  by (subst show_nat.simps) simp

lemma show_nat_digits: "list_all is_digit (show_nat n)"
proof (induction n rule: show_nat.induct)
  case (1 n)
  then show ?case by (subst show_nat.simps) auto
qed

lemma show_nat_value: "foldl (\<lambda>acc c. 10 * acc + digit_val c) 0 (show_nat n) = n"
proof (induction n rule: show_nat.induct)
  case (1 n)
  then show ?case by (subst show_nat.simps) simp
qed

lemma read_show_nat [simp]: "read_nat (show_nat n) = Some n"
  by (simp add: read_nat_def show_nat_digits show_nat_value)

lemma is_digit_not_special:
  "\<not> is_digit CHR ''-''" "\<not> is_digit CHR ''+''" "\<not> is_digit CHR ''_''"
  by (simp_all add: is_digit_def)

lemma hd_show_nat_digit: "is_digit (hd (show_nat n))"
  using show_nat_digits [of n] by (cases "show_nat n") auto

lemma parse_show_i64: "- (2 ^ 63) \<le> i \<Longrightarrow> i < 2 ^ 63 \<Longrightarrow> parse_i64 (show_int i) = Some i"
proof -
  assume lo: "- (2 ^ 63) \<le> i" and hi: "i < 2 ^ 63"
  obtain c cs where c: "show_nat (nat i) = c # cs" by (cases "show_nat (nat i)") auto
  have cd: "is_digit c" using hd_show_nat_digit [of "nat i"] c by simp
  have ne: "c \<noteq> CHR ''-''" "c \<noteq> CHR ''+''" using cd is_digit_not_special by auto
  have rd: "read_nat (c # cs) = Some (nat i)" using read_show_nat [of "nat i"] c by simp
  show ?thesis
  proof (cases "i < 0")
    case True
    then show ?thesis using lo hi by (simp add: parse_i64_def show_int_def Let_def)
  next
    case False
    then show ?thesis using lo hi c rd ne by (simp add: parse_i64_def show_int_def Let_def)
  qed
qed

lemma show_int_no_underscore: "CHR ''_'' \<notin> set (show_int i)"
proof -
  have "CHR ''_'' \<notin> set (show_nat n)" for n
    using show_nat_digits [of n] is_digit_not_special by (auto simp: list_all_iff)
  then show ?thesis by (simp add: show_int_def)
qed

text \<open>\<open>str::strip_suffix\<close>, \<open>str::split_once\<close> on one character, and \<open>str::replace\<close> of one character.\<close>

definition strip_suffix :: "string \<Rightarrow> string \<Rightarrow> string option" where
  "strip_suffix suf s = (if suffix suf s then Some (take (length s - length suf) s) else None)"

fun split_once :: "char \<Rightarrow> string \<Rightarrow> (string \<times> string) option" where
  "split_once c [] = None"
| "split_once c (x # xs) =
     (if x = c then Some ([], xs)
      else map_option (\<lambda>(a, b). (x # a, b)) (split_once c xs))"

definition replace_char :: "char \<Rightarrow> string \<Rightarrow> string \<Rightarrow> string" where
  "replace_char c r s = concat (map (\<lambda>x. if x = c then r else [x]) s)"

lemma strip_suffix_Some: "strip_suffix suf s = Some t \<longleftrightarrow> s = t @ suf"
  by (auto simp: strip_suffix_def suffix_def)

lemma split_once_append: "c \<notin> set a \<Longrightarrow> split_once c (a @ c # b) = Some (a, b)"
  by (induction a) auto

lemma split_once_Some: "split_once c s = Some (a, b) \<Longrightarrow> s = a @ c # b \<and> c \<notin> set a"
  by (induction s arbitrary: a) (auto split: if_splits)

section \<open>Little-endian integers\<close>

fun le_val :: "bytes \<Rightarrow> nat" where
  "le_val [] = 0"
| "le_val (b # bs) = unat b + 256 * le_val bs"

fun le_bytes :: "nat \<Rightarrow> nat \<Rightarrow> bytes" where
  "le_bytes 0 n = []"
| "le_bytes (Suc k) n = of_nat (n mod 256) # le_bytes k (n div 256)"

lemma length_le_bytes [simp]: "length (le_bytes k n) = k"
  by (induction k arbitrary: n) auto

lemma unat_byte_less: "unat (b :: byte) < 256"
  using unsigned_less [where ?'b = 8 and ?'a = nat, of b] by simp

lemma le_val_bound: "le_val bs < 256 ^ length bs"
proof (induction bs)
  case (Cons b bs)
  have "unat b < 256" by (rule unat_byte_less)
  with Cons have "unat b + 256 * le_val bs < 256 + 256 * (256 ^ length bs - 1)"
    by (intro add_less_le_mono) auto
  also have "\<dots> = 256 ^ length (b # bs)" by (simp add: algebra_simps)
  finally show ?case by simp
qed simp

lemma le_val_le_bytes [le_bytesR]: "le_val (le_bytes k n) = n mod 256 ^ k"
proof (induction k arbitrary: n)
  case (Suc k)
  have "unat (of_nat (n mod 256) :: byte) = n mod 256"
    by (simp add: unat_of_nat)
  moreover have "n mod 256 + 256 * (n div 256 mod 256 ^ k) = n mod (256 * 256 ^ k)"
    by (simp add: mod_mult2_eq)
  ultimately show ?case using Suc by simp
qed simp

lemma le_bytes_le_val [le_bytesR]: "le_bytes (length bs) (le_val bs) = bs"
proof (induction bs)
  case (Cons b bs)
  have b: "unat b < 256" by (rule unat_byte_less)
  then have "(unat b + 256 * le_val bs) mod 256 = unat b"
    and "(unat b + 256 * le_val bs) div 256 = le_val bs"
    by simp_all
  then show ?case using Cons by simp
qed simp

lemma le_bytes_eqI: "length bs = k \<Longrightarrow> le_val bs = n \<Longrightarrow> le_bytes k n = bs"
  using le_bytes_le_val by auto

section \<open>Key-sorted association lists\<close>

fun map_insert :: "string \<Rightarrow> 'v \<Rightarrow> (string \<times> 'v) list \<Rightarrow> (string \<times> 'v) list" where
  "map_insert k v [] = [(k, v)]"
| "map_insert k v ((k', v') # kvs) =
     (if k = k' then (k, v) # kvs
      else if k < k' then (k, v) # (k', v') # kvs
      else (k', v') # map_insert k v kvs)"

abbreviation keys_sorted :: "(string \<times> 'v) list \<Rightarrow> bool" where
  "keys_sorted kvs \<equiv> sorted_wrt (<) (map fst kvs)"

lemma set_map_insert_keys: "fst ` set (map_insert k v kvs) = insert k (fst ` set kvs)"
  by (induction k v kvs rule: map_insert.induct) auto

lemma map_of_map_insert: "map_of (map_insert k v kvs) = (map_of kvs)(k \<mapsto> v)"
  by (induction k v kvs rule: map_insert.induct) (auto simp: fun_eq_iff)

lemma keys_sorted_Cons:
  "keys_sorted ((k, v) # kvs) \<longleftrightarrow> (\<forall>x \<in> fst ` set kvs. k < x) \<and> keys_sorted kvs"
  by auto

lemma keys_sorted_map_insert: "keys_sorted kvs \<Longrightarrow> keys_sorted (map_insert k v kvs)"
proof (induction k v kvs rule: map_insert.induct)
  case (2 k v k' v' kvs)
  have "(\<forall>x \<in> fst ` set kvs. k' < x) \<and> keys_sorted kvs"
    using "2.prems" by (rule keys_sorted_Cons [THEN iffD1])
  then have above: "\<forall>x \<in> fst ` set kvs. k' < x" and tail: "keys_sorted kvs" by blast+
  consider "k = k'" | "k < k'" | "k' < k" by (rule linorder_cases [of k k'])
  then show ?case
  proof cases
    case 1
    then show ?thesis using above tail by simp
  next
    case 2
    then have "\<forall>x \<in> fst ` set ((k', v') # kvs). k < x" using above by auto
    moreover have "map_insert k v ((k', v') # kvs) = (k, v) # (k', v') # kvs" using 2 by auto
    ultimately show ?thesis using "2.prems" by (simp only: keys_sorted_Cons [of k])
  next
    case 3
    then have eq: "map_insert k v ((k', v') # kvs) = (k', v') # map_insert k v kvs" by auto
    have "\<forall>x \<in> fst ` set (map_insert k v kvs). k' < x"
      using 3 above by (simp add: set_map_insert_keys)
    moreover have "keys_sorted (map_insert k v kvs)" using "2.IH" 3 tail by auto
    ultimately show ?thesis by (simp only: eq keys_sorted_Cons)
  qed
qed simp

lemma keys_sorted_distinct: "keys_sorted kvs \<Longrightarrow> distinct (map fst kvs)"
  by (simp add: strict_sorted_iff)

lemma keys_sorted_unique:
  assumes "keys_sorted xs" and "keys_sorted ys" and "map_of xs = map_of ys"
  shows "xs = ys"
proof (rule map_sorted_distinct_set_unique [of fst])
  have dx: "distinct (map fst xs)" and dy: "distinct (map fst ys)"
    by (rule keys_sorted_distinct, rule assms)+
  show eq: "set xs = set ys"
    using assms(3) map_of_inject_set [OF dx dy] by simp
  show "inj_on fst (set xs \<union> set ys)" using dx eq by (simp add: distinct_map)
  show "sorted (map fst xs)" "sorted (map fst ys)"
    using assms(1,2) by (simp_all only: strict_sorted_iff)
  show "distinct (map fst xs)" "distinct (map fst ys)" by (rule dx) (rule dy)
qed

section \<open>Lists\<close>

fun list_chunks :: "nat \<Rightarrow> 'a list \<Rightarrow> 'a list list" where
  "list_chunks n [] = []"
| "list_chunks n (x # xs) = take (max n 1) (x # xs) # list_chunks n (drop (max n 1) (x # xs))"

lemma concat_list_chunks: "concat (list_chunks n xs) = xs"
  by (induction n xs rule: list_chunks.induct) (simp_all only: list_chunks.simps concat.simps append_take_drop_id)

lemma list_chunks_bound: "ys \<in> set (list_chunks n xs) \<Longrightarrow> 0 < n \<Longrightarrow> length ys \<le> n \<and> ys \<noteq> []"
  by (induction n xs rule: list_chunks.induct) auto

end
