(* ===== verification/Json_Value.thy ===== *)
theory Json_Value
  imports Prelude
begin

text \<open>
  \<open>serde_json::Value\<close> as the sources use it. The build has neither the \<open>preserve_order\<close> nor
  the \<open>arbitrary_precision\<close> feature: an object is a \<open>BTreeMap\<close>, so a list of key-value pairs
  kept sorted by \<open>map_insert\<close>, and a number is an integer of the \<open>i64\<close> and \<open>u64\<close> ranges or the
  bits of a finite \<open>f64\<close>.
\<close>

datatype json =
    JNull
  | JBool bool
  | JInt int
  | JFloat u64
  | JStr string
  | JArr "json list"
  | JObj "(string \<times> json) list"

text \<open>\<open>Value::get\<close> with a string index: a field of an object, \<open>None\<close> on any other value.\<close>

definition json_get :: "string \<Rightarrow> json \<Rightarrow> json option" where
  "json_get k v = (case v of JObj kvs \<Rightarrow> map_of kvs k | _ \<Rightarrow> None)"

definition is_string :: "json \<Rightarrow> bool" where
  "is_string v = (case v of JStr _ \<Rightarrow> True | _ \<Rightarrow> False)"

definition is_null :: "json \<Rightarrow> bool" where
  "is_null v = (v = JNull)"

definition as_array :: "json \<Rightarrow> json list option" where
  "as_array v = (case v of JArr xs \<Rightarrow> Some xs | _ \<Rightarrow> None)"

definition as_str :: "json \<Rightarrow> string option" where
  "as_str v = (case v of JStr s \<Rightarrow> Some s | _ \<Rightarrow> None)"

text \<open>Every object inside a value built by the sources has its keys in strictly ascending order.\<close>

fun json_wf :: "json \<Rightarrow> bool" where
  "json_wf (JArr vs) = list_all json_wf vs"
| "json_wf (JObj kvs) = (keys_sorted kvs \<and> list_all (\<lambda>kv. json_wf (snd kv)) kvs)"
| "json_wf _ = True"

lemma json_wf_map_insert:
  assumes "json_wf (JObj kvs)" and "json_wf v"
  shows "json_wf (JObj (map_insert k v kvs))"
proof -
  have "list_all (\<lambda>kv. json_wf (snd kv)) (map_insert k v kvs)"
    using assms by (induction k v kvs rule: map_insert.induct) (auto simp: list_all_iff)
  then show ?thesis using assms by (auto intro: keys_sorted_map_insert)
qed

section \<open>Floats by their bits\<close>

text \<open>\<open>f32::is_finite\<close>, \<open>is_nan\<close> and the comparison with \<open>f32::INFINITY\<close> on the IEEE-754 bits.\<close>

definition f32_exp :: "u32 \<Rightarrow> nat" where
  "f32_exp w = unat w div 2 ^ 23 mod 2 ^ 8"

definition f32_man :: "u32 \<Rightarrow> nat" where
  "f32_man w = unat w mod 2 ^ 23"

definition f32_neg :: "u32 \<Rightarrow> bool" where
  "f32_neg w = (2 ^ 31 \<le> unat w)"

definition f32_is_finite :: "u32 \<Rightarrow> bool" where
  "f32_is_finite w = (f32_exp w \<noteq> 255)"

definition f32_is_nan :: "u32 \<Rightarrow> bool" where
  "f32_is_nan w = (f32_exp w = 255 \<and> f32_man w \<noteq> 0)"

definition f32_is_infinity :: "u32 \<Rightarrow> bool" where
  "f32_is_infinity w = (f32_exp w = 255 \<and> f32_man w = 0 \<and> \<not> f32_neg w)"

definition f64_exp :: "u64 \<Rightarrow> nat" where
  "f64_exp w = unat w div 2 ^ 52 mod 2 ^ 11"

definition f64_man :: "u64 \<Rightarrow> nat" where
  "f64_man w = unat w mod 2 ^ 52"

definition f64_neg :: "u64 \<Rightarrow> bool" where
  "f64_neg w = (2 ^ 63 \<le> unat w)"

definition f64_is_finite :: "u64 \<Rightarrow> bool" where
  "f64_is_finite w = (f64_exp w \<noteq> 2047)"

definition f64_is_nan :: "u64 \<Rightarrow> bool" where
  "f64_is_nan w = (f64_exp w = 2047 \<and> f64_man w \<noteq> 0)"

definition f64_is_infinity :: "u64 \<Rightarrow> bool" where
  "f64_is_infinity w = (f64_exp w = 2047 \<and> f64_man w = 0 \<and> \<not> f64_neg w)"

fun log2_floor :: "nat \<Rightarrow> nat" where
  "log2_floor n = (if n < 2 then 0 else Suc (log2_floor (n div 2)))"

declare log2_floor.simps [simp del]

text \<open>The widening cast \<open>f32 as f64\<close> of a finite value, which \<open>json!\<close> applies to an \<open>f32\<close>.\<close>

definition f32_to_f64 :: "u32 \<Rightarrow> u64" where
  "f32_to_f64 w =
     (let sgn = (if f32_neg w then 2 ^ 63 else 0); e = f32_exp w; m = f32_man w
      in if e = 0 \<and> m = 0 then of_nat sgn
         else if e = 0 then
           (let k = log2_floor m
            in of_nat (sgn + (874 + k) * 2 ^ 52 + (m - 2 ^ k) * 2 ^ (52 - k)))
         else of_nat (sgn + (e + 896) * 2 ^ 52 + m * 2 ^ 29))"

end
