(* ===== verification/Solarix_Types.thy ===== *)
theory Solarix_Types
  imports Json_Value
begin

text \<open>
  The data types passed between the pipeline stages (\<open>src/types.rs\<close>) and the parts of the
  Anchor IDL (\<open>anchor_lang_idl_spec\<close>) the sources read, with the constructors and fields the
  sources name.
\<close>

section \<open>Decoded data\<close>

record decoded_instruction =
  di_signature :: string
  di_slot :: u64
  di_block_time :: "int option"
  di_instruction_name :: string
  di_args :: json
  di_program_id :: string
  di_accounts :: "string list"
  di_instruction_index :: u8
  di_inner_index :: "u8 option"

definition instruction_from_decoded :: "string \<Rightarrow> string \<Rightarrow> json \<Rightarrow> decoded_instruction" where
  "instruction_from_decoded program_id instruction_name args =
     \<lparr> di_signature = '''', di_slot = 0, di_block_time = None,
       di_instruction_name = instruction_name, di_args = args, di_program_id = program_id,
       di_accounts = [], di_instruction_index = 0, di_inner_index = None \<rparr>"

record decoded_account =
  da_pubkey :: string
  da_slot_updated :: u64
  da_lamports :: u64
  da_data :: json
  da_account_type :: string
  da_program_id :: string

definition account_from_decoded :: "string \<Rightarrow> string \<Rightarrow> string \<Rightarrow> json \<Rightarrow> decoded_account" where
  "account_from_decoded program_id account_type pubkey data =
     \<lparr> da_pubkey = pubkey, da_slot_updated = 0, da_lamports = 0, da_data = data,
       da_account_type = account_type, da_program_id = program_id \<rparr>"

section \<open>The Anchor IDL\<close>

datatype idl_array_len = LenValue nat | LenGeneric string

datatype idl_type =
    TyBool | TyU8 | TyI8 | TyU16 | TyI16 | TyU32 | TyI32 | TyF32 | TyU64 | TyI64 | TyF64
  | TyU128 | TyI128 | TyU256 | TyI256 | TyString | TyBytes | TyPubkey
  | TyOption idl_type
  | TyVec idl_type
  | TyArray idl_type idl_array_len
  | TyDefined string "idl_generic_arg list"
  | TyGeneric string
and idl_generic_arg = GenericArgType idl_type | GenericArgConst string

datatype idl_serialization = Borsh | Bytemuck | BytemuckUnsafe | SerCustom string

datatype idl_typedef_generic = DefGenericType string | DefGenericConst string string

record idl_field =
  fld_name :: string
  fld_ty :: idl_type

datatype idl_defined_fields = Named "idl_field list" | Tuple "idl_type list"

record idl_enum_variant =
  var_name :: string
  var_fields :: "idl_defined_fields option"

datatype idl_typedef_ty =
    TdStruct "idl_defined_fields option"
  | TdEnum "idl_enum_variant list"
  | TdType idl_type

record idl_typedef =
  td_name :: string
  td_serialization :: idl_serialization
  td_generics :: "idl_typedef_generic list"
  td_ty :: idl_typedef_ty

record idl_instruction =
  ix_name :: string
  ix_discriminator :: bytes
  ix_args :: "idl_field list"

record idl_account =
  acct_name :: string
  acct_discriminator :: bytes

record idl =
  idl_address :: string
  idl_metadata_name :: string
  idl_metadata_version :: string
  idl_instructions :: "idl_instruction list"
  idl_accounts :: "idl_account list"
  idl_types :: "idl_typedef list"

end
