(* ===== verification/Decoder.thy ===== *)
theory Decoder
  imports Solarix_Types
begin

text \<open>
  The Borsh decoder (\<open>src/decoder/mod.rs\<close>): discriminator matching, the byte readers, the
  recursive type decoder with its depth limit, and the two entry points of
  \<open>ChainparserDecoder\<close> with the per-address cache of type registries.

  \<open>b58\<close> stands for \<open>bs58::encode(_).into_string()\<close> and \<open>sha256\<close> for \<open>Sha256::digest\<close>, which are
  third-party code. \<open>usize\<close> offsets are naturals; \<open>ensure_bytes\<close> and \<open>fixed_size\<close> make the
  64-bit checks of the source, and the one unchecked addition that can wrap
  (\<open>4 + inner_size\<close> in \<open>decode_coption\<close>) is \<open>wrapping_add\<close>, as in a release build. Log events
  and vector capacities have no counterpart.
\<close>

definition MAX_DECODE_DEPTH :: nat where
  "MAX_DECODE_DEPTH = 64"

section \<open>Errors\<close>

datatype decode_error =
    UnknownDiscriminator string
  | DeserializationFailed string
  | IdlNotLoaded string
  | UnsupportedType string

fun variant_name :: "decode_error \<Rightarrow> string" where
  "variant_name (UnknownDiscriminator _) = ''unknown_discriminator''"
| "variant_name (DeserializationFailed _) = ''deserialization_failed''"
| "variant_name (IdlNotLoaded _) = ''idl_not_loaded''"
| "variant_name (UnsupportedType _) = ''unsupported_type''"

section \<open>The type registry\<close>

type_synonym type_registry = "string \<rightharpoonup> idl_typedef"

definition registry_from_idl :: "idl \<Rightarrow> type_registry" where
  "registry_from_idl i = foldl (\<lambda>types td. types(td_name td \<mapsto> td)) Map.empty (idl_types i)"

definition registry_resolve :: "type_registry \<Rightarrow> string \<Rightarrow> decode_error + idl_typedef" where
  "registry_resolve reg name =
     ok_orR (DeserializationFailed (''unknown type: '' @ name)) (reg name)"

section \<open>Discriminator matching\<close>

text \<open>The guard both loops use: a non-empty discriminator that the data starts with.\<close>

definition disc_matches :: "bytes \<Rightarrow> bytes \<Rightarrow> bool" where
  "disc_matches data disc =
     (disc \<noteq> [] \<and> length disc \<le> length data \<and> take (length disc) data = disc)"

definition find_instruction :: "bytes \<Rightarrow> idl \<Rightarrow> idl_instruction option" where
  "find_instruction data i = find (\<lambda>ix. disc_matches data (ix_discriminator ix)) (idl_instructions i)"

definition find_account :: "bytes \<Rightarrow> idl \<Rightarrow> idl_account option" where
  "find_account data i = find (\<lambda>a. disc_matches data (acct_discriminator a)) (idl_accounts i)"

definition compute_instruction_discriminator :: "(bytes \<Rightarrow> bytes) \<Rightarrow> string \<Rightarrow> bytes" where
  "compute_instruction_discriminator sha256 name = take 8 (sha256 (as_bytes (''global:'' @ name)))"

definition compute_account_discriminator :: "(bytes \<Rightarrow> bytes) \<Rightarrow> string \<Rightarrow> bytes" where
  "compute_account_discriminator sha256 name = take 8 (sha256 (as_bytes (''account:'' @ name)))"

definition hex_encode :: "bytes \<Rightarrow> string" where
  "hex_encode bs = concat (map hex2 bs)"

definition unknown_discriminator :: "bytes \<Rightarrow> decode_error" where
  "unknown_discriminator data =
     UnknownDiscriminator (if 8 \<le> length data then hex_encode (take 8 data) else hex_encode data)"

definition find_instruction_with_fallback ::
  "(bytes \<Rightarrow> bytes) \<Rightarrow> bytes \<Rightarrow> idl \<Rightarrow> decode_error + idl_instruction" where
  "find_instruction_with_fallback sha256 data i =
     (case find_instruction data i of
        Some ix \<Rightarrow> Inr ix
      | None \<Rightarrow>
          (case find (\<lambda>ix. ix_discriminator ix = [] \<and> 8 \<le> length data \<and>
                        take 8 data = compute_instruction_discriminator sha256 (ix_name ix))
                  (idl_instructions i) of
             Some ix \<Rightarrow> Inr ix
           | None \<Rightarrow> Inl (unknown_discriminator data)))"

definition find_account_with_fallback ::
  "(bytes \<Rightarrow> bytes) \<Rightarrow> bytes \<Rightarrow> idl \<Rightarrow> decode_error + idl_account" where
  "find_account_with_fallback sha256 data i =
     (case find_account data i of
        Some a \<Rightarrow> Inr a
      | None \<Rightarrow>
          (case find (\<lambda>a. acct_discriminator a = [] \<and> 8 \<le> length data \<and>
                        take 8 data = compute_account_discriminator sha256 (acct_name a))
                  (idl_accounts i) of
             Some a \<Rightarrow> Inr a
           | None \<Rightarrow> Inl (unknown_discriminator data)))"

definition is_high_failure_rate :: "nat \<Rightarrow> nat \<Rightarrow> bool" where
  "is_high_failure_rate failures tot =
     (0 < tot \<and> (case checked_mul failures 100 of None \<Rightarrow> True | Some v \<Rightarrow> v div tot > 90))"

section \<open>Byte readers\<close>

definition ensure_bytes :: "bytes \<Rightarrow> nat \<Rightarrow> nat \<Rightarrow> decode_error + unit" where
  "ensure_bytes data offset needed =
     (if (case checked_add offset needed of None \<Rightarrow> True | Some e \<Rightarrow> length data < e)
      then Inl (DeserializationFailed
             (''unexpected EOF: need '' @ show_nat needed @ '' bytes at offset '' @
              show_nat offset @ '', have '' @ show_nat (length data)))
      else Inr ())"

text \<open>The macro \<open>read_le!\<close>: the little-endian value of the next \<open>sz\<close> bytes, and the size.\<close>

definition read_le :: "nat \<Rightarrow> bytes \<Rightarrow> nat \<Rightarrow> decode_error + ('a::len) word \<times> nat" where
  "read_le sz data offset =
     bindR (ensure_bytes data offset sz)
       (\<lambda>_. Inr (of_nat (le_val (take sz (drop offset data))), sz))"

definition read_u8 :: "bytes \<Rightarrow> nat \<Rightarrow> decode_error + 8 word \<times> nat" where
  "read_u8 = read_le 1"

definition read_u16 :: "bytes \<Rightarrow> nat \<Rightarrow> decode_error + 16 word \<times> nat" where
  "read_u16 = read_le 2"

definition read_u32 :: "bytes \<Rightarrow> nat \<Rightarrow> decode_error + 32 word \<times> nat" where
  "read_u32 = read_le 4"

definition read_u64 :: "bytes \<Rightarrow> nat \<Rightarrow> decode_error + 64 word \<times> nat" where
  "read_u64 = read_le 8"

definition read_u128 :: "bytes \<Rightarrow> nat \<Rightarrow> decode_error + 128 word \<times> nat" where
  "read_u128 = read_le 16"

definition format_non_finite_f32 :: "u32 \<Rightarrow> string" where
  "format_non_finite_f32 v =
     (if f32_is_nan v then ''NaN'' else if f32_is_infinity v then ''Infinity'' else ''-Infinity'')"

definition format_non_finite_f64 :: "u64 \<Rightarrow> string" where
  "format_non_finite_f64 v =
     (if f64_is_nan v then ''NaN'' else if f64_is_infinity v then ''Infinity'' else ''-Infinity'')"

text \<open>
  \<open>std::str::from_utf8\<close>: \<open>None\<close> for a valid slice, else the index of the first invalid
  sequence and its length (\<open>None\<close> when the input ends inside it), as \<open>Utf8Error\<close> reports them.
\<close>

definition utf8_cont :: "byte \<Rightarrow> bool" where
  "utf8_cont b = (128 \<le> unat b \<and> unat b < 192)"

definition utf8_second3 :: "byte \<Rightarrow> byte \<Rightarrow> bool" where
  "utf8_second3 a b =
     (if unat a = 224 then 160 \<le> unat b \<and> unat b < 192
      else if unat a = 237 then 128 \<le> unat b \<and> unat b < 160
      else utf8_cont b)"

definition utf8_second4 :: "byte \<Rightarrow> byte \<Rightarrow> bool" where
  "utf8_second4 a b =
     (if unat a = 240 then 144 \<le> unat b \<and> unat b < 192
      else if unat a = 244 then 128 \<le> unat b \<and> unat b < 144
      else utf8_cont b)"

fun utf8_error :: "nat \<Rightarrow> bytes \<Rightarrow> (nat \<times> nat option) option" where
  "utf8_error i [] = None"
| "utf8_error i (a # r1) =
     (if unat a < 128 then utf8_error (i + 1) r1
      else if 194 \<le> unat a \<and> unat a < 224 then
        (case r1 of [] \<Rightarrow> Some (i, None)
         | b # r2 \<Rightarrow> if utf8_cont b then utf8_error (i + 2) r2 else Some (i, Some 1))
      else if 224 \<le> unat a \<and> unat a < 240 then
        (case r1 of [] \<Rightarrow> Some (i, None)
         | b # r2 \<Rightarrow> if \<not> utf8_second3 a b then Some (i, Some 1)
           else (case r2 of [] \<Rightarrow> Some (i, None)
                 | c # r3 \<Rightarrow> if utf8_cont c then utf8_error (i + 3) r3 else Some (i, Some 2)))
      else if 240 \<le> unat a \<and> unat a < 245 then
        (case r1 of [] \<Rightarrow> Some (i, None)
         | b # r2 \<Rightarrow> if \<not> utf8_second4 a b then Some (i, Some 1)
           else (case r2 of [] \<Rightarrow> Some (i, None)
                 | c # r3 \<Rightarrow> if \<not> utf8_cont c then Some (i, Some 2)
                   else (case r3 of [] \<Rightarrow> Some (i, None)
                         | d # r4 \<Rightarrow> if utf8_cont d then utf8_error (i + 4) r4
                                    else Some (i, Some 3))))
      else Some (i, Some 1))"

definition show_utf8_error :: "nat \<times> nat option \<Rightarrow> string" where
  "show_utf8_error e =
     (case snd e of
        Some l \<Rightarrow> ''invalid utf-8 sequence of '' @ show_nat l @ '' bytes from index '' @ show_nat (fst e)
      | None \<Rightarrow> ''incomplete utf-8 byte sequence from index '' @ show_nat (fst e))"

definition from_utf8 :: "bytes \<Rightarrow> decode_error + string" where
  "from_utf8 bs =
     (case utf8_error 0 bs of
        None \<Rightarrow> Inr (of_bytes bs)
      | Some e \<Rightarrow> Inl (DeserializationFailed (''invalid UTF-8: '' @ show_utf8_error e)))"

section \<open>Helpers of the type decoder\<close>

definition resolve_array_len :: "idl_array_len \<Rightarrow> (string \<rightharpoonup> idl_type) \<Rightarrow> decode_error + nat" where
  "resolve_array_len len generics =
     (case len of
        LenValue n \<Rightarrow> Inr n
      | LenGeneric name \<Rightarrow> Inl (DeserializationFailed (''unresolved generic array length: '' @ name)))"

definition check_serialization :: "idl_serialization \<Rightarrow> decode_error + unit" where
  "check_serialization ser =
     (case ser of
        Borsh \<Rightarrow> Inr ()
      | Bytemuck \<Rightarrow> Inl (UnsupportedType ''Bytemuck serialization is not supported'')
      | BytemuckUnsafe \<Rightarrow> Inl (UnsupportedType ''BytemuckUnsafe serialization is not supported'')
      | SerCustom _ \<Rightarrow> Inl (UnsupportedType ''non-Borsh serialization is not supported''))"

fun bind_generics ::
  "(string \<rightharpoonup> idl_type) \<Rightarrow> (idl_typedef_generic \<times> idl_generic_arg) list \<Rightarrow> (string \<rightharpoonup> idl_type)" where
  "bind_generics g [] = g"
| "bind_generics g ((DefGenericType name, GenericArgType ty) # xs) = bind_generics (g(name \<mapsto> ty)) xs"
| "bind_generics g (_ # xs) = bind_generics g xs"

text \<open>A checked running total over a list of optional sizes, left to right.\<close>

fun sum_sizes :: "('a \<Rightarrow> nat option) \<Rightarrow> nat \<Rightarrow> 'a list \<Rightarrow> nat option" where
  "sum_sizes f acc [] = Some acc"
| "sum_sizes f acc (x # xs) =
     Option.bind (f x) (\<lambda>s. Option.bind (checked_add acc s) (\<lambda>t. sum_sizes f t xs))"

lemma sum_sizes_eq:
  "(\<And>x. x \<in> set xs \<Longrightarrow> f x = g x) \<Longrightarrow> sum_sizes f acc xs = sum_sizes g acc xs"
  by (induction xs arbitrary: acc) simp_all

lemma sum_sizes_cong [fundef_cong]:
  "acc = acc' \<Longrightarrow> xs = ys \<Longrightarrow> (\<And>x. x \<in> set ys \<Longrightarrow> f x = g x) \<Longrightarrow>
   sum_sizes f acc xs = sum_sizes g acc' ys"
  by (erule ssubst, erule ssubst, rule sum_sizes_eq)

function fixed_size_inner :: "idl_type \<Rightarrow> type_registry \<Rightarrow> nat \<Rightarrow> nat option" where
  "fixed_size_inner ty reg depth =
     (if MAX_DECODE_DEPTH < depth then None
      else case ty of
        TyBool \<Rightarrow> Some 1
      | TyU8 \<Rightarrow> Some 1 | TyI8 \<Rightarrow> Some 1
      | TyU16 \<Rightarrow> Some 2 | TyI16 \<Rightarrow> Some 2
      | TyU32 \<Rightarrow> Some 4 | TyI32 \<Rightarrow> Some 4 | TyF32 \<Rightarrow> Some 4
      | TyU64 \<Rightarrow> Some 8 | TyI64 \<Rightarrow> Some 8 | TyF64 \<Rightarrow> Some 8
      | TyU128 \<Rightarrow> Some 16 | TyI128 \<Rightarrow> Some 16
      | TyU256 \<Rightarrow> Some 32 | TyI256 \<Rightarrow> Some 32
      | TyPubkey \<Rightarrow> Some 32
      | TyArray inner len \<Rightarrow>
          (case len of
             LenValue n \<Rightarrow> Option.bind (fixed_size_inner inner reg (depth + 1)) (\<lambda>s. checked_mul s n)
           | LenGeneric _ \<Rightarrow> None)
      | TyString \<Rightarrow> None | TyBytes \<Rightarrow> None
      | TyVec _ \<Rightarrow> None | TyOption _ \<Rightarrow> None
      | TyDefined name args \<Rightarrow>
          (if name = ''COption'' then
             (case args of
                GenericArgType inner # _ \<Rightarrow>
                  Option.bind (fixed_size_inner inner reg (depth + 1)) (\<lambda>s. checked_add 4 s)
              | _ \<Rightarrow> None)
           else
             (case reg name of
                None \<Rightarrow> None
              | Some td \<Rightarrow>
                  (case td_ty td of
                     TdStruct (Some (Named flds)) \<Rightarrow>
                       sum_sizes (\<lambda>f. fixed_size_inner (fld_ty f) reg (depth + 1)) 0 flds
                   | TdStruct (Some (Tuple types)) \<Rightarrow>
                       sum_sizes (\<lambda>t. fixed_size_inner t reg (depth + 1)) 0 types
                   | TdType alias \<Rightarrow> fixed_size_inner alias reg (depth + 1)
                   | _ \<Rightarrow> None)))
      | TyGeneric _ \<Rightarrow> None)"
  by pat_completeness auto
termination
  by (relation "measure (\<lambda>(ty, reg, depth). Suc MAX_DECODE_DEPTH - depth)") auto

declare fixed_size_inner.simps [simp del]

definition fixed_size :: "idl_type \<Rightarrow> type_registry \<Rightarrow> nat option" where
  "fixed_size ty reg = fixed_size_inner ty reg 0"

text \<open>
  The two loops of the type decoder: elements one after the other, and named flds one after
  the other into an object. \<open>f\<close> decodes at an offset; \<open>consumed\<close> is the loop's counter.
\<close>

fun decode_items ::
  "(nat \<Rightarrow> idl_type \<Rightarrow> decode_error + json \<times> nat) \<Rightarrow> nat \<Rightarrow> nat \<Rightarrow> idl_type list \<Rightarrow>
   decode_error + json list \<times> nat" where
  "decode_items f offset consumed [] = Inr ([], consumed)"
| "decode_items f offset consumed (ty # tys) =
     bindR (f (offset + consumed) ty) (\<lambda>(val, n).
       bindR (decode_items f offset (consumed + n) tys) (\<lambda>(items, c). Inr (val # items, c)))"

fun decode_named ::
  "(nat \<Rightarrow> idl_type \<Rightarrow> decode_error + json \<times> nat) \<Rightarrow> nat \<Rightarrow> nat \<Rightarrow> (string \<times> json) list \<Rightarrow>
   idl_field list \<Rightarrow> decode_error + (string \<times> json) list \<times> nat" where
  "decode_named f offset consumed obj [] = Inr (obj, consumed)"
| "decode_named f offset consumed obj (fld # flds) =
     bindR (f (offset + consumed) (fld_ty fld)) (\<lambda>(val, n).
       decode_named f offset (consumed + n) (map_insert (fld_name fld) val obj) flds)"

lemma decode_items_cong [fundef_cong]:
  "offset = offset' \<Longrightarrow> consumed = consumed' \<Longrightarrow> tys = tys' \<Longrightarrow>
   (\<And>off ty. ty \<in> set tys' \<Longrightarrow> f off ty = g off ty) \<Longrightarrow>
   decode_items f offset consumed tys = decode_items g offset' consumed' tys'"
proof (induction tys arbitrary: consumed consumed' tys')
  case (Cons ty tys)
  then show ?case by (auto intro!: bindR_cong)
qed auto

lemma decode_named_cong [fundef_cong]:
  "offset = offset' \<Longrightarrow> consumed = consumed' \<Longrightarrow> obj = obj' \<Longrightarrow> flds = flds' \<Longrightarrow>
   (\<And>off fld. fld \<in> set flds' \<Longrightarrow> f off (fld_ty fld) = g off (fld_ty fld)) \<Longrightarrow>
   decode_named f offset consumed obj flds = decode_named g offset' consumed' obj' flds'"
proof (induction flds arbitrary: consumed consumed' obj obj' flds')
  case (Cons fld flds)
  then show ?case by (auto intro!: bindR_cong)
qed auto

section \<open>The type decoder\<close>

function decode_type ::
    "(bytes \<Rightarrow> string) \<Rightarrow> bytes \<Rightarrow> type_registry \<Rightarrow> nat \<Rightarrow> idl_type \<Rightarrow> (string \<rightharpoonup> idl_type) \<Rightarrow> nat \<Rightarrow>
     decode_error + json \<times> nat"
  and decode_coption ::
    "(bytes \<Rightarrow> string) \<Rightarrow> bytes \<Rightarrow> type_registry \<Rightarrow> nat \<Rightarrow> idl_generic_arg list \<Rightarrow>
     (string \<rightharpoonup> idl_type) \<Rightarrow> nat \<Rightarrow> decode_error + json \<times> nat"
  and decode_typedef ::
    "(bytes \<Rightarrow> string) \<Rightarrow> bytes \<Rightarrow> type_registry \<Rightarrow> nat \<Rightarrow> idl_typedef \<Rightarrow> (string \<rightharpoonup> idl_type) \<Rightarrow> nat \<Rightarrow>
     decode_error + json \<times> nat"
  and decode_struct_fields ::
    "(bytes \<Rightarrow> string) \<Rightarrow> bytes \<Rightarrow> type_registry \<Rightarrow> nat \<Rightarrow> idl_defined_fields option \<Rightarrow>
     (string \<rightharpoonup> idl_type) \<Rightarrow> nat \<Rightarrow> decode_error + json \<times> nat"
where
  "decode_type b58 data reg offset ty generics depth =
     (if MAX_DECODE_DEPTH < depth then Inl (DeserializationFailed ''max decode depth exceeded'')
      else case ty of
        TyBool \<Rightarrow>
          bindR (ensure_bytes data offset 1) (\<lambda>_.
            let val = data ! offset
            in if val = 0 then Inr (JBool False, 1)
               else if val = 1 then Inr (JBool True, 1)
               else Inl (DeserializationFailed (''invalid bool byte: 0x'' @ hex2 val)))
      | TyU8 \<Rightarrow> bindR (read_u8 data offset) (\<lambda>(v, n). Inr (JInt (uint v), n))
      | TyI8 \<Rightarrow> bindR (read_u8 data offset) (\<lambda>(v, n). Inr (JInt (sint v), n))
      | TyU16 \<Rightarrow> bindR (read_u16 data offset) (\<lambda>(v, n). Inr (JInt (uint v), n))
      | TyI16 \<Rightarrow> bindR (read_u16 data offset) (\<lambda>(v, n). Inr (JInt (sint v), n))
      | TyU32 \<Rightarrow> bindR (read_u32 data offset) (\<lambda>(v, n). Inr (JInt (uint v), n))
      | TyI32 \<Rightarrow> bindR (read_u32 data offset) (\<lambda>(v, n). Inr (JInt (sint v), n))
      | TyF32 \<Rightarrow> bindR (read_u32 data offset) (\<lambda>(v, n).
          if f32_is_finite v then Inr (JFloat (f32_to_f64 v), n)
          else Inr (JStr (format_non_finite_f32 v), n))
      | TyU64 \<Rightarrow> bindR (read_u64 data offset) (\<lambda>(v, n). Inr (JInt (uint v), n))
      | TyI64 \<Rightarrow> bindR (read_u64 data offset) (\<lambda>(v, n). Inr (JInt (sint v), n))
      | TyF64 \<Rightarrow> bindR (read_u64 data offset) (\<lambda>(v, n).
          if f64_is_finite v then Inr (JFloat v, n)
          else Inr (JStr (format_non_finite_f64 v), n))
      | TyU128 \<Rightarrow> bindR (read_u128 data offset) (\<lambda>(v, n). Inr (JStr (show_int (uint v)), n))
      | TyI128 \<Rightarrow> bindR (read_u128 data offset) (\<lambda>(v, n). Inr (JStr (show_int (sint v)), n))
      | TyU256 \<Rightarrow> bindR (ensure_bytes data offset 32) (\<lambda>_.
          Inr (JStr (''0x'' @ hex_encode (take 32 (drop offset data))), 32))
      | TyI256 \<Rightarrow> bindR (ensure_bytes data offset 32) (\<lambda>_.
          Inr (JStr (''0x'' @ hex_encode (take 32 (drop offset data))), 32))
      | TyString \<Rightarrow> bindR (read_u32 data offset) (\<lambda>(len, _).
          bindR (ensure_bytes data (offset + 4) (unat len)) (\<lambda>_.
          bindR (from_utf8 (take (unat len) (drop (offset + 4) data))) (\<lambda>s.
            Inr (JStr s, 4 + unat len))))
      | TyBytes \<Rightarrow> bindR (read_u32 data offset) (\<lambda>(len, _).
          bindR (ensure_bytes data (offset + 4) (unat len)) (\<lambda>_.
            Inr (JArr (map (\<lambda>b. JInt (uint b)) (take (unat len) (drop (offset + 4) data))),
                 4 + unat len)))
      | TyPubkey \<Rightarrow> bindR (ensure_bytes data offset 32) (\<lambda>_.
          Inr (JStr (b58 (take 32 (drop offset data))), 32))
      | TyOption inner \<Rightarrow> bindR (ensure_bytes data offset 1) (\<lambda>_.
          let tag = data ! offset
          in if tag = 0 then Inr (JNull, 1)
             else if tag = 1 then
               bindR (decode_type b58 data reg (offset + 1) inner generics (depth + 1)) (\<lambda>(val, consumed).
                 Inr (val, 1 + consumed))
             else Inl (DeserializationFailed (''invalid Option tag: 0x'' @ hex2 tag)))
      | TyVec inner \<Rightarrow> bindR (read_u32 data offset) (\<lambda>(count, _).
          bindR (decode_items (\<lambda>off t. decode_type b58 data reg off t generics (depth + 1))
                   offset 4 (replicate (unat count) inner)) (\<lambda>(items, consumed).
            Inr (JArr items, consumed)))
      | TyArray inner len \<Rightarrow> bindR (resolve_array_len len generics) (\<lambda>count.
          bindR (decode_items (\<lambda>off t. decode_type b58 data reg off t generics (depth + 1))
                   offset 0 (replicate count inner)) (\<lambda>(items, consumed).
            Inr (JArr items, consumed)))
      | TyDefined name generic_args \<Rightarrow>
          (if name = ''COption'' then decode_coption b58 data reg offset generic_args generics depth
           else bindR (registry_resolve reg name) (\<lambda>td.
                bindR (check_serialization (td_serialization td)) (\<lambda>_.
                  decode_typedef b58 data reg offset td
                    (bind_generics generics (zip (td_generics td) generic_args)) (depth + 1))))
      | TyGeneric name \<Rightarrow>
          (case generics name of
             Some resolved \<Rightarrow> decode_type b58 data reg offset resolved generics (depth + 1)
           | None \<Rightarrow> Inl (DeserializationFailed (''unresolved generic: '' @ name))))"
| "decode_coption b58 data reg offset generic_args generics depth =
     (case generic_args of
        GenericArgType inner # _ \<Rightarrow>
          (case fixed_size inner reg of
             None \<Rightarrow> Inl (UnsupportedType ''COption with variable-size inner type'')
           | Some inner_size \<Rightarrow>
               bindR (read_u32 data offset) (\<lambda>(tag, _).
                 let total_consumed = wrapping_add 4 inner_size
                 in if tag = 0 then
                      bindR (ensure_bytes data offset total_consumed) (\<lambda>_. Inr (JNull, total_consumed))
                    else if tag = 1 then
                      bindR (decode_type b58 data reg (offset + 4) inner generics (depth + 1)) (\<lambda>(val, _).
                        Inr (val, total_consumed))
                    else Inl (DeserializationFailed (''invalid COption tag: '' @ show_nat (unat tag)))))
      | _ \<Rightarrow> Inl (UnsupportedType ''COption requires exactly one type argument''))"
| "decode_typedef b58 data reg offset td generics depth =
     (case td_ty td of
        TdStruct flds \<Rightarrow> decode_struct_fields b58 data reg offset flds generics depth
      | TdEnum variants \<Rightarrow>
          bindR (ensure_bytes data offset 1) (\<lambda>_.
            let variant_idx = unat (data ! offset)
            in if variant_idx < length variants then
                 (let variant = variants ! variant_idx
                  in bindR
                       (case var_fields variant of
                          None \<Rightarrow> Inr (JObj [], 1)
                        | Some (Named flds) \<Rightarrow>
                            bindR (decode_named
                                     (\<lambda>off t. decode_type b58 data reg off t generics (depth + 1))
                                     offset 1 [] flds) (\<lambda>(obj, consumed). Inr (JObj obj, consumed))
                        | Some (Tuple types) \<Rightarrow>
                            (case types of
                               [ty] \<Rightarrow>
                                 bindR (decode_type b58 data reg (offset + 1) ty generics (depth + 1))
                                   (\<lambda>(val, n). Inr (val, 1 + n))
                             | _ \<Rightarrow>
                                 bindR (decode_items
                                          (\<lambda>off t. decode_type b58 data reg off t generics (depth + 1))
                                          offset 1 types) (\<lambda>(arr, consumed). Inr (JArr arr, consumed))))
                       (\<lambda>(payload, consumed). Inr (JObj [(var_name variant, payload)], consumed)))
               else Inl (DeserializationFailed
                      (''enum variant index '' @ show_nat variant_idx @ '' out of range (max '' @
                       show_nat (length variants) @ '')'')))
      | TdType alias \<Rightarrow> decode_type b58 data reg offset alias generics (depth + 1))"
| "decode_struct_fields b58 data reg offset opt_fields generics depth =
     (case opt_fields of
        None \<Rightarrow> Inr (JObj [], 0)
      | Some (Named flds) \<Rightarrow>
          bindR (decode_named (\<lambda>off t. decode_type b58 data reg off t generics (depth + 1))
                   offset 0 [] flds) (\<lambda>(obj, consumed). Inr (JObj obj, consumed))
      | Some (Tuple types) \<Rightarrow>
          bindR (decode_items (\<lambda>off t. decode_type b58 data reg off t generics (depth + 1))
                   offset 0 types) (\<lambda>(arr, consumed). Inr (JArr arr, consumed)))"
  by pat_completeness auto
termination
  by (relation "measure (\<lambda>x. case x of
        Inl (Inl (_, _, _, _, _, _, d)) \<Rightarrow> 10 * (Suc MAX_DECODE_DEPTH - d)
      | Inl (Inr (_, _, _, _, _, _, d)) \<Rightarrow> 10 * (MAX_DECODE_DEPTH - d) + 5
      | Inr (Inl (_, _, _, _, _, _, d)) \<Rightarrow> 10 * (MAX_DECODE_DEPTH - d) + 4
      | Inr (Inr (_, _, _, _, _, _, d)) \<Rightarrow> 10 * (MAX_DECODE_DEPTH - d) + 3)")
    (auto simp: MAX_DECODE_DEPTH_def)

declare decode_type.simps [simp del] decode_coption.simps [simp del]
  decode_typedef.simps [simp del] decode_struct_fields.simps [simp del]

section \<open>ChainparserDecoder\<close>

text \<open>
  The decoder's only state is the cache of registries, keyed by \<open>idl.address\<close>. The mutex is
  taken with \<open>unwrap_or_else(into_inner)\<close>, so a poisoned lock is used as any other.
\<close>

record chainparser_decoder =
  registry_cache :: "string \<rightharpoonup> type_registry"

definition chainparser_new :: chainparser_decoder where
  "chainparser_new = \<lparr> registry_cache = Map.empty \<rparr>"

definition get_or_build_registry ::
  "chainparser_decoder \<Rightarrow> idl \<Rightarrow> type_registry \<times> chainparser_decoder" where
  "get_or_build_registry dec i =
     (case registry_cache dec (idl_address i) of
        Some existing \<Rightarrow> (existing, dec)
      | None \<Rightarrow>
          (let reg = registry_from_idl i
           in (reg, dec\<lparr> registry_cache := (registry_cache dec)(idl_address i \<mapsto> reg) \<rparr>)))"

definition disc_len :: "bytes \<Rightarrow> nat" where
  "disc_len disc = (if disc = [] then 8 else length disc)"

definition decode_instruction ::
  "(bytes \<Rightarrow> string) \<Rightarrow> (bytes \<Rightarrow> bytes) \<Rightarrow> chainparser_decoder \<Rightarrow> string \<Rightarrow> bytes \<Rightarrow> idl \<Rightarrow>
   (decode_error + decoded_instruction) \<times> chainparser_decoder" where
  "decode_instruction b58 sha256 dec program_id data i =
     (case find_instruction_with_fallback sha256 data i of
        Inl e \<Rightarrow> (Inl e, dec)
      | Inr ix \<Rightarrow>
          (let (reg, dec') = get_or_build_registry dec i
           in (bindR (decode_named (\<lambda>off t. decode_type b58 data reg off t Map.empty 0)
                        (disc_len (ix_discriminator ix)) 0 [] (ix_args ix)) (\<lambda>(args_obj, _).
                 Inr (instruction_from_decoded program_id (ix_name ix) (JObj args_obj))),
               dec')))"

definition decode_account ::
  "(bytes \<Rightarrow> string) \<Rightarrow> (bytes \<Rightarrow> bytes) \<Rightarrow> chainparser_decoder \<Rightarrow> string \<Rightarrow> string \<Rightarrow> bytes \<Rightarrow> idl \<Rightarrow>
   (decode_error + decoded_account) \<times> chainparser_decoder" where
  "decode_account b58 sha256 dec program_id pubkey data i =
     (case find_account_with_fallback sha256 data i of
        Inl e \<Rightarrow> (Inl e, dec)
      | Inr account \<Rightarrow>
          (let (reg, dec') = get_or_build_registry dec i; dlen = disc_len (acct_discriminator account)
           in (bindR (registry_resolve reg (acct_name account)) (\<lambda>type_def.
                 bindR (check_serialization (td_serialization type_def)) (\<lambda>_.
                   if length data < dlen then
                     Inl (DeserializationFailed
                       (''account data too short: '' @ show_nat (length data) @
                        '' bytes, need at least '' @ show_nat dlen @ '' for discriminator''))
                   else
                     bindR (decode_typedef b58 data reg dlen type_def Map.empty 0) (\<lambda>(value, _).
                       Inr (account_from_decoded program_id (acct_name account) pubkey value)))),
               dec')))"

end
