(* ===== verification/Decoder_Correct.thy ===== *)
theory Decoder_Correct
  imports Decoder
begin

text \<open>
  Correctness of the Borsh decoder against a declarative wire format.

  \<open>wire\<close> relates a type, the JSON value it stands for and the bytes that encode it, with no
  offsets, no input buffer and no loops. \<open>decode_type_sound\<close> shows that whatever the decoder
  accepts is an encoding of the value it returns, inside the input;
  \<open>decode_type_complete\<close> shows that it accepts every encoding, wherever it stands in the input.
  The parameter \<open>wrap\<close> admits the one non-encoding the code accepts: a null \<open>COption\<close> whose
  size computation \<open>4 + inner_size\<close> wrapped.
\<close>

section \<open>Readers\<close>

lemma ensure_bytes_Inr [resR]:
  "ensure_bytes data offset n = Inr u \<longleftrightarrow>
     offset + n < usize_bound \<and> offset + n \<le> length data"
  by (cases u) (auto simp: ensure_bytes_def checked_add_def)

lemma read_le_Inr [resR]:
  "read_le n data offset = Inr r \<longleftrightarrow>
     offset + n < usize_bound \<and> offset + n \<le> length data \<and>
     r = (of_nat (le_val (take n (drop offset data))), n)"
  by (auto simp: read_le_def resR)

lemmas readers = read_u8_def read_u16_def read_u32_def read_u64_def read_u128_def

lemma take1_nth: "i < length xs \<Longrightarrow> take 1 (drop i xs) = [xs ! i]"
  by (simp add: take_Suc_conv_app_nth)

section \<open>The wire format\<close>

definition uint_width :: "idl_type \<Rightarrow> nat option" where
  "uint_width ty = (case ty of TyU8 \<Rightarrow> Some 1 | TyU16 \<Rightarrow> Some 2 | TyU32 \<Rightarrow> Some 4 | TyU64 \<Rightarrow> Some 8
                    | _ \<Rightarrow> None)"

definition sint_width :: "idl_type \<Rightarrow> nat option" where
  "sint_width ty = (case ty of TyI8 \<Rightarrow> Some 1 | TyI16 \<Rightarrow> Some 2 | TyI32 \<Rightarrow> Some 4 | TyI64 \<Rightarrow> Some 8
                    | _ \<Rightarrow> None)"

text \<open>Two's complement in \<open>k\<close> bytes.\<close>

definition fits_signed :: "nat \<Rightarrow> int \<Rightarrow> bool" where
  "fits_signed k i = (- (2 ^ (8 * k - 1)) \<le> i \<and> i < 2 ^ (8 * k - 1))"

definition signed_bytes :: "nat \<Rightarrow> int \<Rightarrow> bytes" where
  "signed_bytes k i = le_bytes k (nat (i mod 2 ^ (8 * k)))"

definition f32_json :: "u32 \<Rightarrow> json" where
  "f32_json w = (if f32_is_finite w then JFloat (f32_to_f64 w) else JStr (format_non_finite_f32 w))"

definition f64_json :: "u64 \<Rightarrow> json" where
  "f64_json w = (if f64_is_finite w then JFloat w else JStr (format_non_finite_f64 w))"

inductive wire ::
    "bool \<Rightarrow> (bytes \<Rightarrow> string) \<Rightarrow> type_registry \<Rightarrow> nat \<Rightarrow> (string \<rightharpoonup> idl_type) \<Rightarrow> idl_type \<Rightarrow> json \<Rightarrow> bytes \<Rightarrow> bool"
  and wire_items ::
    "bool \<Rightarrow> (bytes \<Rightarrow> string) \<Rightarrow> type_registry \<Rightarrow> nat \<Rightarrow> (string \<rightharpoonup> idl_type) \<Rightarrow> idl_type list \<Rightarrow> json list \<Rightarrow> bytes \<Rightarrow> bool"
  and wire_def ::
    "bool \<Rightarrow> (bytes \<Rightarrow> string) \<Rightarrow> type_registry \<Rightarrow> nat \<Rightarrow> (string \<rightharpoonup> idl_type) \<Rightarrow> idl_typedef_ty \<Rightarrow> json \<Rightarrow> bytes \<Rightarrow> bool"
  for wrap b58 reg
where
  wire_bool: "d \<le> MAX_DECODE_DEPTH \<Longrightarrow> wire wrap b58 reg d g TyBool (JBool b) [if b then 1 else 0]"
| wire_uint: "d \<le> MAX_DECODE_DEPTH \<Longrightarrow> uint_width ty = Some k \<Longrightarrow> n < 2 ^ (8 * k) \<Longrightarrow>
    wire wrap b58 reg d g ty (JInt (int n)) (le_bytes k n)"
| wire_sint: "d \<le> MAX_DECODE_DEPTH \<Longrightarrow> sint_width ty = Some k \<Longrightarrow> fits_signed k i \<Longrightarrow>
    wire wrap b58 reg d g ty (JInt i) (signed_bytes k i)"
| wire_u128: "d \<le> MAX_DECODE_DEPTH \<Longrightarrow> n < 2 ^ 128 \<Longrightarrow>
    wire wrap b58 reg d g TyU128 (JStr (show_int (int n))) (le_bytes 16 n)"
| wire_i128: "d \<le> MAX_DECODE_DEPTH \<Longrightarrow> fits_signed 16 i \<Longrightarrow>
    wire wrap b58 reg d g TyI128 (JStr (show_int i)) (signed_bytes 16 i)"
| wire_f32: "d \<le> MAX_DECODE_DEPTH \<Longrightarrow>
    wire wrap b58 reg d g TyF32 (f32_json w) (le_bytes 4 (unat w))"
| wire_f64: "d \<le> MAX_DECODE_DEPTH \<Longrightarrow>
    wire wrap b58 reg d g TyF64 (f64_json w) (le_bytes 8 (unat w))"
| wire_256: "d \<le> MAX_DECODE_DEPTH \<Longrightarrow> ty = TyU256 \<or> ty = TyI256 \<Longrightarrow> length bs = 32 \<Longrightarrow>
    wire wrap b58 reg d g ty (JStr (''0x'' @ hex_encode bs)) bs"
| wire_pubkey: "d \<le> MAX_DECODE_DEPTH \<Longrightarrow> length bs = 32 \<Longrightarrow>
    wire wrap b58 reg d g TyPubkey (JStr (b58 bs)) bs"
| wire_string: "d \<le> MAX_DECODE_DEPTH \<Longrightarrow> utf8_error 0 bs = None \<Longrightarrow> length bs < 2 ^ 32 \<Longrightarrow>
    wire wrap b58 reg d g TyString (JStr (of_bytes bs)) (le_bytes 4 (length bs) @ bs)"
| wire_bytes: "d \<le> MAX_DECODE_DEPTH \<Longrightarrow> length bs < 2 ^ 32 \<Longrightarrow>
    wire wrap b58 reg d g TyBytes (JArr (map (\<lambda>b. JInt (uint b)) bs)) (le_bytes 4 (length bs) @ bs)"
| wire_none: "d \<le> MAX_DECODE_DEPTH \<Longrightarrow> wire wrap b58 reg d g (TyOption ty) JNull [0]"
| wire_some: "d \<le> MAX_DECODE_DEPTH \<Longrightarrow> wire wrap b58 reg (d + 1) g ty v bs \<Longrightarrow>
    wire wrap b58 reg d g (TyOption ty) v (1 # bs)"
| wire_vec: "d \<le> MAX_DECODE_DEPTH \<Longrightarrow> n < 2 ^ 32 \<Longrightarrow>
    wire_items wrap b58 reg (d + 1) g (replicate n ty) vs bs \<Longrightarrow>
    wire wrap b58 reg d g (TyVec ty) (JArr vs) (le_bytes 4 n @ bs)"
| wire_array: "d \<le> MAX_DECODE_DEPTH \<Longrightarrow>
    wire_items wrap b58 reg (d + 1) g (replicate n ty) vs bs \<Longrightarrow>
    wire wrap b58 reg d g (TyArray ty (LenValue n)) (JArr vs) bs"
| wire_cnone: "d \<le> MAX_DECODE_DEPTH \<Longrightarrow> fixed_size ty reg = Some k \<Longrightarrow> 4 + k < usize_bound \<Longrightarrow>
    length pad = k \<Longrightarrow>
    wire wrap b58 reg d g (TyDefined ''COption'' (GenericArgType ty # args)) JNull (le_bytes 4 0 @ pad)"
| wire_cnone_wrapped: "wrap \<Longrightarrow> d \<le> MAX_DECODE_DEPTH \<Longrightarrow> fixed_size ty reg = Some k \<Longrightarrow>
    usize_bound \<le> 4 + k \<Longrightarrow>
    wire wrap b58 reg d g (TyDefined ''COption'' (GenericArgType ty # args)) JNull
      (take (wrapping_add 4 k) (le_bytes 4 0))"
| wire_csome: "d \<le> MAX_DECODE_DEPTH \<Longrightarrow> fixed_size ty reg = Some k \<Longrightarrow>
    wire wrap b58 reg (d + 1) g ty v bs \<Longrightarrow>
    wire wrap b58 reg d g (TyDefined ''COption'' (GenericArgType ty # args)) v (le_bytes 4 1 @ bs)"
| wire_defined: "d \<le> MAX_DECODE_DEPTH \<Longrightarrow> name \<noteq> ''COption'' \<Longrightarrow> reg name = Some td \<Longrightarrow>
    td_serialization td = Borsh \<Longrightarrow>
    wire_def wrap b58 reg (d + 2) (bind_generics g (zip (td_generics td) args)) (td_ty td) v bs \<Longrightarrow>
    wire wrap b58 reg d g (TyDefined name args) v bs"
| wire_generic: "d \<le> MAX_DECODE_DEPTH \<Longrightarrow> g name = Some ty \<Longrightarrow>
    wire wrap b58 reg (d + 1) g ty v bs \<Longrightarrow> wire wrap b58 reg d g (TyGeneric name) v bs"
| wire_items_Nil: "wire_items wrap b58 reg d g [] [] []"
| wire_items_Cons: "wire wrap b58 reg d g ty v bs \<Longrightarrow> wire_items wrap b58 reg d g tys vs cs \<Longrightarrow>
    wire_items wrap b58 reg d g (ty # tys) (v # vs) (bs @ cs)"
| wire_unit: "wire_def wrap b58 reg d g (TdStruct None) (JObj []) []"
| wire_struct: "wire_items wrap b58 reg d g (map fld_ty flds) vs bs \<Longrightarrow>
    wire_def wrap b58 reg d g (TdStruct (Some (Named flds)))
      (JObj (fold (\<lambda>(f, v). map_insert (fld_name f) v) (zip flds vs) [])) bs"
| wire_tuple: "wire_items wrap b58 reg d g tys vs bs \<Longrightarrow>
    wire_def wrap b58 reg d g (TdStruct (Some (Tuple tys))) (JArr vs) bs"
| wire_enum_unit: "k < length vars \<Longrightarrow> k < 256 \<Longrightarrow> var_fields (vars ! k) = None \<Longrightarrow>
    wire_def wrap b58 reg d g (TdEnum vars) (JObj [(var_name (vars ! k), JObj [])]) [of_nat k]"
| wire_enum_named: "k < length vars \<Longrightarrow> k < 256 \<Longrightarrow> var_fields (vars ! k) = Some (Named flds) \<Longrightarrow>
    wire_items wrap b58 reg d g (map fld_ty flds) vs bs \<Longrightarrow>
    wire_def wrap b58 reg d g (TdEnum vars)
      (JObj [(var_name (vars ! k), JObj (fold (\<lambda>(f, v). map_insert (fld_name f) v) (zip flds vs) []))])
      (of_nat k # bs)"
| wire_enum_newtype: "k < length vars \<Longrightarrow> k < 256 \<Longrightarrow> var_fields (vars ! k) = Some (Tuple [ty]) \<Longrightarrow>
    wire wrap b58 reg d g ty v bs \<Longrightarrow>
    wire_def wrap b58 reg d g (TdEnum vars) (JObj [(var_name (vars ! k), v)]) (of_nat k # bs)"
| wire_enum_tuple: "k < length vars \<Longrightarrow> k < 256 \<Longrightarrow> var_fields (vars ! k) = Some (Tuple tys) \<Longrightarrow>
    length tys \<noteq> 1 \<Longrightarrow> wire_items wrap b58 reg d g tys vs bs \<Longrightarrow>
    wire_def wrap b58 reg d g (TdEnum vars) (JObj [(var_name (vars ! k), JArr vs)]) (of_nat k # bs)"
| wire_alias: "wire wrap b58 reg d g ty v bs \<Longrightarrow> wire_def wrap b58 reg d g (TdType ty) v bs"

section \<open>Scalars\<close>

lemma pow256: "(256 :: nat) ^ k = 2 ^ (8 * k)"
  by (simp add: power_mult)

lemma unat_of_le_val:
  "length bs = k \<Longrightarrow> LENGTH('a) = 8 * k \<Longrightarrow> unat (of_nat (le_val bs) :: 'a::len word) = le_val bs"
  using le_val_bound [of bs] by (simp add: pow256 unat_of_nat)

lemma uint_of_le_val:
  "length bs = k \<Longrightarrow> LENGTH('a) = 8 * k \<Longrightarrow> uint (of_nat (le_val bs) :: 'a::len word) = int (le_val bs)"
  by (simp add: uint_nat unat_of_le_val)

lemma fits_signed_sint: "LENGTH('a) = 8 * k \<Longrightarrow> fits_signed k (sint (w :: 'a::len word))"
  using sint_greater_eq [of w] sint_less [of w] by (simp add: fits_signed_def)

lemma signed_bytes_sint:
  assumes "length bs = k" and "LENGTH('a) = 8 * k"
  shows "signed_bytes k (sint (of_nat (le_val bs) :: 'a::len word)) = bs"
proof -
  let ?w = "of_nat (le_val bs) :: 'a word"
  have "sint ?w mod 2 ^ (8 * k) = uint ?w"
    using assms(2) by (metis take_bit_eq_mod uint_sint)
  then have "nat (sint ?w mod 2 ^ (8 * k)) = le_val bs"
    using uint_of_le_val [OF assms] by simp
  then show ?thesis using assms(1) by (simp add: signed_bytes_def le_bytes_eqI)
qed

lemma of_nat_le_val_le_bytes:
  "LENGTH('a) = 8 * k \<Longrightarrow> n < 2 ^ (8 * k) \<Longrightarrow> unat (of_nat (le_val (le_bytes k n)) :: 'a::len word) = n"
  by (simp add: le_bytesR pow256 unat_of_nat)

lemma sint_signed_bytes:
  assumes "LENGTH('a) = 8 * k" and "fits_signed k i"
  shows "sint (of_nat (le_val (signed_bytes k i)) :: 'a::len word) = i"
proof -
  have "int (nat (i mod 2 ^ (8 * k))) = i mod 2 ^ (8 * k)" by simp
  moreover have "nat (i mod 2 ^ (8 * k)) < 2 ^ (8 * k)"
    by (simp add: nat_less_iff)
  ultimately have "(of_nat (le_val (signed_bytes k i)) :: 'a word) = of_int (i mod 2 ^ LENGTH('a))"
    using assms(1) by (metis le_bytesR(1) mod_less of_int_of_nat_eq pow256 signed_bytes_def)
  also have "\<dots> = of_int i"
    by (rule word_uint_eqI) (simp add: unsigned_of_int take_bit_eq_mod)
  finally show ?thesis using assms
    by (simp add: fits_signed_def signed_take_bit_int_eq_self signed_of_int)
qed

section \<open>Fixed sizes\<close>

lemma sum_sizes_mono:
  "sum_sizes f acc xs = Some n \<Longrightarrow> (\<And>x s. x \<in> set xs \<Longrightarrow> f x = Some s \<Longrightarrow> g x = Some s) \<Longrightarrow>
   sum_sizes g acc xs = Some n"
  by (induction xs arbitrary: acc) (auto simp: bind_eq_Some_conv)

lemma sum_sizes_Some:
  "sum_sizes f acc xs = Some n \<Longrightarrow> \<exists>ns. map f xs = map Some ns \<and> n = acc + sum_list ns"
proof (induction xs arbitrary: acc)
  case (Cons x xs)
  then obtain s t where s: "f x = Some s" "checked_add acc s = Some t" "sum_sizes f t xs = Some n"
    by (auto simp: bind_eq_Some_conv)
  from Cons.IH [OF s(3)] obtain ns where "map f xs = map Some ns" "n = t + sum_list ns" by blast
  then show ?case using s by (intro exI [of _ "s # ns"]) (auto simp: checked_add_def split: if_splits)
qed simp

text \<open>The size a typedef body has, as the \<open>Defined\<close> arm of \<open>fixed_size_inner\<close> computes it.\<close>

definition td_fixed_size :: "idl_typedef_ty \<Rightarrow> type_registry \<Rightarrow> nat \<Rightarrow> nat option" where
  "td_fixed_size body reg k =
     (case body of
        TdStruct (Some (Named flds)) \<Rightarrow> sum_sizes (\<lambda>f. fixed_size_inner (fld_ty f) reg k) 0 flds
      | TdStruct (Some (Tuple types)) \<Rightarrow> sum_sizes (\<lambda>t. fixed_size_inner t reg k) 0 types
      | TdType alias \<Rightarrow> fixed_size_inner alias reg k
      | _ \<Rightarrow> None)"

lemma fixed_size_inner_deep: "MAX_DECODE_DEPTH < k \<Longrightarrow> fixed_size_inner ty reg k = None"
  by (subst fixed_size_inner.simps) simp

lemma fixed_size_inner_eqs:
  assumes "\<not> MAX_DECODE_DEPTH < k"
  shows "fixed_size_inner (TyArray ty (LenValue m)) reg k =
      Option.bind (fixed_size_inner ty reg (Suc k)) (\<lambda>s. checked_mul s m)"
    and "fixed_size_inner (TyArray ty (LenGeneric g)) reg k = None"
    and "fixed_size_inner (TyDefined ''COption'' []) reg k = None"
    and "fixed_size_inner (TyDefined ''COption'' (GenericArgConst c # args)) reg k = None"
    and "fixed_size_inner (TyDefined ''COption'' (GenericArgType ty # args)) reg k =
      Option.bind (fixed_size_inner ty reg (Suc k)) (\<lambda>s. checked_add 4 s)"
    and "name \<noteq> ''COption'' \<Longrightarrow> fixed_size_inner (TyDefined name args) reg k =
      (case reg name of None \<Rightarrow> None | Some td \<Rightarrow> td_fixed_size (td_ty td) reg (Suc k))"
  using assms
  by (subst fixed_size_inner.simps; simp add: td_fixed_size_def
      split: option.splits idl_typedef_ty.splits idl_defined_fields.splits)+

lemma td_fixed_size_mono:
  assumes "td_fixed_size body reg k = Some n"
    and "\<And>t s. fixed_size_inner t reg k = Some s \<Longrightarrow> fixed_size_inner t reg j = Some s"
  shows "td_fixed_size body reg j = Some n"
  using assms by (auto simp: td_fixed_size_def split: option.splits idl_typedef_ty.splits
      idl_defined_fields.splits elim!: sum_sizes_mono)

lemma fixed_size_inner_step:
  assumes IH: "\<And>t s. fixed_size_inner t reg (Suc k) = Some s \<Longrightarrow> fixed_size_inner t reg (Suc j) = Some s"
    and "j \<le> k" and size: "fixed_size_inner ty reg k = Some n"
  shows "fixed_size_inner ty reg j = Some n"
proof -
  have k: "\<not> MAX_DECODE_DEPTH < k" using size fixed_size_inner_deep [of k] by fastforce
  then have j: "\<not> MAX_DECODE_DEPTH < j" using assms(2) by simp
  note eqs = fixed_size_inner_eqs [OF k] fixed_size_inner_eqs [OF j]
  show ?thesis
  proof (cases ty)
    case (TyArray t len)
    then show ?thesis using size by (cases len) (auto simp: eqs bind_eq_Some_conv dest: IH)
  next
    case (TyDefined name args)
    show ?thesis
    proof (cases "name = ''COption''")
      case True
      then show ?thesis using size TyDefined
        by (cases args; cases "hd args") (auto simp: eqs bind_eq_Some_conv dest: IH)
    next
      case False
      then show ?thesis using size TyDefined
        by (auto simp: eqs split: option.splits elim: td_fixed_size_mono dest: IH)
    qed
  qed (use size k j in \<open>subst (asm) fixed_size_inner.simps, subst fixed_size_inner.simps, simp\<close>)+
qed

lemma fixed_size_inner_mono:
  "fixed_size_inner ty reg k = Some n \<Longrightarrow> j \<le> k \<Longrightarrow> fixed_size_inner ty reg j = Some n"
proof (induction "Suc MAX_DECODE_DEPTH - k" arbitrary: ty n j k)
  case 0
  then show ?case by (simp add: fixed_size_inner_deep)
next
  case (Suc m)
  have "fixed_size_inner t reg (Suc k) = Some s \<Longrightarrow> fixed_size_inner t reg (Suc j) = Some s" for t s
    by (rule Suc.hyps(1) [of "Suc k" t s "Suc j"]) (use Suc.hyps(2) Suc.prems(2) in simp_all)
  then show ?case by (rule fixed_size_inner_step [OF _ Suc.prems(2,1)])
qed

lemma fixed_size_inner_agree:
  "fixed_size_inner ty reg j = Some m \<Longrightarrow> fixed_size_inner ty reg k = Some n \<Longrightarrow> m = n"
  by (metis fixed_size_inner_mono nat_le_linear option.inject)

lemma fixed_size_inner_depth: "fixed_size_inner ty reg k = Some n \<Longrightarrow> \<not> MAX_DECODE_DEPTH < k"
  using fixed_size_inner_deep [of k] by fastforce

lemma fixed_size_inner_Defined:
  "fixed_size_inner (TyDefined name args) reg k = Some n \<Longrightarrow> name \<noteq> ''COption'' \<Longrightarrow> reg name = Some td \<Longrightarrow>
   td_fixed_size (td_ty td) reg (Suc k) = Some n"
  by (frule fixed_size_inner_depth) (simp add: fixed_size_inner_eqs)

lemma fixed_size_inner_COption:
  "fixed_size_inner (TyDefined ''COption'' (GenericArgType ty # args)) reg k = Some n \<Longrightarrow>
   \<exists>s. fixed_size_inner ty reg (Suc k) = Some s \<and> 4 + s < usize_bound \<and> n = 4 + s"
  by (frule fixed_size_inner_depth)
    (auto simp: fixed_size_inner_eqs bind_eq_Some_conv checked_add_def split: if_splits)

lemma fixed_size_inner_Array:
  "fixed_size_inner (TyArray ty (LenValue m)) reg k = Some n \<Longrightarrow>
   \<exists>s. fixed_size_inner ty reg (Suc k) = Some s \<and> n = s * m"
  by (frule fixed_size_inner_depth)
    (auto simp: fixed_size_inner_eqs bind_eq_Some_conv checked_mul_def split: if_splits)

lemma fixed_size_inner_variable:
  "fixed_size_inner TyString reg k = None" "fixed_size_inner TyBytes reg k = None"
  "fixed_size_inner (TyOption ty) reg k = None" "fixed_size_inner (TyVec ty) reg k = None"
  "fixed_size_inner (TyGeneric name) reg k = None"
  by (subst fixed_size_inner.simps, simp)+

lemma fixed_size_inner_scalar:
  assumes "fixed_size_inner ty reg k = Some n"
  shows "uint_width ty = Some m \<Longrightarrow> n = m" "sint_width ty = Some m \<Longrightarrow> n = m"
    "ty = TyBool \<Longrightarrow> n = 1" "ty = TyU128 \<Longrightarrow> n = 16" "ty = TyI128 \<Longrightarrow> n = 16" "ty = TyF32 \<Longrightarrow> n = 4"
    "ty = TyF64 \<Longrightarrow> n = 8" "ty = TyU256 \<Longrightarrow> n = 32" "ty = TyI256 \<Longrightarrow> n = 32" "ty = TyPubkey \<Longrightarrow> n = 32"
  using assms
  by (subst (asm) fixed_size_inner.simps,
      auto simp: uint_width_def sint_width_def split: if_splits idl_type.splits)+

lemma map_Some_replicate: "f x = Some s \<Longrightarrow> map f (replicate n x) = map Some (replicate n s)"
  by (induction n) auto

lemma length_signed_bytes [simp]: "length (signed_bytes k i) = k"
  by (simp add: signed_bytes_def)

lemma td_fixed_size_struct:
  "td_fixed_size (TdStruct (Some (Named flds))) reg k = Some n \<Longrightarrow>
   \<exists>ns. map (\<lambda>t. fixed_size_inner t reg k) (map fld_ty flds) = map Some ns \<and> n = sum_list ns"
  "td_fixed_size (TdStruct (Some (Tuple tys))) reg k = Some n \<Longrightarrow>
   \<exists>ns. map (\<lambda>t. fixed_size_inner t reg k) tys = map Some ns \<and> n = sum_list ns"
  by (auto simp: td_fixed_size_def o_def dest: sum_sizes_Some)

text \<open>An encoding of a fixed-size type has the size \<open>fixed_size\<close> computes.\<close>

lemma wire_fixed_size:
  "wire wrap b58 reg d g ty v bs \<Longrightarrow> fixed_size_inner ty reg k = Some n \<Longrightarrow> length bs = n"
  "wire_items wrap b58 reg d g tys vs bs \<Longrightarrow> map (\<lambda>t. fixed_size_inner t reg k) tys = map Some ns \<Longrightarrow>
   length bs = sum_list ns"
  "wire_def wrap b58 reg d g body v bs \<Longrightarrow> td_fixed_size body reg k = Some n \<Longrightarrow> length bs = n"
proof (induction arbitrary: k n and k ns and k n rule: wire_wire_items_wire_def.inducts)
  case (wire_array d g m ty vs bs)
  then obtain s where s: "fixed_size_inner ty reg (Suc k) = Some s" "n = s * m"
    by (blast dest: fixed_size_inner_Array)
  then show ?case using wire_array.IH(2) [OF map_Some_replicate] by (simp add: sum_list_replicate)
next
  case (wire_cnone d ty m pad g args)
  then show ?case
    by (auto simp: fixed_size_def dest!: fixed_size_inner_COption dest: fixed_size_inner_agree)
next
  case (wire_cnone_wrapped d ty m g args)
  then show ?case
    by (auto simp: fixed_size_def dest!: fixed_size_inner_COption dest: fixed_size_inner_agree)
next
  case (wire_csome d ty m g v bs args)
  then show ?case by (auto dest!: fixed_size_inner_COption)
next
  case (wire_defined d name td g args v bs)
  then show ?case by (blast dest: fixed_size_inner_Defined)
next
  case (wire_items_Cons d g ty v bs tys vs cs)
  then show ?case by (cases ns) auto
next
  case (wire_struct d g flds vs bs)
  then show ?case by (blast dest: td_fixed_size_struct)
next
  case (wire_tuple d g tys vs bs)
  then show ?case by (blast dest: td_fixed_size_struct)
qed (auto simp: fixed_size_inner_variable td_fixed_size_def dest: fixed_size_inner_scalar)

section \<open>Soundness\<close>

definition sound_at :: "(bytes \<Rightarrow> string) \<Rightarrow> bytes \<Rightarrow> type_registry \<Rightarrow> nat \<Rightarrow> bool" where
  "sound_at b58 data reg d \<longleftrightarrow>
     (\<forall>off ty g v n. decode_type b58 data reg off ty g d = Inr (v, n) \<longrightarrow> off \<le> length data \<longrightarrow>
        off + n \<le> length data \<and> wire True b58 reg d g ty v (take n (drop off data)))"

lemma sound_atD:
  "sound_at b58 data reg d \<Longrightarrow> decode_type b58 data reg off ty g d = Inr (v, n) \<Longrightarrow> off \<le> length data \<Longrightarrow>
   off + n \<le> length data \<and> wire True b58 reg d g ty v (take n (drop off data))"
  by (auto simp: sound_at_def)

lemma decode_items_sound:
  assumes "sound_at b58 data reg d"
    and "decode_items (\<lambda>off t. decode_type b58 data reg off t g d) off c tys = Inr (vs, m)"
    and "off + c \<le> length data"
  shows "c \<le> m \<and> off + m \<le> length data \<and>
         wire_items True b58 reg d g tys vs (take (m - c) (drop (off + c) data))"
  using assms(2,3)
proof (induction tys arbitrary: c vs)
  case Nil
  then show ?case by (auto intro: wire_items_Nil)
next
  case (Cons ty tys)
  then obtain v n vs' where ty: "decode_type b58 data reg (off + c) ty g d = Inr (v, n)"
    and tys: "decode_items (\<lambda>off t. decode_type b58 data reg off t g d) off (c + n) tys = Inr (vs', m)"
    and vs: "vs = v # vs'"
    by (auto simp: resR)
  from sound_atD [OF assms(1) ty Cons.prems(2)]
  have le: "off + (c + n) \<le> length data" and w: "wire True b58 reg d g ty v (take n (drop (off + c) data))"
    by simp_all
  from Cons.IH [OF tys le]
  have m: "c + n \<le> m" "off + m \<le> length data"
    and ws: "wire_items True b58 reg d g tys vs' (take (m - (c + n)) (drop (off + (c + n)) data))"
    by simp_all
  have "take (m - c) (drop (off + c) data) =
        take n (drop (off + c) data) @ take (m - (c + n)) (drop (off + (c + n)) data)"
    using m(1) take_add [of n "m - (c + n)" "drop (off + c) data"] by (simp add: ac_simps)
  then show ?case using m w ws vs by (simp add: wire_items_Cons)
qed

text \<open>The loop over named flds is the loop over their types, and then the insertions.\<close>

lemma decode_named_items:
  "decode_named f off c obj flds =
     bindR (decode_items f off c (map fld_ty flds)) (\<lambda>(vs, m).
       Inr (fold (\<lambda>(fd, v). map_insert (fld_name fd) v) (zip flds vs) obj, m))"
proof (induction flds arbitrary: c obj)
  case (Cons fd flds)
  show ?case
  proof (cases "f (off + c) (fld_ty fd)")
    case (Inr r)
    then show ?thesis
      by (cases r; cases "decode_items f off (c + snd r) (map fld_ty flds)") (auto simp: Cons.IH)
  qed simp
qed simp

lemma decode_named_sound:
  assumes "sound_at b58 data reg d"
    and "decode_named (\<lambda>off t. decode_type b58 data reg off t g d) off c [] flds = Inr (obj, m)"
    and "off + c \<le> length data"
  shows "\<exists>vs. c \<le> m \<and> off + m \<le> length data \<and>
         wire_items True b58 reg d g (map fld_ty flds) vs (take (m - c) (drop (off + c) data)) \<and>
         obj = fold (\<lambda>(f, v). map_insert (fld_name f) v) (zip flds vs) []"
proof -
  obtain vs where "decode_items (\<lambda>off t. decode_type b58 data reg off t g d) off c (map fld_ty flds) = Inr (vs, m)"
    and "obj = fold (\<lambda>(f, v). map_insert (fld_name f) v) (zip flds vs) []"
    using assms(2) by (auto simp: decode_named_items resR)
  then show ?thesis using decode_items_sound [OF assms(1) _ assms(3)] by blast
qed

lemma decode_struct_fields_sound:
  assumes "sound_at b58 data reg (Suc d)" and "off \<le> length data"
    and "decode_struct_fields b58 data reg off flds g d = Inr (v, n)"
  shows "off + n \<le> length data \<and> wire_def True b58 reg (Suc d) g (TdStruct flds) v (take n (drop off data))"
proof (cases flds)
  case None
  then show ?thesis using assms(2,3) by (auto simp: decode_struct_fields.simps intro: wire_unit)
next
  case (Some df)
  show ?thesis
  proof (cases df)
    case (Named fs)
    then show ?thesis using Some assms(2,3) decode_named_sound [OF assms(1), of g off 0 fs]
      by (fastforce simp: decode_struct_fields.simps resR intro: wire_struct)
  next
    case (Tuple tys)
    then show ?thesis using Some assms(2,3) decode_items_sound [OF assms(1), of g off 0 tys]
      by (fastforce simp: decode_struct_fields.simps resR intro: wire_tuple)
  qed
qed

lemma take_Suc_drop: "i < length xs \<Longrightarrow> take (Suc n) (drop i xs) = xs ! i # take n (drop (Suc i) xs)"
  by (simp add: Cons_nth_drop_Suc [symmetric])

lemma of_nat_unat_byte: "of_nat (unat (b :: byte)) = b"
  by simp

lemma decode_enum_sound:
  assumes snd: "sound_at b58 data reg (Suc d)" and "td_ty td = TdEnum vars"
    and dec: "decode_typedef b58 data reg off td g d = Inr (v, n)"
  shows "off + n \<le> length data \<and> wire_def True b58 reg (Suc d) g (TdEnum vars) v (take n (drop off data))"
proof -
  define k where "k = unat (data ! off)"
  have tag: "data ! off = of_nat k" and k256: "k < 256"
    by (simp_all add: k_def unat_byte_less)
  have len: "off + 1 \<le> length data" and k: "k < length vars"
    using dec assms(2) by (auto simp: decode_typedef.simps resR Let_def k_def split: if_splits)
  have tk: "take (Suc m) (drop off data) = of_nat k # take m (drop (off + 1) data)" for m
    using len tag by (simp add: take_Suc_drop)
  note dec' = dec [unfolded decode_typedef.simps assms(2)]
  show ?thesis
  proof (cases "var_fields (vars ! k)")
    case None
    then have "n = 1" "v = JObj [(var_name (vars ! k), JObj [])]"
      using dec' k by (auto simp: resR Let_def k_def)
    then show ?thesis using len tk [of 0] wire_enum_unit [OF k k256 None] by simp
  next
    case (Some df)
    show ?thesis
    proof (cases df)
      case (Named fs)
      then obtain obj where "decode_named (\<lambda>off t. decode_type b58 data reg off t g (Suc d)) off 1 [] fs = Inr (obj, n)"
        and v: "v = JObj [(var_name (vars ! k), JObj obj)]"
        using dec' k Some by (auto simp: resR Let_def k_def)
      from decode_named_sound [OF snd this(1) len] obtain vs where "1 \<le> n" "off + n \<le> length data"
        "wire_items True b58 reg (Suc d) g (map fld_ty fs) vs (take (n - 1) (drop (off + 1) data))"
        "obj = fold (\<lambda>(f, v). map_insert (fld_name f) v) (zip fs vs) []" by blast
      then show ?thesis using wire_enum_named [OF k k256, of fs] Some Named v tk [of "n - 1"] by simp
    next
      case (Tuple tys)
      show ?thesis
      proof (cases "length tys = 1")
        case True
        then obtain ty where ty: "tys = [ty]" by (auto simp: length_Suc_conv)
        then obtain w m where w: "decode_type b58 data reg (off + 1) ty g (Suc d) = Inr (w, m)"
          and nv: "n = 1 + m" "v = JObj [(var_name (vars ! k), w)]"
          using dec' k Some Tuple by (auto simp: resR Let_def k_def)
        from sound_atD [OF snd w len] show ?thesis
          using nv wire_enum_newtype [OF k k256, of ty] Some Tuple ty tk [of m] by simp
      next
        case False
        then obtain arr where "decode_items (\<lambda>off t. decode_type b58 data reg off t g (Suc d)) off 1 tys = Inr (arr, n)"
          and v: "v = JObj [(var_name (vars ! k), JArr arr)]"
          using dec' k Some Tuple by (auto simp: resR Let_def k_def split: list.splits)
        from decode_items_sound [OF snd this(1) len]
        show ?thesis using wire_enum_tuple [OF k k256, of tys] Some Tuple False v tk [of "n - 1"] by auto
      qed
    qed
  qed
qed

lemma decode_typedef_sound:
  assumes "sound_at b58 data reg (Suc d)" and "off \<le> length data"
    and "decode_typedef b58 data reg off td g d = Inr (v, n)"
  shows "off + n \<le> length data \<and> wire_def True b58 reg (Suc d) g (td_ty td) v (take n (drop off data))"
proof (cases "td_ty td")
  case (TdStruct flds)
  then show ?thesis using assms decode_struct_fields_sound [OF assms(1,2)]
    by (simp add: decode_typedef.simps)
next
  case (TdEnum vars)
  then show ?thesis using decode_enum_sound [OF assms(1) _ assms(3)] by simp
next
  case (TdType ty)
  then show ?thesis using assms sound_atD [OF assms(1) _ assms(2), of ty g v n]
    by (auto simp: decode_typedef.simps intro: wire_alias)
qed

lemma sum_sizes_bound: "sum_sizes f acc xs = Some n \<Longrightarrow> acc < usize_bound \<Longrightarrow> n < usize_bound"
  by (induction xs arbitrary: acc) (auto simp: bind_eq_Some_conv checked_add_def split: if_splits)

lemma fixed_size_bound: "fixed_size_inner ty reg k = Some n \<Longrightarrow> n < usize_bound"
proof (induction ty reg k arbitrary: n rule: fixed_size_inner.induct)
  case (1 ty reg k)
  have small: "(m :: nat) \<le> 32 \<Longrightarrow> m < usize_bound" for m by (simp add: usize_bound_def)
  have k: "\<not> MAX_DECODE_DEPTH < k" using "1.prems" by (rule fixed_size_inner_depth)
  note eqs = fixed_size_inner_eqs [OF k]
  show ?case
  proof (cases ty)
    case (TyArray t len)
    then show ?thesis using "1.prems"
      by (cases len) (auto simp: eqs bind_eq_Some_conv checked_mul_def split: if_splits)
  next
    case (TyDefined name args)
    then show ?thesis
    proof (cases "name = ''COption''")
      case True
      then show ?thesis using "1.prems" TyDefined
        by (cases args; cases "hd args")
          (auto simp: eqs bind_eq_Some_conv checked_add_def split: if_splits)
    next
      case False
      then obtain td where "reg name = Some td" "td_fixed_size (td_ty td) reg (Suc k) = Some n"
        using "1.prems" TyDefined by (auto simp: eqs split: option.splits)
      then show ?thesis using False TyDefined "1.IH" k
        by (auto simp: td_fixed_size_def small dest: sum_sizes_bound
            split: idl_typedef_ty.splits option.splits idl_defined_fields.splits)
    qed
  qed (use "1.prems" k small in \<open>subst (asm) fixed_size_inner.simps, auto\<close>)+
qed

lemma read_u32_bytes:
  assumes "read_u32 data off = Inr (t, m)"
  shows "off + 4 \<le> length data" "take 4 (drop off data) = le_bytes 4 (unat t)" "unat t < 2 ^ 32"
    "take (4 + n) (drop off data) = le_bytes 4 (unat t) @ take n (drop (off + 4) data)"
proof -
  show off: "off + 4 \<le> length data" using assms by (auto simp: readers resR)
  have t: "unat t = le_val (take 4 (drop off data))"
    using assms off by (auto simp: readers resR intro!: unat_of_le_val [where k = 4])
  then show eq: "take 4 (drop off data) = le_bytes 4 (unat t)"
    using off by (intro le_bytes_eqI [symmetric]) auto
  show "unat t < 2 ^ 32" using unsigned_less [where ?'b = 32 and ?'a = nat, of t] by simp
  show "take (4 + n) (drop off data) = le_bytes 4 (unat t) @ take n (drop (off + 4) data)"
    using take_add [of 4 n "drop off data"] eq by (simp add: add.commute)
qed

lemma decode_coption_sound:
  assumes snd: "sound_at b58 data reg (Suc d)" and "d \<le> MAX_DECODE_DEPTH"
    and data: "length data < usize_bound"
    and dec: "decode_coption b58 data reg off args g d = Inr (v, n)"
  shows "off + n \<le> length data \<and> wire True b58 reg d g (TyDefined ''COption'' args) v (take n (drop off data))"
proof -
  obtain ty rest k t m where args: "args = GenericArgType ty # rest" and k: "fixed_size ty reg = Some k"
    and t: "read_u32 data off = Inr (t, m)"
    using dec by (auto simp: decode_coption.simps resR split: list.splits idl_generic_arg.splits option.splits)
  note dec' = dec [unfolded decode_coption.simps args, simplified, unfolded k, simplified, unfolded t, simplified]
  note rd = read_u32_bytes [OF t]
  consider (none) "t = 0" "v = JNull" "n = wrapping_add 4 k" "off + n \<le> length data"
    | (some) m' where "t = 1" "decode_type b58 data reg (off + 4) ty g (Suc d) = Inr (v, m')"
      "n = wrapping_add 4 k"
    using dec' by (auto simp: Let_def resR split: if_splits)
  then show ?thesis
  proof cases
    case none
    show ?thesis
    proof (cases "4 + k < usize_bound")
      case True
      then have "n = 4 + k" using none by (simp add: wrapping_add_def)
      then show ?thesis using none rd(4) [of k] wire_cnone [OF assms(2) k True] args by simp
    next
      case False
      have kb: "k < usize_bound" using k by (auto simp: fixed_size_def dest: fixed_size_bound)
      have "n = (4 + k - usize_bound) mod usize_bound"
        unfolding none(3) wrapping_add_def by (rule le_mod_geq) (use False in simp)
      also have "\<dots> \<le> 4 + k - usize_bound" by (rule mod_less_eq_dividend)
      finally have "n \<le> 4" using kb by linarith
      then have "take n (drop off data) = take n (take 4 (drop off data))" by (simp add: min_def)
      also have "\<dots> = take n (le_bytes 4 0)" unfolding rd(2) none(1) by simp
      finally have "take n (drop off data) = take n (le_bytes 4 0)" .
      then show ?thesis
        using none False wire_cnone_wrapped [OF _ assms(2) k, of True] args by simp
    qed
  next
    case some
    from sound_atD [OF snd some(2) rd(1)]
    have m: "off + 4 + m' \<le> length data"
      and w: "wire True b58 reg (Suc d) g ty v (take m' (drop (off + 4) data))" by auto
    then have "m' = k" using wire_fixed_size(1) [OF w] k by (simp add: fixed_size_def)
    then have "n = 4 + m'" using some(3) m data by (simp add: wrapping_add_def)
    then show ?thesis using m w some rd(4) [of m'] wire_csome [OF assms(2) k] args by simp
  qed
qed

lemma decode_scalar_sound:
  assumes "decode_type b58 data reg off ty g d = Inr (v, n)" and d: "d \<le> MAX_DECODE_DEPTH"
    and "uint_width ty = Some k \<or> sint_width ty = Some k"
  shows "off + n \<le> length data \<and> wire wrap b58 reg d g ty v (take n (drop off data))"
proof -
  have len: "off + k \<le> length data \<and> n = k"
    using assms by (cases ty) (auto simp: decode_type.simps readers resR uint_width_def sint_width_def)
  then have bs: "length (take k (drop off data)) = k" by auto
  let ?x = "le_val (take k (drop off data))"
  show ?thesis
  proof (cases "uint_width ty = Some k")
    case True
    have "v = JInt (int ?x)"
      using assms(1) d True len
      by (cases ty) (auto simp: decode_type.simps readers resR uint_width_def uint_of_le_val)
    moreover have "le_bytes k ?x = take k (drop off data)" using bs by (simp add: le_bytes_eqI)
    ultimately show ?thesis using len wire_uint [OF d True, of ?x] le_val_bound [of "take k (drop off data)"] bs
      by (simp add: pow256)
  next
    case False
    then have sk: "sint_width ty = Some k" using assms(3) by blast
    obtain i where i: "v = JInt i" "fits_signed k i" "signed_bytes k i = take k (drop off data)"
      using assms(1) d sk len
      by (cases ty) (auto simp: decode_type.simps readers resR sint_width_def fits_signed_sint signed_bytes_sint)
    then show ?thesis using len wire_sint [OF d sk i(2)] by simp
  qed
qed

lemma decode_type_deep:
  "MAX_DECODE_DEPTH < d \<Longrightarrow>
   decode_type b58 data reg off ty g d = Inl (DeserializationFailed ''max decode depth exceeded'')"
  by (subst decode_type.simps) simp


lemma decode_blob_sound:
  assumes "decode_type b58 data reg off ty g d = Inr (v, n)" and d: "d \<le> MAX_DECODE_DEPTH"
    and "ty \<in> {TyBool, TyU128, TyI128, TyF32, TyF64, TyU256, TyI256, TyPubkey}"
  shows "off + n \<le> length data \<and> wire wrap b58 reg d g ty v (take n (drop off data))"
proof -
  have le: "length bs = k \<Longrightarrow> le_bytes k (le_val bs) = bs" for bs k by (simp add: le_bytes_eqI)
  have bound: "length bs = 16 \<Longrightarrow> le_val bs < 2 ^ 128" for bs
    using le_val_bound [of bs] by (simp add: pow256)
  have f32: "length bs = 4 \<Longrightarrow> le_bytes 4 (unat (of_nat (le_val bs) :: 32 word)) = bs" for bs
    by (simp add: unat_of_le_val [where k = 4] le)
  have f64: "length bs = 8 \<Longrightarrow> le_bytes 8 (unat (of_nat (le_val bs) :: 64 word)) = bs" for bs
    by (simp add: unat_of_le_val [where k = 8] le)
  let ?b = "\<lambda>k. take k (drop off data)"
  from assms(3) consider "ty = TyBool" | "ty = TyU128" | "ty = TyI128" | "ty = TyF32" | "ty = TyF64"
    | "ty = TyU256 \<or> ty = TyI256" | "ty = TyPubkey" by blast
  then show ?thesis
  proof cases
    case 1
    then have l: "off < length data" and "(n, v, data ! off) = (1, JBool False, 0) \<or> (n, v, data ! off) = (1, JBool True, 1)"
      using assms by (auto simp: decode_type.simps resR Let_def split: if_splits)
    then show ?thesis using 1 wire_bool [OF d, of wrap b58 reg g False] wire_bool [OF d, of wrap b58 reg g True]
      by (auto simp: take_Suc_drop)
  next
    case 2
    then have l: "off + 16 \<le> length data" and v: "n = 16" "v = JStr (show_int (int (le_val (?b 16))))"
      using assms by (auto simp: decode_type.simps readers resR uint_of_le_val [where k = 16])
    then show ?thesis using 2 wire_u128 [OF d bound [of "?b 16"]] le [of "?b 16" 16] by simp
  next
    case 3
    let ?i = "sint (of_nat (le_val (?b 16)) :: 128 word)"
    have l: "off + 16 \<le> length data" and v: "n = 16" "v = JStr (show_int ?i)"
      using 3 assms by (auto simp: decode_type.simps readers resR)
    then show ?thesis using 3 wire_i128 [OF d fits_signed_sint [where k = 16], of wrap b58 reg g "of_nat (le_val (?b 16)) :: 128 word"]
        signed_bytes_sint [of "?b 16" 16, where ?'a = 128] by simp
  next
    case 4
    then have l: "off + 4 \<le> length data" and v: "n = 4" "v = f32_json (of_nat (le_val (?b 4)))"
      using assms by (auto simp: decode_type.simps readers resR f32_json_def split: if_splits)
    then show ?thesis using 4 wire_f32 [OF d, of wrap b58 reg g "of_nat (le_val (?b 4))"] f32 [of "?b 4"] by simp
  next
    case 5
    then have l: "off + 8 \<le> length data" and v: "n = 8" "v = f64_json (of_nat (le_val (?b 8)))"
      using assms by (auto simp: decode_type.simps readers resR f64_json_def split: if_splits)
    then show ?thesis using 5 wire_f64 [OF d, of wrap b58 reg g "of_nat (le_val (?b 8))"] f64 [of "?b 8"] by simp
  next
    case 6
    then have l: "off + 32 \<le> length data" and v: "n = 32" "v = JStr (''0x'' @ hex_encode (?b 32))"
      using assms by (auto simp: decode_type.simps resR)
    then show ?thesis using wire_256 [OF d 6, of "?b 32"] by simp
  next
    case 7
    then have l: "off + 32 \<le> length data" and v: "n = 32" "v = JStr (b58 (?b 32))"
      using assms by (auto simp: decode_type.simps resR)
    then show ?thesis using 7 wire_pubkey [OF d, of "?b 32"] by simp
  qed
qed

lemma decode_prefixed_sound:
  assumes "decode_type b58 data reg off ty g d = Inr (v, n)" and d: "d \<le> MAX_DECODE_DEPTH"
    and "ty = TyString \<or> ty = TyBytes"
  shows "off + n \<le> length data \<and> wire wrap b58 reg d g ty v (take n (drop off data))"
proof -
  obtain len m where len: "read_u32 data off = Inr (len, m)"
    using assms by (auto simp: decode_type.simps resR)
  note rd = read_u32_bytes [OF len]
  define bs where "bs = take (unat len) (drop (off + 4) data)"
  have n: "n = 4 + unat len" and o: "off + 4 + unat len \<le> length data"
    and v: "v = JStr (of_bytes bs) \<and> utf8_error 0 bs = None \<and> ty = TyString \<or>
      v = JArr (map (\<lambda>b. JInt (uint b)) bs) \<and> ty = TyBytes"
    using assms len by (auto simp: decode_type.simps resR bs_def from_utf8_def split: option.splits)
  have lbs: "length bs = unat len" using o by (simp add: bs_def)
  have "take n (drop off data) = le_bytes 4 (length bs) @ bs"
    unfolding n rd(4) [of "unat len"] using lbs by (simp add: bs_def)
  then show ?thesis using v o n lbs rd(3) wire_string [OF d, of bs] wire_bytes [OF d, of bs] by auto
qed

lemma decode_container_sound:
  assumes snd: "sound_at b58 data reg (Suc d)" and d: "d \<le> MAX_DECODE_DEPTH" and off: "off \<le> length data"
    and dec: "decode_type b58 data reg off ty g d = Inr (v, n)"
    and "ty = TyOption t \<or> ty = TyVec t \<or> ty = TyArray t len"
  shows "off + n \<le> length data \<and> wire True b58 reg d g ty v (take n (drop off data))"
proof -
  have nd: "\<not> MAX_DECODE_DEPTH < d" using d by simp
  from assms(5) consider "ty = TyOption t" | "ty = TyVec t" | "ty = TyArray t len" by blast
  then show ?thesis
  proof cases
    case 1
    then have l: "off + 1 \<le> length data"
      and cs: "(data ! off = 0 \<and> v = JNull \<and> n = 1) \<or>
        (data ! off = 1 \<and> (\<exists>m. decode_type b58 data reg (off + 1) t g (Suc d) = Inr (v, m) \<and> n = Suc m))"
      using dec nd by (auto simp: decode_type.simps [of _ _ _ _ _ _ d] resR Let_def split: if_splits)
    then have tk: "take (Suc m) (drop off data) = data ! off # take m (drop (Suc off) data)" for m
      by (simp add: take_Suc_drop)
    from cs show ?thesis
    proof (elim disjE conjE exE)
      assume "data ! off = 0" "v = JNull" "n = 1"
      then show ?thesis using 1 l tk [of 0] wire_none [OF d] by simp
    next
      fix m assume "data ! off = 1" "decode_type b58 data reg (off + 1) t g (Suc d) = Inr (v, m)" "n = Suc m"
      then show ?thesis using 1 l tk [of m] sound_atD [OF snd, of "off + 1" t g v m] wire_some [OF d, of True b58 reg g t] by simp
    qed
  next
    case 2
    then obtain c m vs where c: "read_u32 data off = Inr (c, m)"
      and it: "decode_items (\<lambda>off t. decode_type b58 data reg off t g (Suc d)) off 4 (replicate (unat c) t) = Inr (vs, n)"
      and v: "v = JArr vs"
      using dec nd by (auto simp: decode_type.simps [of _ _ _ _ _ _ d] resR)
    note rd = read_u32_bytes [OF c]
    from decode_items_sound [OF snd it rd(1)] have n: "4 \<le> n" "off + n \<le> length data"
      and w: "wire_items True b58 reg (Suc d) g (replicate (unat c) t) vs (take (n - 4) (drop (off + 4) data))"
      by auto
    then show ?thesis using 2 v rd(4) [of "n - 4"] wire_vec [OF d rd(3)] by simp
  next
    case 3
    then obtain c vs where c: "len = LenValue c"
      and it: "decode_items (\<lambda>off t. decode_type b58 data reg off t g (Suc d)) off 0 (replicate c t) = Inr (vs, n)"
      and v: "v = JArr vs"
      using dec nd by (auto simp: decode_type.simps [of _ _ _ _ _ _ d] resR resolve_array_len_def split: idl_array_len.splits)
    from decode_items_sound [OF snd it] off show ?thesis
      using 3 v c wire_array [OF d, of True b58 reg g c t vs] by simp
  qed
qed

lemma check_serialization_Inr: "check_serialization ser = Inr u \<longleftrightarrow> ser = Borsh"
  by (cases ser) (auto simp: check_serialization_def)

lemma sound_at_step:
  assumes snd: "sound_at b58 data reg (Suc d)" "sound_at b58 data reg (Suc (Suc d))"
    and d: "d \<le> MAX_DECODE_DEPTH" and data: "length data < usize_bound"
  shows "sound_at b58 data reg d"
  unfolding sound_at_def
proof (intro allI impI)
  fix off ty g v n
  assume dec: "decode_type b58 data reg off ty g d = Inr (v, n)" and off: "off \<le> length data"
  have nd: "\<not> MAX_DECODE_DEPTH < d" using d by simp
  note scalar = decode_scalar_sound [OF dec d, unfolded uint_width_def sint_width_def]
  note blob = decode_blob_sound [OF dec d]
  note prefixed = decode_prefixed_sound [OF dec d]
  note container = decode_container_sound [OF snd(1) d off dec]
  show "off + n \<le> length data \<and> wire True b58 reg d g ty v (take n (drop off data))"
  proof (cases ty)
    case (TyDefined name args)
    show ?thesis
    proof (cases "name = ''COption''")
      case True
      then have "decode_coption b58 data reg off args g d = Inr (v, n)"
        using TyDefined dec nd by (simp add: decode_type.simps [of _ _ _ _ _ _ d])
      then show ?thesis using decode_coption_sound [OF snd(1) d data] True TyDefined by simp
    next
      case False
      then obtain td where td: "reg name = Some td" "td_serialization td = Borsh"
        and "decode_typedef b58 data reg off td (bind_generics g (zip (td_generics td) args)) (Suc d) = Inr (v, n)"
        using TyDefined dec nd
        by (auto simp: decode_type.simps [of _ _ _ _ _ _ d] resR registry_resolve_def check_serialization_Inr)
      from decode_typedef_sound [OF snd(2) off this(3)] show ?thesis
        using TyDefined wire_defined [where reg = reg and name = name, OF d False td] by simp
    qed
  next
    case (TyGeneric name)
    then obtain t where t: "g name = Some t" "decode_type b58 data reg off t g (Suc d) = Inr (v, n)"
      using dec nd by (auto simp: decode_type.simps [of _ _ _ _ _ _ d] split: option.splits)
    then show ?thesis using TyGeneric sound_atD [OF snd(1) t(2) off] wire_generic [where g = g and name = name, OF d t(1)] by simp
  qed (use scalar blob prefixed container in auto)
qed

lemma sound_at_all: "length data < usize_bound \<Longrightarrow> sound_at b58 data reg d"
proof (induction "Suc MAX_DECODE_DEPTH - d" arbitrary: d rule: less_induct)
  case less
  show ?case
  proof (cases "d \<le> MAX_DECODE_DEPTH")
    case True
    have "sound_at b58 data reg (Suc d)" "sound_at b58 data reg (Suc (Suc d))"
      by (rule less.hyps; use True less.prems in simp)+
    then show ?thesis using True less.prems by (rule sound_at_step)
  next
    case False
    then show ?thesis by (simp add: sound_at_def decode_type_deep)
  qed
qed

section \<open>Completeness\<close>

text \<open>\<open>bs\<close> stands in the input at \<open>off\<close>.\<close>

definition stands_at :: "bytes \<Rightarrow> nat \<Rightarrow> bytes \<Rightarrow> bool" where
  "stands_at data off bs \<longleftrightarrow> length data < usize_bound \<and> off + length bs \<le> length data \<and>
     take (length bs) (drop off data) = bs"

lemma stands_at_append:
  "stands_at data off (bs @ cs) \<longleftrightarrow> stands_at data off bs \<and> stands_at data (off + length bs) cs"
  by (auto simp: stands_at_def take_add append_eq_append_conv add.commute add.left_commute)

lemma stands_at_Cons:
  "stands_at data off (b # bs) \<longleftrightarrow> off < length data \<and> data ! off = b \<and> stands_at data (Suc off) bs"
  by (auto simp: stands_at_def take_Suc_drop)

lemma stands_at_first: "stands_at data off (b # bs) \<Longrightarrow> ensure_bytes data off 1 = Inr ()"
  by (auto simp: stands_at_def resR)

lemma stands_at_ensure: "stands_at data off bs \<Longrightarrow> length bs = n \<Longrightarrow> ensure_bytes data off n = Inr ()"
  by (auto simp: stands_at_def resR)

lemma stands_at_read_le:
  "stands_at data off bs \<Longrightarrow> length bs = n \<Longrightarrow> read_le n data off = Inr (of_nat (le_val bs), n)"
  by (auto simp: stands_at_def resR)

lemma stands_at_take: "stands_at data off bs \<Longrightarrow> length bs = n \<Longrightarrow> take n (drop off data) = bs"
  by (auto simp: stands_at_def)

lemma stands_at_read_u32:
  "stands_at data off (le_bytes 4 n) \<Longrightarrow> n < 2 ^ 32 \<Longrightarrow> read_u32 data off = Inr (of_nat n, 4)"
  using stands_at_read_le [of data off "le_bytes 4 n" 4] by (simp add: readers le_bytesR)

lemma read_le_uint:
  "stands_at data off (le_bytes k n) \<Longrightarrow> LENGTH('a) = 8 * k \<Longrightarrow> n < 2 ^ (8 * k) \<Longrightarrow>
   \<exists>w :: 'a::len word. read_le k data off = Inr (w, k) \<and> uint w = int n"
  using stands_at_read_le [of data off "le_bytes k n" k, where ?'a = 'a]
    of_nat_le_val_le_bytes [of k n, where ?'a = 'a] uint_nat [of "of_nat (le_val (le_bytes k n)) :: 'a word"]
  by (intro exI [of _ "of_nat (le_val (le_bytes k n))"]) simp

lemma read_le_sint:
  "stands_at data off (signed_bytes k i) \<Longrightarrow> LENGTH('a) = 8 * k \<Longrightarrow> fits_signed k i \<Longrightarrow>
   \<exists>w :: 'a::len word. read_le k data off = Inr (w, k) \<and> sint w = i"
  using stands_at_read_le [of data off "signed_bytes k i" k, where ?'a = 'a]
  by (auto simp: sint_signed_bytes)

lemma decode_uint_complete:
  assumes "uint_width ty = Some k" "n < 2 ^ (8 * k)" "d \<le> MAX_DECODE_DEPTH" "stands_at data off (le_bytes k n)"
  shows "decode_type b58 data reg off ty g d = Inr (JInt (int n), k)"
  using assms(1,3) read_le_uint [OF assms(4), where ?'a = 8] read_le_uint [OF assms(4), where ?'a = 16]
    read_le_uint [OF assms(4), where ?'a = 32] read_le_uint [OF assms(4), where ?'a = 64] assms(2)
  by (cases ty) (auto simp: decode_type.simps readers uint_width_def)

lemma decode_sint_complete:
  assumes "sint_width ty = Some k" "fits_signed k i" "d \<le> MAX_DECODE_DEPTH" "stands_at data off (signed_bytes k i)"
  shows "decode_type b58 data reg off ty g d = Inr (JInt i, k)"
  using assms(1,3) read_le_sint [OF assms(4), where ?'a = 8] read_le_sint [OF assms(4), where ?'a = 16]
    read_le_sint [OF assms(4), where ?'a = 32] read_le_sint [OF assms(4), where ?'a = 64] assms(2)
  by (cases ty) (auto simp: decode_type.simps readers sint_width_def)

lemma decode_blob_complete:
  assumes "d \<le> MAX_DECODE_DEPTH"
  shows "stands_at data off [if b then 1 else 0] \<Longrightarrow> decode_type b58 data reg off TyBool g d = Inr (JBool b, 1)"
    and "stands_at data off (le_bytes 16 n) \<Longrightarrow> n < 2 ^ 128 \<Longrightarrow>
      decode_type b58 data reg off TyU128 g d = Inr (JStr (show_int (int n)), 16)"
    and "stands_at data off (signed_bytes 16 i) \<Longrightarrow> fits_signed 16 i \<Longrightarrow>
      decode_type b58 data reg off TyI128 g d = Inr (JStr (show_int i), 16)"
    and "stands_at data off (le_bytes 4 (unat w)) \<Longrightarrow>
      decode_type b58 data reg off TyF32 g d = Inr (f32_json w, 4)"
    and "stands_at data off (le_bytes 8 (unat x)) \<Longrightarrow>
      decode_type b58 data reg off TyF64 g d = Inr (f64_json x, 8)"
    and "stands_at data off bs \<Longrightarrow> length bs = 32 \<Longrightarrow> ty = TyU256 \<or> ty = TyI256 \<Longrightarrow>
      decode_type b58 data reg off ty g d = Inr (JStr (''0x'' @ hex_encode bs), 32)"
    and "stands_at data off bs \<Longrightarrow> length bs = 32 \<Longrightarrow>
      decode_type b58 data reg off TyPubkey g d = Inr (JStr (b58 bs), 32)"
proof -
  have w: "(of_nat (le_val (le_bytes 4 (unat w))) :: 32 word) = w"
    using unsigned_less [where ?'b = 32 and ?'a = nat, of w] by (simp add: le_bytesR)
  have x: "(of_nat (le_val (le_bytes 8 (unat x))) :: 64 word) = x"
    using unsigned_less [where ?'b = 64 and ?'a = nat, of x] by (simp add: le_bytesR)
  show "stands_at data off [if b then 1 else 0] \<Longrightarrow> decode_type b58 data reg off TyBool g d = Inr (JBool b, 1)"
    using assms stands_at_ensure [of data off "[if b then 1 else 0]" 1]
    by (auto simp: decode_type.simps Let_def stands_at_Cons split: if_splits)
  show "stands_at data off (le_bytes 16 n) \<Longrightarrow> n < 2 ^ 128 \<Longrightarrow>
      decode_type b58 data reg off TyU128 g d = Inr (JStr (show_int (int n)), 16)"
    using assms read_le_uint [of data off 16 n, where ?'a = 128] by (auto simp: decode_type.simps readers)
  show "stands_at data off (signed_bytes 16 i) \<Longrightarrow> fits_signed 16 i \<Longrightarrow>
      decode_type b58 data reg off TyI128 g d = Inr (JStr (show_int i), 16)"
    using assms read_le_sint [of data off 16 i, where ?'a = 128] by (auto simp: decode_type.simps readers)
  show "stands_at data off (le_bytes 4 (unat w)) \<Longrightarrow> decode_type b58 data reg off TyF32 g d = Inr (f32_json w, 4)"
    using assms stands_at_read_le [of data off "le_bytes 4 (unat w)" 4, where ?'a = 32] w by (simp add: decode_type.simps readers f32_json_def)
  show "stands_at data off (le_bytes 8 (unat x)) \<Longrightarrow> decode_type b58 data reg off TyF64 g d = Inr (f64_json x, 8)"
    using assms stands_at_read_le [of data off "le_bytes 8 (unat x)" 8, where ?'a = 64] x by (simp add: decode_type.simps readers f64_json_def)
  show "stands_at data off bs \<Longrightarrow> length bs = 32 \<Longrightarrow> ty = TyU256 \<or> ty = TyI256 \<Longrightarrow>
      decode_type b58 data reg off ty g d = Inr (JStr (''0x'' @ hex_encode bs), 32)"
    using assms stands_at_ensure [of data off bs 32] stands_at_take [of data off bs 32]
    by (auto simp: decode_type.simps)
  show "stands_at data off bs \<Longrightarrow> length bs = 32 \<Longrightarrow>
      decode_type b58 data reg off TyPubkey g d = Inr (JStr (b58 bs), 32)"
    using assms stands_at_ensure [of data off bs 32] stands_at_take [of data off bs 32]
    by (simp add: decode_type.simps)
qed

lemma decode_prefixed_complete:
  assumes "d \<le> MAX_DECODE_DEPTH" "length bs < 2 ^ 32" "stands_at data off (le_bytes 4 (length bs) @ bs)"
  shows "utf8_error 0 bs = None \<Longrightarrow>
      decode_type b58 data reg off TyString g d = Inr (JStr (of_bytes bs), 4 + length bs)"
    and "decode_type b58 data reg off TyBytes g d = Inr (JArr (map (\<lambda>b. JInt (uint b)) bs), 4 + length bs)"
proof -
  have rd: "read_u32 data off = Inr (of_nat (length bs), 4)"
    and bs: "stands_at data (off + 4) bs"
    using assms(2,3) by (auto simp: stands_at_append stands_at_read_u32)
  have len: "unat (of_nat (length bs) :: 32 word) = length bs" using assms(2) by (simp add: unat_of_nat)
  note facts = rd len stands_at_ensure [OF bs] stands_at_take [OF bs]
  show "utf8_error 0 bs = None \<Longrightarrow>
      decode_type b58 data reg off TyString g d = Inr (JStr (of_bytes bs), 4 + length bs)"
    using assms(1) by (simp add: decode_type.simps facts from_utf8_def)
  show "decode_type b58 data reg off TyBytes g d = Inr (JArr (map (\<lambda>b. JInt (uint b)) bs), 4 + length bs)"
    using assms(1) by (simp add: decode_type.simps facts)
qed

lemma decode_enum_complete:
  assumes "td_ty td = TdEnum vars" "k < length vars" "k < 256" "stands_at data off (of_nat k # bs)"
  shows "decode_typedef b58 data reg off td g d =
     bindR (case var_fields (vars ! k) of
              None \<Rightarrow> Inr (JObj [], 1)
            | Some (Named flds) \<Rightarrow>
                bindR (decode_named (\<lambda>off t. decode_type b58 data reg off t g (d + 1)) off 1 [] flds)
                  (\<lambda>(obj, consumed). Inr (JObj obj, consumed))
            | Some (Tuple types) \<Rightarrow>
                (case types of
                   [ty] \<Rightarrow> bindR (decode_type b58 data reg (off + 1) ty g (d + 1)) (\<lambda>(val, n). Inr (val, 1 + n))
                 | _ \<Rightarrow> bindR (decode_items (\<lambda>off t. decode_type b58 data reg off t g (d + 1)) off 1 types)
                          (\<lambda>(arr, consumed). Inr (JArr arr, consumed))))
       (\<lambda>(payload, consumed). Inr (JObj [(var_name (vars ! k), payload)], consumed))"
proof -
  have "ensure_bytes data off 1 = Inr ()" "data ! off = of_nat k"
    using assms(4) by (auto simp: stands_at_Cons stands_at_first [OF assms(4), simplified])
  moreover have "unat (of_nat k :: byte) = k" using assms(3) by (simp add: unat_of_nat)
  ultimately show ?thesis using assms(1,2) by (simp add: decode_typedef.simps Let_def)
qed

theorem decode_complete_mutual:
  "wire wrap b58 reg d g ty v bs \<Longrightarrow> \<not> wrap \<Longrightarrow> stands_at data off bs \<Longrightarrow>
     decode_type b58 data reg off ty g d = Inr (v, length bs)"
  "wire_items wrap b58 reg d g tys vs bs \<Longrightarrow> \<not> wrap \<Longrightarrow> stands_at data (off + c) bs \<Longrightarrow>
     decode_items (\<lambda>off t. decode_type b58 data reg off t g d) off c tys = Inr (vs, c + length bs)"
  "wire_def wrap b58 reg d g body v bs \<Longrightarrow> \<not> wrap \<Longrightarrow> stands_at data off bs \<Longrightarrow> d = Suc e \<Longrightarrow> td_ty td = body \<Longrightarrow>
     decode_typedef b58 data reg off td g e = Inr (v, length bs)"
proof (induction arbitrary: off and off c and off e td rule: wire_wire_items_wire_def.inducts)
  case (wire_some d g ty v bs)
  then have "ensure_bytes data off 1 = Inr ()" by (auto simp: stands_at_Cons stands_at_def resR)
  then show ?case using wire_some
    by (simp add: decode_type.simps [of _ _ _ _ _ _ d] stands_at_Cons)
next
  case (wire_none d g ty)
  then have "ensure_bytes data off 1 = Inr ()" by (auto simp: stands_at_Cons stands_at_def resR)
  then show ?case using wire_none by (simp add: decode_type.simps [of _ _ _ _ _ _ d] stands_at_Cons)
next
  case (wire_vec d n g ty vs bs)
  then have "read_u32 data off = Inr (of_nat n, 4)" "stands_at data (off + 4) bs"
    by (simp_all add: stands_at_append stands_at_read_u32)
  moreover have "unat (of_nat n :: 32 word) = n" using wire_vec.hyps by (simp add: unat_of_nat)
  ultimately show ?case using wire_vec by (simp add: decode_type.simps [of _ _ _ _ _ _ d])
next
  case (wire_array d g n ty vs bs)
  then show ?case using wire_array.IH(2) [of off 0]
    by (simp add: decode_type.simps [of _ _ _ _ _ _ d] resolve_array_len_def)
next
  case (wire_cnone d ty k pad g args)
  then have "read_u32 data off = Inr (of_nat 0, 4)" "ensure_bytes data off (4 + k) = Inr ()"
    using stands_at_read_u32 [of data off 0] stands_at_ensure [OF wire_cnone.prems(2)]
    by (simp_all add: stands_at_append)
  then show ?case using wire_cnone
    by (simp add: decode_type.simps [of _ _ _ _ _ _ d] decode_coption.simps wrapping_add_def Let_def)
next
  case (wire_csome d ty k g v bs args)
  then have rd: "read_u32 data off = Inr (of_nat 1, 4)" and bs: "stands_at data (off + 4) bs"
    using stands_at_read_u32 [of data off 1] by (simp_all add: stands_at_append)
  have k: "length bs = k"
    using wire_fixed_size(1) [OF wire_csome(3)] wire_csome(2) by (simp add: fixed_size_def)
  moreover have "4 + k < usize_bound" using bs k by (simp add: stands_at_def)
  ultimately show ?case using wire_csome rd bs
    by (simp add: decode_type.simps [of _ _ _ _ _ _ d] decode_coption.simps wrapping_add_def Let_def)
next
  case (wire_defined d name td' g args v bs)
  then show ?case
    by (simp add: decode_type.simps [of _ _ _ _ _ _ d] registry_resolve_def check_serialization_def)
next
  case (wire_generic d g name ty v bs)
  then show ?case by (simp add: decode_type.simps [of _ _ _ _ _ _ d])
next
  case (wire_items_Cons d g ty v bs tys vs cs)
  then show ?case using wire_items_Cons.IH(4) [of off "c + length bs"]
    by (simp add: stands_at_append add.assoc)
next
  case (wire_enum_named k vars flds d g vs bs)
  note enum = decode_enum_complete [OF wire_enum_named.prems(4) wire_enum_named(1,2) wire_enum_named.prems(2)]
  from wire_enum_named show ?case using wire_enum_named.IH(2) [of off 1]
    by (simp add: enum decode_named_items stands_at_Cons)
next
  case (wire_enum_newtype k vars ty d g v bs)
  note enum = decode_enum_complete [OF wire_enum_newtype.prems(4) wire_enum_newtype(1,2) wire_enum_newtype.prems(2)]
  from wire_enum_newtype show ?case by (simp add: enum stands_at_Cons)
next
  case (wire_enum_tuple k vars tys d g vs bs)
  note enum = decode_enum_complete [OF wire_enum_tuple.prems(4) wire_enum_tuple(1,2) wire_enum_tuple.prems(2)]
  from wire_enum_tuple have "decode_items (\<lambda>off t. decode_type b58 data reg off t g (Suc e)) off 1 tys = Inr (vs, Suc (length bs))"
    using wire_enum_tuple.IH(2) [of off 1] by (simp add: stands_at_Cons)
  then show ?case using wire_enum_tuple
    by (cases tys; cases "tl tys") (simp_all add: enum)
next
  case (wire_struct d g flds vs bs)
  then show ?case using wire_struct.IH(2) [of off 0]
    by (simp add: decode_typedef.simps decode_struct_fields.simps decode_named_items)
next
  case (wire_tuple d g tys vs bs)
  then show ?case using wire_tuple.IH(2) [of off 0]
    by (simp add: decode_typedef.simps decode_struct_fields.simps)
next
  case (wire_unit d g)
  then show ?case by (simp add: decode_typedef.simps decode_struct_fields.simps)
next
  case (wire_alias d g ty v bs)
  then show ?case by (simp add: decode_typedef.simps)
qed (simp_all add: decode_uint_complete decode_sint_complete decode_blob_complete decode_prefixed_complete
      decode_enum_complete)

section \<open>Objects and discriminators\<close>

abbreviation args_object :: "idl_field list \<Rightarrow> json list \<Rightarrow> (string \<times> json) list" where
  "args_object flds vs \<equiv> fold (\<lambda>(f, v). map_insert (fld_name f) v) (zip flds vs) []"

lemma fold_map_insert_sorted:
  "keys_sorted obj \<Longrightarrow> keys_sorted (fold (\<lambda>(f, v). map_insert (fld_name f) v) fvs obj)"
  by (induction fvs arbitrary: obj) (auto simp: keys_sorted_map_insert)

lemma fold_map_insert_map_of:
  "map_of (fold (\<lambda>(f, v). map_insert (fld_name f) v) fvs obj) =
   map_of obj ++ map_of (rev (map (\<lambda>(f, v). (fld_name f, v)) fvs))"
  by (induction fvs arbitrary: obj) (auto simp: map_of_map_insert map_add_upd_left split: prod.splits)

lemma args_object_get:
  assumes "distinct (map fld_name flds)" and "length vs = length flds" and "i < length flds"
  shows "map_of (args_object flds vs) (fld_name (flds ! i)) = Some (vs ! i)"
proof -
  let ?kvs = "map (\<lambda>(f, v). (fld_name f, v)) (zip flds vs)"
  have keys: "map fst ?kvs = map fld_name flds" using assms(2) by (auto intro: nth_equalityI)
  have "(fld_name (flds ! i), vs ! i) \<in> set ?kvs"
    using assms(2,3) by (force simp: in_set_conv_nth)
  moreover have "distinct (map fst (rev ?kvs))" using assms(1) keys by (simp flip: rev_map)
  ultimately have "map_of (rev ?kvs) (fld_name (flds ! i)) = Some (vs ! i)"
    by (intro map_of_is_SomeI) simp_all
  then show ?thesis by (simp add: fold_map_insert_map_of)
qed

inductive_cases wire_items_NilE: "wire_items wrap b58 reg d g [] vs bs"
inductive_cases wire_items_ConsE: "wire_items wrap b58 reg d g (ty # tys) vs bs"

lemma wire_items_length: "wire_items wrap b58 reg d g tys vs bs \<Longrightarrow> length vs = length tys"
  by (induction tys arbitrary: vs bs) (auto elim!: wire_items_NilE wire_items_ConsE)

lemma find_unique:
  assumes "x \<in> set xs" and "P x" and uniq: "\<And>y. y \<in> set xs \<Longrightarrow> P y \<Longrightarrow> y = x"
  shows "find P xs = Some x"
proof (cases "find P xs")
  case None
  then have "\<not> P x" using assms(1) unfolding find_None_iff by blast
  then show ?thesis using assms(2) by blast
next
  case (Some y)
  then have "y \<in> set xs" "P y" unfolding find_Some_iff by auto
  then show ?thesis using uniq [of y] Some by blast
qed

lemma find_instruction_with_fallback_sound:
  assumes "find_instruction_with_fallback sha256 data i = Inr ix"
  shows "ix \<in> set (idl_instructions i)" "disc_len (ix_discriminator ix) \<le> length data"
    "take (disc_len (ix_discriminator ix)) data =
       (if ix_discriminator ix = [] then compute_instruction_discriminator sha256 (ix_name ix)
        else ix_discriminator ix)"
  using assms
  by (auto simp: find_instruction_with_fallback_def find_instruction_def find_Some_iff disc_matches_def
      disc_len_def split: option.splits)

section \<open>Properties\<close>

lemmas decode_eval = decode_type.simps decode_coption.simps decode_typedef.simps decode_struct_fields.simps
  MAX_DECODE_DEPTH_def readers read_le_def ensure_bytes_def checked_add_def usize_bound_def

text \<open>C4. Soundness of the type decoder: whenever \<open>decode_type\<close> succeeds at an offset inside the
  data, the bytes it consumed lie inside the data and are a wire encoding of the value it
  returns, for every type, registry, generic binding and depth.\<close>

theorem decode_type_sound:
  assumes "length data < usize_bound" and "off \<le> length data"
    and "decode_type b58 data reg off ty g d = Inr (v, n)"
  shows "off + n \<le> length data \<and> wire True b58 reg d g ty v (take n (drop off data))"
  using sound_atD [OF sound_at_all [OF assms(1)] assms(3,2)] .

theorem decode_type_sound_witness:
  "wire True (\<lambda>_. []) Map.empty 0 Map.empty (TyOption TyU8) (JInt 7) [1, 7]"
proof -
  have "decode_type (\<lambda>_. []) [1, 7, 9] Map.empty 0 (TyOption TyU8) Map.empty 0 = Inr (JInt 7, 2)"
    by (simp add: decode_eval cong: bindR_weak_cong)
  from decode_type_sound [OF _ _ this] show ?thesis by (simp add: usize_bound_def)
qed

text \<open>C5. Completeness of the type decoder: every wire encoding of a value, wherever it stands in
  the data and whatever follows it, is decoded to exactly that value, and exactly its bytes are
  consumed.\<close>

theorem decode_type_complete:
  assumes "wire False b58 reg d g ty v bs" and "length (pre @ bs @ post) < usize_bound"
  shows "decode_type b58 (pre @ bs @ post) reg (length pre) ty g d = Inr (v, length bs)"
  using decode_complete_mutual(1) [OF assms(1)] assms(2) by (simp add: stands_at_def)

theorem decode_type_complete_witness:
  "decode_type (\<lambda>_. []) ([9] @ [1, 1] @ [5]) Map.empty (length [9 :: byte]) (TyOption TyBool) Map.empty 3 =
     Inr (JBool True, length [1, 1 :: byte])"
proof -
  have "wire False (\<lambda>_. []) Map.empty 3 Map.empty (TyOption TyBool) (JBool True) (1 # [if True then 1 else 0])"
    by (rule wire_some, simp add: MAX_DECODE_DEPTH_def, rule wire_bool) (simp add: MAX_DECODE_DEPTH_def)
  then have "wire False (\<lambda>_. []) Map.empty 3 Map.empty (TyOption TyBool) (JBool True) [1, 1]" by simp
  from decode_type_complete [OF this, of "[9]" "[5]"] show ?thesis by (simp add: usize_bound_def)
qed

text \<open>C15. End to end for instructions: data that starts with the discriminator of exactly one
  instruction of the IDL, followed by an encoding of its arguments, is decoded to that
  instruction, with every argument under its own name, whatever bytes follow. The registry comes
  from the cache or is built, so the claim holds at a cold and at a warm decoder.\<close>

theorem decode_instruction_complete:
  assumes "ix \<in> set (idl_instructions i)" and "ix_discriminator ix \<noteq> []"
    and "\<And>ix'. ix' \<in> set (idl_instructions i) \<Longrightarrow>
           disc_matches (ix_discriminator ix @ bs @ post) (ix_discriminator ix') \<Longrightarrow> ix' = ix"
    and "registry_cache dec (idl_address i) \<in> {None, Some (registry_from_idl i)}"
    and "wire_items False b58 (registry_from_idl i) 0 Map.empty (map fld_ty (ix_args ix)) vs bs"
    and "distinct (map fld_name (ix_args ix))"
    and "length (ix_discriminator ix @ bs @ post) < usize_bound"
  shows "\<exists>obj. fst (decode_instruction b58 sha256 dec pid (ix_discriminator ix @ bs @ post) i) =
           Inr (instruction_from_decoded pid (ix_name ix) (JObj obj)) \<and>
         keys_sorted obj \<and> length vs = length (ix_args ix) \<and>
         (\<forall>k < length (ix_args ix). map_of obj (fld_name (ix_args ix ! k)) = Some (vs ! k))"
proof -
  let ?data = "ix_discriminator ix @ bs @ post"
  have "find_instruction ?data i = Some ix"
    unfolding find_instruction_def
    by (rule find_unique [OF assms(1) _ assms(3)]) (simp_all add: disc_matches_def assms(2))
  then have find: "find_instruction_with_fallback sha256 ?data i = Inr ix"
    by (simp add: find_instruction_with_fallback_def)
  have reg: "fst (get_or_build_registry dec i) = registry_from_idl i"
    using assms(4) by (auto simp: get_or_build_registry_def Let_def)
  have "stands_at ?data (length (ix_discriminator ix) + 0) bs"
    using assms(7) by (simp add: stands_at_def)
  from decode_complete_mutual(2) [OF assms(5) _ this]
  have "decode_named (\<lambda>off t. decode_type b58 ?data (registry_from_idl i) off t Map.empty 0)
          (length (ix_discriminator ix)) 0 [] (ix_args ix) = Inr (args_object (ix_args ix) vs, length bs)"
    by (simp add: decode_named_items)
  then have "fst (decode_instruction b58 sha256 dec pid ?data i) =
      Inr (instruction_from_decoded pid (ix_name ix) (JObj (args_object (ix_args ix) vs)))"
    using find assms(2)
    by (simp add: decode_instruction_def disc_len_def case_prod_beta Let_def reg)
  moreover have "length vs = length (ix_args ix)" using wire_items_length [OF assms(5)] by simp
  ultimately show ?thesis
    using args_object_get [OF assms(6)] fold_map_insert_sorted [of "[]"] by auto
qed

definition demo_ix :: idl_instruction where
  "demo_ix = \<lparr> ix_name = ''set'', ix_discriminator = [4, 2],
     ix_args = [\<lparr> fld_name = ''on'', fld_ty = TyBool \<rparr>, \<lparr> fld_name = ''amount'', fld_ty = TyU16 \<rparr>] \<rparr>"

definition demo_idl :: idl where
  "demo_idl = \<lparr> idl_address = ''Prog'', idl_metadata_name = ''demo'', idl_metadata_version = ''0.1.0'',
     idl_instructions = [demo_ix], idl_accounts = [], idl_types = [] \<rparr>"

lemma demo_wire:
  "wire_items False b58 reg 0 g (map fld_ty (ix_args demo_ix)) [JBool True, JInt 258] [1, 2, 1]"
proof -
  have "wire False b58 reg 0 g TyBool (JBool True) [if True then 1 else 0]" by (rule wire_bool) simp
  moreover have "wire False b58 reg 0 g TyU16 (JInt (int 258)) (le_bytes 2 258)"
    by (rule wire_uint) (simp_all add: uint_width_def)
  moreover have "le_bytes 2 258 = [2, 1]" by (simp add: numeral_2_eq_2)
  ultimately have "wire_items False b58 reg 0 g [TyBool, TyU16] [JBool True, JInt 258] ([1] @ [2, 1] @ [])"
    by (intro wire_items_Cons wire_items_Nil) simp_all
  then show ?thesis by (simp add: demo_ix_def)
qed

theorem decode_instruction_complete_witness:
  "\<exists>obj. fst (decode_instruction (\<lambda>_. []) id chainparser_new ''Prog'' ([4, 2] @ [1, 2, 1] @ [0, 0]) demo_idl) =
      Inr (instruction_from_decoded ''Prog'' ''set'' (JObj obj)) \<and>
    map_of obj ''on'' = Some (JBool True) \<and> map_of obj ''amount'' = Some (JInt 258)"
  using decode_instruction_complete [of demo_ix demo_idl "[1, 2, 1]" "[0, 0]" chainparser_new "\<lambda>_. []"
      "[JBool True, JInt 258]" id "''Prog''"]
    demo_wire [of "\<lambda>_. []" "registry_from_idl demo_idl" Map.empty]
  by (auto simp: demo_idl_def demo_ix_def chainparser_new_def usize_bound_def All_less_Suc)

text \<open>C16. Soundness for instructions: whenever \<open>decode_instruction\<close> succeeds on a decoder whose cached
  registry is that of the IDL, the data starts with the discriminator of an instruction of the
  IDL (its own, or the Anchor one computed from its name when it has none), and the bytes after
  it begin with an encoding of the argument values that the result lists under the field names.\<close>

theorem decode_instruction_sound:
  assumes "length data < usize_bound"
    and "registry_cache dec (idl_address i) \<in> {None, Some (registry_from_idl i)}"
    and "fst (decode_instruction b58 sha256 dec pid data i) = Inr r"
  shows "\<exists>ix vs bs post. ix \<in> set (idl_instructions i) \<and>
    data = (if ix_discriminator ix = [] then compute_instruction_discriminator sha256 (ix_name ix)
            else ix_discriminator ix) @ bs @ post \<and>
    wire_items True b58 (registry_from_idl i) 0 Map.empty (map fld_ty (ix_args ix)) vs bs \<and>
    r = instruction_from_decoded pid (ix_name ix) (JObj (args_object (ix_args ix) vs))"
proof -
  have reg: "fst (get_or_build_registry dec i) = registry_from_idl i"
    using assms(2) by (auto simp: get_or_build_registry_def Let_def)
  from assms(3) reg obtain ix obj m where find: "find_instruction_with_fallback sha256 data i = Inr ix"
    and dec: "decode_named (\<lambda>off t. decode_type b58 data (registry_from_idl i) off t Map.empty 0)
        (disc_len (ix_discriminator ix)) 0 [] (ix_args ix) = Inr (obj, m)"
    and r: "r = instruction_from_decoded pid (ix_name ix) (JObj obj)"
    by (auto simp: decode_instruction_def case_prod_beta Let_def resR split: sum.splits)
  note fnd = find_instruction_with_fallback_sound [OF find]
  let ?k = "disc_len (ix_discriminator ix)"
  from decode_named_sound [OF sound_at_all [OF assms(1)] dec] fnd(2) obtain vs where
    "wire_items True b58 (registry_from_idl i) 0 Map.empty (map fld_ty (ix_args ix)) vs (take m (drop ?k data))"
    "obj = args_object (ix_args ix) vs" by auto
  moreover have "data = take ?k data @ take m (drop ?k data) @ drop m (drop ?k data)"
    by (simp only: append_take_drop_id)
  ultimately show ?thesis using fnd(1,3) r
    by (intro exI [of _ ix] exI [of _ vs] exI [of _ "take m (drop ?k data)"] exI [of _ "drop m (drop ?k data)"])
      (simp only: HOL.simp_thms)
qed

theorem decode_instruction_sound_witness:
  "\<exists>ix vs bs post. ix \<in> set (idl_instructions demo_idl) \<and>
    [4, 2, 1, 2, 1, 0] = (if ix_discriminator ix = [] then compute_instruction_discriminator id (ix_name ix)
            else ix_discriminator ix) @ bs @ post \<and>
    wire_items True (\<lambda>_. []) (registry_from_idl demo_idl) 0 Map.empty (map fld_ty (ix_args ix)) vs bs"
proof -
  have "fst (decode_instruction (\<lambda>_. []) id chainparser_new ''Prog'' [4, 2, 1, 2, 1, 0] demo_idl) =
      Inr (instruction_from_decoded ''Prog'' ''set'' (JObj [(''amount'', JInt 258), (''on'', JBool True)]))"
    by (simp add: decode_instruction_def find_instruction_with_fallback_def find_instruction_def disc_matches_def
        demo_idl_def demo_ix_def chainparser_new_def get_or_build_registry_def disc_len_def decode_eval Let_def
        cong: bindR_weak_cong)
  from decode_instruction_sound [OF _ _ this] have "\<exists>ix vs bs post. ix \<in> set (idl_instructions demo_idl) \<and>
    [4, 2, 1, 2, 1, 0] = (if ix_discriminator ix = [] then compute_instruction_discriminator id (ix_name ix)
            else ix_discriminator ix) @ bs @ post \<and>
    wire_items True (\<lambda>_. []) (registry_from_idl demo_idl) 0 Map.empty (map fld_ty (ix_args ix)) vs bs \<and>
    instruction_from_decoded ''Prog'' ''set'' (JObj [(''amount'', JInt 258), (''on'', JBool True)]) =
      instruction_from_decoded ''Prog'' (ix_name ix) (JObj (args_object (ix_args ix) vs))"
    by (simp add: usize_bound_def chainparser_new_def)
  then show ?thesis by blast
qed

text \<open>The cache of registries agrees with the IDL each address has.\<close>

definition cache_coherent :: "(string \<Rightarrow> idl) \<Rightarrow> chainparser_decoder \<Rightarrow> bool" where
  "cache_coherent idl_of dec \<longleftrightarrow>
     (\<forall>a reg. registry_cache dec a = Some reg \<longrightarrow> reg = registry_from_idl (idl_of a))"

lemma cache_coherent_new: "cache_coherent idl_of chainparser_new"
  by (simp add: cache_coherent_def chainparser_new_def)

lemma get_or_build_registry_coherent:
  assumes "cache_coherent idl_of dec" and "idl_of (idl_address i) = i"
  shows "fst (get_or_build_registry dec i) = registry_from_idl i"
    and "cache_coherent idl_of (snd (get_or_build_registry dec i))"
proof -
  have "registry_cache dec (idl_address i) = Some reg \<Longrightarrow> reg = registry_from_idl i" for reg
    using assms by (metis cache_coherent_def)
  then show "fst (get_or_build_registry dec i) = registry_from_idl i"
    by (simp add: get_or_build_registry_def Let_def split: option.splits)
  show "cache_coherent idl_of (snd (get_or_build_registry dec i))"
    using assms by (auto simp: get_or_build_registry_def cache_coherent_def Let_def split: option.splits)
qed

datatype decode_call = IxCall string bytes idl | AcctCall string string bytes idl

fun call_idl :: "decode_call \<Rightarrow> idl" where
  "call_idl (IxCall pid data i) = i"
| "call_idl (AcctCall pid pubkey data i) = i"

fun run_call ::
  "(bytes \<Rightarrow> string) \<Rightarrow> (bytes \<Rightarrow> bytes) \<Rightarrow> chainparser_decoder \<Rightarrow> decode_call \<Rightarrow>
   ((decode_error + decoded_instruction) + (decode_error + decoded_account)) \<times> chainparser_decoder" where
  "run_call b58 sha256 dec (IxCall pid data i) =
     (let (r, dec') = decode_instruction b58 sha256 dec pid data i in (Inl r, dec'))"
| "run_call b58 sha256 dec (AcctCall pid pubkey data i) =
     (let (r, dec') = decode_account b58 sha256 dec pid pubkey data i in (Inr r, dec'))"

fun run_calls ::
  "(bytes \<Rightarrow> string) \<Rightarrow> (bytes \<Rightarrow> bytes) \<Rightarrow> chainparser_decoder \<Rightarrow> decode_call list \<Rightarrow>
   ((decode_error + decoded_instruction) + (decode_error + decoded_account)) list \<times> chainparser_decoder" where
  "run_calls b58 sha256 dec [] = ([], dec)"
| "run_calls b58 sha256 dec (c # cs) =
     (let (r, dec1) = run_call b58 sha256 dec c; (rs, dec2) = run_calls b58 sha256 dec1 cs
      in (r # rs, dec2))"

lemma run_call_coherent:
  assumes "cache_coherent idl_of dec" and "idl_of (idl_address (call_idl c)) = call_idl c"
  shows "fst (run_call b58 sha256 dec c) = fst (run_call b58 sha256 chainparser_new c)"
    and "cache_coherent idl_of (snd (run_call b58 sha256 dec c))"
proof -
  note coh = get_or_build_registry_coherent [OF assms]
  note fresh = get_or_build_registry_coherent [OF cache_coherent_new [of idl_of] assms(2)]
  show "fst (run_call b58 sha256 dec c) = fst (run_call b58 sha256 chainparser_new c)"
    by (cases c) (use coh fresh in
        \<open>auto simp: decode_instruction_def decode_account_def Let_def case_prod_beta split: sum.splits cong: if_cong\<close>)
  show "cache_coherent idl_of (snd (run_call b58 sha256 dec c))"
    by (cases c) (use coh assms(1) in
        \<open>auto simp: decode_instruction_def decode_account_def Let_def case_prod_beta split: sum.splits\<close>)
qed

text \<open>C29. Transparency of the registry cache: over any sequence of instruction and account decodings
  in which an address always comes with the same IDL, the shared decoder returns what a fresh
  decoder would return for each call alone.\<close>

theorem decoder_cache_transparent:
  assumes "\<forall>c \<in> set cs. idl_of (idl_address (call_idl c)) = call_idl c"
  shows "fst (run_calls b58 sha256 chainparser_new cs) =
         map (\<lambda>c. fst (run_call b58 sha256 chainparser_new c)) cs"
proof -
  have "cache_coherent idl_of dec \<Longrightarrow>
      fst (run_calls b58 sha256 dec cs) = map (\<lambda>c. fst (run_call b58 sha256 chainparser_new c)) cs" for dec
    using assms
  proof (induction cs arbitrary: dec)
    case (Cons c cs)
    then have "idl_of (idl_address (call_idl c)) = call_idl c" by simp
    note step = run_call_coherent [OF Cons.prems(1) this, of b58 sha256]
    from Cons.IH [OF step(2)] Cons.prems(2) step(1) show ?case by (simp add: case_prod_beta Let_def)
  qed simp
  then show ?thesis by (simp add: cache_coherent_new)
qed

theorem decoder_cache_transparent_witness:
  "fst (run_calls (\<lambda>_. []) id chainparser_new
      [IxCall ''Prog'' [4, 2, 1, 2, 1] demo_idl, IxCall ''Prog'' [9] demo_idl]) =
    map (\<lambda>c. fst (run_call (\<lambda>_. []) id chainparser_new c))
      [IxCall ''Prog'' [4, 2, 1, 2, 1] demo_idl, IxCall ''Prog'' [9] demo_idl]"
  by (rule decoder_cache_transparent [of _ "\<lambda>_. demo_idl"]) simp

text \<open>The warning threshold: for counts whose product with 100 fits, \<open>is_high_failure_rate\<close> fires
  exactly from 91 percent on. The comment of the source says it fires above 90 percent; the
  integer division makes it stay silent between the two.\<close>

theorem is_high_failure_rate_iff:
  assumes "failures * 100 < usize_bound"
  shows "is_high_failure_rate failures tot \<longleftrightarrow> 0 < tot \<and> 91 * tot \<le> 100 * failures"
proof (cases "tot = 0")
  case False
  then have "90 < failures * 100 div tot \<longleftrightarrow> 91 * tot \<le> failures * 100"
    by (simp add: less_eq_div_iff_mult_less_eq flip: Suc_le_eq)
  then show ?thesis using assms False by (simp add: is_high_failure_rate_def checked_mul_def mult.commute)
qed (simp add: is_high_failure_rate_def)

theorem is_high_failure_rate_iff_witness:
  "\<not> is_high_failure_rate 905 1000 \<and> is_high_failure_rate 910 1000"
  using is_high_failure_rate_iff [of 905 1000] is_high_failure_rate_iff [of 910 1000]
  by (simp add: usize_bound_def)

end
