(* ===== verification/Interfaces.thy ===== *)
theory Interfaces
  imports Prelude
begin

text \<open>
  The interfaces between components, as locales, with the lemmas their clients use proved once.

  \<^item> \<open>keyed_log\<close>: a table that accepts every row and keeps the first of each key. The writer
    relies on it for replays; the instruction table provides it.
  \<^item> \<open>newest_register\<close>: a table that keeps, for each key, the entry of the highest version,
    whatever the order of arrival. The account tables provide it.
  \<^item> \<open>slot_chunker\<close>: a function that cuts an inclusive slot range into chunks of bounded size.
    The backfill and the RPC client rely on it; their two chunk functions provide it.
\<close>

section \<open>Insert or ignore\<close>

locale keyed_log =
  fixes ins :: "'s \<Rightarrow> 'r \<Rightarrow> 's"
    and rows :: "'s \<Rightarrow> 'r list"
    and key :: "'r \<Rightarrow> 'k"
  assumes keys_ins: "key ` set (rows (ins s r)) = insert (key r) (key ` set (rows s))"
    and ins_known: "key r \<in> key ` set (rows s) \<Longrightarrow> rows (ins s r) = rows s"
    and ins_kept: "prefix (rows s) (rows (ins s r))"
    and ins_distinct: "distinct (map key (rows s)) \<Longrightarrow> distinct (map key (rows (ins s r)))"
begin

lemma keys_foldl: "key ` set (rows (foldl ins s rs)) = key ` set (rows s) \<union> key ` set rs"
  by (induction rs arbitrary: s) (auto simp: keys_ins)

lemma foldl_known: "key ` set rs \<subseteq> key ` set (rows s) \<Longrightarrow> rows (foldl ins s rs) = rows s"
  by (induction rs arbitrary: s) (auto simp: ins_known)

lemma foldl_kept: "prefix (rows s) (rows (foldl ins s rs))"
  by (induction rs arbitrary: s) (auto intro: ins_kept prefix_order.trans)

lemma foldl_distinct: "distinct (map key (rows s)) \<Longrightarrow> distinct (map key (rows (foldl ins s rs)))"
  by (induction rs arbitrary: s) (auto simp: ins_distinct)

text \<open>A replay of rows that were already offered changes nothing.\<close>

lemma replay:
  "set rs \<subseteq> set rs0 \<Longrightarrow> rows (foldl ins (foldl ins s rs0) rs) = rows (foldl ins s rs0)"
  by (rule foldl_known) (auto simp: keys_foldl)

lemma foldl_length:
  assumes "distinct (map key (rows s))"
  shows "length (rows (foldl ins s rs)) = card (key ` set (rows s) \<union> key ` set rs)"
  using distinct_card [OF foldl_distinct [OF assms, of rs]] by (simp add: keys_foldl)

end

section \<open>Newest wins\<close>

text \<open>
  \<open>look\<close> reads the row of a key, \<open>holds e r\<close> says that row \<open>r\<close> carries entry \<open>e\<close>. An update
  keeps a row that is at least as new and replaces an older one.
\<close>

locale newest_register =
  fixes upd :: "'s \<Rightarrow> 'e \<Rightarrow> 's"
    and look :: "'s \<Rightarrow> 'k \<rightharpoonup> 'r"
    and key :: "'e \<Rightarrow> 'k"
    and ver :: "'e \<Rightarrow> int"
    and row_ver :: "'r \<Rightarrow> int"
    and holds :: "'e \<Rightarrow> 'r \<Rightarrow> bool"
  assumes upd_other: "k \<noteq> key e \<Longrightarrow> look (upd s e) k = look s k"
    and upd_stale: "look s (key e) = Some r \<Longrightarrow> ver e \<le> row_ver r \<Longrightarrow> look (upd s e) (key e) = Some r"
    and upd_fresh: "\<forall>r. look s (key e) = Some r \<longrightarrow> row_ver r < ver e \<Longrightarrow> \<exists>r. look (upd s e) (key e) = Some r \<and> holds e r"
    and holds_ver: "holds e r \<Longrightarrow> row_ver r = ver e"
begin

lemma upd_cases:
  obtains (stale) r where "look s (key e) = Some r" "ver e \<le> row_ver r" "look (upd s e) (key e) = Some r"
  | (fresh) r where "\<forall>old. look s (key e) = Some old \<longrightarrow> row_ver old < ver e" "look (upd s e) (key e) = Some r" "holds e r"
  using upd_stale [of s e] upd_fresh [of s e] by (metis linorder_not_le)

lemma foldl_None: "look (foldl upd s es) k = None \<longleftrightarrow> look s k = None \<and> (\<forall>x \<in> set es. key x \<noteq> k)"
proof (induction es arbitrary: s)
  case (Cons e es)
  have "look (upd s e) k = None \<longleftrightarrow> look s k = None \<and> key e \<noteq> k"
    using upd_other [of k e s] by (cases rule: upd_cases [of s e]; cases "key e = k") auto
  then show ?case using Cons.IH [of "upd s e"] by auto
qed simp

text \<open>After any sequence of updates a row is at least as new as every entry offered for its key, and it
  is the row of before or carries an entry newer than that one.\<close>

lemma foldl_newest:
  "look (foldl upd s es) k = Some r \<Longrightarrow>
   (\<forall>x \<in> set es. key x = k \<longrightarrow> ver x \<le> row_ver r) \<and>
   (look s k = Some r \<or>
    (\<exists>e \<in> set es. key e = k \<and> holds e r \<and> (\<forall>old. look s k = Some old \<longrightarrow> row_ver old < ver e)))"
proof (induction es arbitrary: s)
  case (Cons x es)
  from Cons.prems have "look (foldl upd (upd s x) es) k = Some r" by simp
  note IH = Cons.IH [OF this]
  show ?case
  proof (cases "key x = k")
    case False
    then show ?thesis using IH upd_other [of k x s] by auto
  next
    case True
    show ?thesis
    proof (cases rule: upd_cases [of s x])
      case (stale r0)
      then show ?thesis using IH True holds_ver by auto
    next
      case (fresh r0)
      then show ?thesis using IH True holds_ver by fastforce
    qed
  qed
qed simp

end

section \<open>Slot chunks\<close>

definition slots_of :: "u64 \<times> u64 \<Rightarrow> nat list" where
  "slots_of c = [unat (fst c) ..< Suc (unat (snd c))]"

locale slot_chunker =
  fixes chunks :: "u64 \<Rightarrow> u64 \<Rightarrow> (u64 \<times> u64) list"
    and sz :: u64
  assumes chunks_cover: "0 < sz \<Longrightarrow> concat (map slots_of (chunks a b)) = slots_of (a, b)"
    and chunks_size: "0 < sz \<Longrightarrow> (c, d) \<in> set (chunks a b) \<Longrightarrow> c \<le> d \<and> unat d - unat c < unat sz"
begin

text \<open>Every slot of the range is in a chunk, and no slot is in two or twice in one.\<close>

lemma chunk_slots:
  "0 < sz \<Longrightarrow> (\<exists>c \<in> set (chunks a b). s \<in> set (slots_of c)) \<longleftrightarrow> s \<in> set (slots_of (a, b))"
  by (drule chunks_cover [of a b], drule sym) auto

lemma chunk_disjoint: "0 < sz \<Longrightarrow> distinct (concat (map slots_of (chunks a b)))"
  by (simp add: chunks_cover slots_of_def)

lemma chunk_nonempty: "0 < sz \<Longrightarrow> c \<in> set (chunks a b) \<Longrightarrow> slots_of c \<noteq> []"
  using chunks_size by (cases c) (auto simp: slots_of_def word_le_nat_alt)

lemma chunks_empty: "0 < sz \<Longrightarrow> b < a \<Longrightarrow> chunks a b = []"
proof -
  assume sz: "0 < sz" and ba: "b < a"
  then have "concat (map slots_of (chunks a b)) = []"
    by (simp add: chunks_cover slots_of_def word_less_nat_alt)
  then show ?thesis using chunk_nonempty [OF sz, of "hd (chunks a b)" a b]
    by (cases "chunks a b") auto
qed

end

end
