(* ===== verification/Database.thy ===== *)
theory Database
  imports Solarix_Types Interfaces
begin

text \<open>
  The PostgreSQL tables the sources create and the effect of the statements they run on them.
  The statements are SQL text embedded in \<open>storage/writer.rs\<close>, \<open>storage/schema.rs\<close>,
  \<open>registry.rs\<close>, \<open>pipeline/mod.rs\<close> and \<open>api/handlers.rs\<close>; each function here is the effect
  of one of them, row by row, as PostgreSQL documents \<open>INSERT ... ON CONFLICT\<close>. A failing
  statement is an \<open>Inl\<close> with the text sqlx reports; which statements fail for outside reasons is
  a parameter of the operations that run them.
\<close>

section \<open>Rows\<close>

record instruction_row =
  ir_id :: nat
  ir_signature :: string
  ir_slot :: int
  ir_block_time :: "int option"
  ir_instruction_name :: string
  ir_instruction_index :: int
  ir_inner_index :: "int option"
  ir_args :: json
  ir_accounts :: json
  ir_data :: json
  ir_is_inner_ix :: bool

text \<open>The expressions of the unique index \<open>uq__instructions_sig_idx\<close>.\<close>

definition ix_key :: "instruction_row \<Rightarrow> string \<times> int \<times> int" where
  "ix_key r = (ir_signature r, ir_instruction_index r,
     case ir_inner_index r of None \<Rightarrow> - 1 | Some k \<Rightarrow> k)"

text \<open>\<open>ar_promoted\<close> holds the promoted columns of the row as texts (\<open>None\<close> is \<open>NULL\<close>).\<close>

record account_row =
  ar_slot_updated :: int
  ar_write_version :: int
  ar_lamports :: int
  ar_data :: json
  ar_is_closed :: bool
  ar_promoted :: "(string \<times> string option) list"

record account_table =
  at_columns :: "(string \<times> string) list"
  at_rows :: "string \<rightharpoonup> account_row"

record checkpoint_row =
  cp_last_slot :: "int option"
  cp_last_signature :: "string option"

record program_schema =
  ps_accounts :: "string \<rightharpoonup> account_table"
  ps_instructions :: "instruction_row list"
  ps_next_id :: nat
  ps_metadata :: "string \<rightharpoonup> json"
  ps_checkpoints :: "string \<rightharpoonup> checkpoint_row"

record program_row =
  pr_program_name :: string
  pr_schema_name :: string
  pr_idl_hash :: "string option"
  pr_idl_source :: "string option"
  pr_idl_json :: "string option"
  pr_status :: string

record indexer_row =
  st_status :: string
  st_last_processed_slot :: "int option"
  st_error_message :: "string option"
  st_total_instructions :: int
  st_total_accounts :: int

record database =
  db_programs :: "string \<rightharpoonup> program_row"
  db_indexer_state :: "string \<rightharpoonup> indexer_row"
  db_schemas :: "string \<rightharpoonup> program_schema"

section \<open>Instructions: insert or ignore\<close>

text \<open>
  One row of \<open>INSERT ... SELECT ... ON CONFLICT DO NOTHING\<close>: the \<open>BIGSERIAL\<close> default is drawn
  for every row, the row is kept when its key is new.
\<close>

definition insert_ix ::
  "nat \<times> instruction_row list \<Rightarrow> instruction_row \<Rightarrow> nat \<times> instruction_row list" where
  "insert_ix t r =
     (if ix_key r \<in> ix_key ` set (snd t) then (Suc (fst t), snd t)
      else (Suc (fst t), snd t @ [r\<lparr> ir_id := fst t \<rparr>]))"

definition insert_ixs ::
  "nat \<times> instruction_row list \<Rightarrow> instruction_row list \<Rightarrow> (nat \<times> instruction_row list) \<times> nat" where
  "insert_ixs t rows =
     (let t' = foldl insert_ix t rows in (t', length (snd t') - length (snd t)))"

section \<open>Accounts: insert, or update when newer\<close>

text \<open>
  One row of \<open>INSERT ... ON CONFLICT ("pubkey") DO UPDATE ... WHERE EXCLUDED.slot_updated >
  slot_updated\<close>. \<open>touched\<close> are the keys this statement has inserted or updated: PostgreSQL
  refuses to affect a row a second time in one statement. The columns the statement does not
  name keep their values (\<open>write_version\<close>, \<open>is_closed\<close>) or take their defaults.
\<close>

record upsert_state =
  us_rows :: "string \<rightharpoonup> account_row"
  us_touched :: "string set"
  us_count :: nat

definition second_time_error :: string where
  "second_time_error =
     ''error returned from database: ON CONFLICT DO UPDATE command cannot affect row a second time''"

definition upsert_account ::
  "upsert_state \<Rightarrow> string \<times> int \<times> int \<times> json \<times> (string \<times> string option) list \<Rightarrow> string + upsert_state" where
  "upsert_account s row =
     (case row of (pubkey, slot, lamports, data, promoted) \<Rightarrow>
        (case us_rows s pubkey of
           None \<Rightarrow>
             Inr (s\<lparr> us_rows := (us_rows s)(pubkey \<mapsto>
                       \<lparr> ar_slot_updated = slot, ar_write_version = 0, ar_lamports = lamports,
                         ar_data = data, ar_is_closed = False, ar_promoted = promoted \<rparr>),
                     us_touched := insert pubkey (us_touched s), us_count := Suc (us_count s) \<rparr>)
         | Some old \<Rightarrow>
             if pubkey \<in> us_touched s then Inl second_time_error
             else if ar_slot_updated old < slot then
               Inr (s\<lparr> us_rows := (us_rows s)(pubkey \<mapsto>
                         old\<lparr> ar_slot_updated := slot, ar_lamports := lamports, ar_data := data,
                              ar_promoted := promoted \<rparr>),
                       us_touched := insert pubkey (us_touched s), us_count := Suc (us_count s) \<rparr>)
             else Inr s))"

section \<open>Keyed rows: insert or overwrite\<close>

definition upsert_checkpoint ::
  "string \<Rightarrow> int \<Rightarrow> string option \<Rightarrow> program_schema \<Rightarrow> program_schema" where
  "upsert_checkpoint stream slot sig ps =
     ps\<lparr> ps_checkpoints := (ps_checkpoints ps)(stream \<mapsto>
           \<lparr> cp_last_slot = Some slot, cp_last_signature = sig \<rparr>) \<rparr>"

definition upsert_metadata :: "string \<Rightarrow> json \<Rightarrow> program_schema \<Rightarrow> program_schema" where
  "upsert_metadata k v ps = ps\<lparr> ps_metadata := (ps_metadata ps)(k \<mapsto> v) \<rparr>"

section \<open>Laws of the tables\<close>

text \<open>The keys of the instruction table are unique.\<close>

definition ix_table_ok :: "instruction_row list \<Rightarrow> bool" where
  "ix_table_ok rows = distinct (map ix_key rows)"

lemma ix_key_id [simp]: "ix_key (r\<lparr> ir_id := n \<rparr>) = ix_key r"
  by (simp add: ix_key_def)

lemma insert_ix_keys: "ix_key ` set (snd (insert_ix t r)) = insert (ix_key r) (ix_key ` set (snd t))"
  by (auto simp: insert_ix_def)

lemma insert_ix_ok: "ix_table_ok (snd t) \<Longrightarrow> ix_table_ok (snd (insert_ix t r))"
  by (auto simp: insert_ix_def ix_table_ok_def)

lemma insert_ix_known: "ix_key r \<in> ix_key ` set (snd t) \<Longrightarrow> snd (insert_ix t r) = snd t"
  by (simp add: insert_ix_def)

lemma insert_ix_prefix: "prefix (snd t) (snd (insert_ix t r))"
  by (simp add: insert_ix_def)

interpretation ixlog: keyed_log insert_ix snd ix_key
proof unfold_locales
  fix t :: "nat \<times> instruction_row list" and r
  show "distinct (map ix_key (snd t)) \<Longrightarrow> distinct (map ix_key (snd (insert_ix t r)))"
    using insert_ix_ok [of t r] by (simp add: ix_table_ok_def)
qed (simp_all add: insert_ix_keys insert_ix_known insert_ix_prefix)

end
