(* ===== verification/Schema.thy ===== *)
theory Schema
  imports Database
begin

text \<open>
  The DDL generator (\<open>src/storage/schema.rs\<close>): identifiers, quoting, the mapping from IDL types
  to column types, the statements for a program's schema, and the two functions that run them.

  Identifiers are byte strings: \<open>chars().filter(is_ascii_alphanumeric or '_')\<close> keeps exactly the
  ASCII bytes it names, since every byte of a multi-byte character is above 127.
  \<open>pg_ddl\<close> stands for PostgreSQL executing a batch of statements and \<open>fault\<close> for the
  statements of \<open>seed_metadata\<close> that fail, by position.
\<close>

datatype storage_error =
    ConnectionFailed string
  | DdlFailed string
  | WriteFailed string
  | QueryFailed string
  | CheckpointFailed string

fun show_storage_error :: "storage_error \<Rightarrow> string" where
  "show_storage_error (ConnectionFailed s) = ''connection failed: '' @ s"
| "show_storage_error (DdlFailed s) = ''DDL execution failed: '' @ s"
| "show_storage_error (WriteFailed s) = ''write failed: '' @ s"
| "show_storage_error (QueryFailed s) = ''query failed: '' @ s"
| "show_storage_error (CheckpointFailed s) = ''checkpoint failed: '' @ s"

section \<open>Identifiers\<close>

definition is_ascii_upper :: "char \<Rightarrow> bool" where
  "is_ascii_upper c = (65 \<le> (of_char c :: nat) \<and> (of_char c :: nat) \<le> 90)"

definition is_ascii_lower :: "char \<Rightarrow> bool" where
  "is_ascii_lower c = (97 \<le> (of_char c :: nat) \<and> (of_char c :: nat) \<le> 122)"

definition is_ascii_alphanumeric :: "char \<Rightarrow> bool" where
  "is_ascii_alphanumeric c = (is_ascii_upper c \<or> is_ascii_lower c \<or> is_digit c)"

text \<open>
  \<open>str::to_lowercase\<close> on ASCII. Characters outside ASCII keep their bytes: the sources lowercase
  filtered identifiers and base58 program ids, which have none.
\<close>

definition lower_char :: "char \<Rightarrow> char" where
  "lower_char c = (if is_ascii_upper c then char_of ((of_char c :: nat) + 32) else c)"

definition to_lowercase :: "string \<Rightarrow> string" where
  "to_lowercase s = map lower_char s"

text \<open>\<open>str::is_char_boundary\<close> for an index of the string: not before a continuation byte.\<close>

definition is_char_boundary :: "string \<Rightarrow> nat \<Rightarrow> bool" where
  "is_char_boundary s i =
     (i = 0 \<or> i = length s \<or>
      i < length s \<and> \<not> (128 \<le> (of_char (s ! i) :: nat) \<and> (of_char (s ! i) :: nat) < 192))"

fun boundary_down :: "string \<Rightarrow> nat \<Rightarrow> nat" where
  "boundary_down s 0 = 0"
| "boundary_down s (Suc e) = (if is_char_boundary s (Suc e) then Suc e else boundary_down s e)"

definition truncate_to_bytes :: "string \<Rightarrow> nat \<Rightarrow> string" where
  "truncate_to_bytes s mx = (if length s \<le> mx then s else take (boundary_down s mx) s)"

definition sanitize_identifier :: "string \<Rightarrow> string" where
  "sanitize_identifier name =
     (let sanitized = to_lowercase (filter (\<lambda>c. is_ascii_alphanumeric c \<or> c = CHR ''_'') name);
          sanitized = (case sanitized of [] \<Rightarrow> sanitized
                       | c # _ \<Rightarrow> if is_digit c then CHR ''_'' # sanitized else sanitized);
          sanitized = (if sanitized = [] then ''_unnamed'' else sanitized)
      in truncate_to_bytes sanitized 63)"

text \<open>\<open>chars().take(n)\<close> on UTF-8 bytes: a character starts at every byte that continues none.\<close>

fun take_chars :: "nat \<Rightarrow> string \<Rightarrow> string" where
  "take_chars n [] = []"
| "take_chars n (c # cs) =
     (if 128 \<le> (of_char c :: nat) \<and> (of_char c :: nat) < 192 then c # take_chars n cs
      else if n = 0 then [] else c # take_chars (n - 1) cs)"

definition derive_schema_name :: "string \<Rightarrow> string \<Rightarrow> string" where
  "derive_schema_name idl_name program_id =
     (let id_prefix = to_lowercase (take_chars 8 program_id);
          max_name_len = 63 - 1 - length id_prefix;
          name_part = truncate_to_bytes (sanitize_identifier idl_name) max_name_len
      in name_part @ ''_'' @ id_prefix)"

definition quote_ident :: "string \<Rightarrow> string" where
  "quote_ident name = CHR 0x22 # replace_char CHR 0x22 [CHR 0x22, CHR 0x22] name @ [CHR 0x22]"

section \<open>Column types\<close>

definition MAX_TYPE_RESOLUTION_DEPTH :: nat where
  "MAX_TYPE_RESOLUTION_DEPTH = 16"

function map_idl_type_to_pg_inner :: "idl_type \<Rightarrow> idl_typedef list \<Rightarrow> nat \<Rightarrow> string option"
  and resolve_defined_type :: "string \<Rightarrow> idl_typedef list \<Rightarrow> nat \<Rightarrow> string option" where
  "map_idl_type_to_pg_inner ty types depth =
     (if MAX_TYPE_RESOLUTION_DEPTH < depth then None
      else case ty of
        TyBool \<Rightarrow> Some ''BOOLEAN''
      | TyU8 \<Rightarrow> Some ''SMALLINT'' | TyI8 \<Rightarrow> Some ''SMALLINT''
      | TyU16 \<Rightarrow> Some ''INTEGER''
      | TyI16 \<Rightarrow> Some ''SMALLINT''
      | TyU32 \<Rightarrow> Some ''INTEGER'' | TyI32 \<Rightarrow> Some ''INTEGER''
      | TyF32 \<Rightarrow> Some ''REAL''
      | TyU64 \<Rightarrow> Some ''BIGINT'' | TyI64 \<Rightarrow> Some ''BIGINT''
      | TyF64 \<Rightarrow> Some ''DOUBLE PRECISION''
      | TyU128 \<Rightarrow> Some ''NUMERIC(39,0)'' | TyI128 \<Rightarrow> Some ''NUMERIC(39,0)''
      | TyU256 \<Rightarrow> Some ''NUMERIC(78,0)'' | TyI256 \<Rightarrow> Some ''NUMERIC(78,0)''
      | TyString \<Rightarrow> Some ''TEXT''
      | TyPubkey \<Rightarrow> Some ''TEXT''
      | TyBytes \<Rightarrow> Some ''BYTEA''
      | TyOption inner \<Rightarrow> map_idl_type_to_pg_inner inner types (depth + 1)
      | TyArray inner _ \<Rightarrow> (case inner of TyU8 \<Rightarrow> Some ''BYTEA'' | _ \<Rightarrow> None)
      | TyVec _ \<Rightarrow> None
      | TyDefined name _ \<Rightarrow> resolve_defined_type name types (depth + 1)
      | TyGeneric _ \<Rightarrow> None)"
| "resolve_defined_type name types depth =
     (if MAX_TYPE_RESOLUTION_DEPTH < depth then None
      else case find (\<lambda>t. td_name t = name) types of
        None \<Rightarrow> None
      | Some type_def \<Rightarrow>
          (case td_ty type_def of
             TdType alias \<Rightarrow> map_idl_type_to_pg_inner alias types (depth + 1)
           | TdStruct _ \<Rightarrow> None
           | TdEnum _ \<Rightarrow> None))"
  by pat_completeness auto
termination
  by (relation "measure (\<lambda>x. case x of Inl (_, _, d) \<Rightarrow> Suc MAX_TYPE_RESOLUTION_DEPTH - d
                                     | Inr (_, _, d) \<Rightarrow> Suc MAX_TYPE_RESOLUTION_DEPTH - d)") auto

declare map_idl_type_to_pg_inner.simps [simp del] resolve_defined_type.simps [simp del]

definition map_idl_type_to_pg :: "idl_type \<Rightarrow> idl_typedef list \<Rightarrow> string option" where
  "map_idl_type_to_pg ty types = map_idl_type_to_pg_inner ty types 0"

section \<open>Tables\<close>

definition nl :: string where
  "nl = [CHR 0x0A]"

text \<open>A quoted identifier of the source's literals, which hold no quote.\<close>

definition dq :: "string \<Rightarrow> string" where
  "dq s = CHR 0x22 # s @ [CHR 0x22]"

definition RESERVED_ACCOUNT_COLUMNS :: "string list" where
  "RESERVED_ACCOUNT_COLUMNS =
     [''pubkey'', ''slot_updated'', ''write_version'', ''lamports'', ''data'', ''is_closed'',
      ''updated_at'']"

definition qualified_name :: "string \<Rightarrow> string \<Rightarrow> string" where
  "qualified_name schema table = quote_ident schema @ ''.'' @ quote_ident table"

definition common_columns_sql :: string where
  "common_columns_sql =
     ''    '' @ dq ''pubkey'' @ '' TEXT PRIMARY KEY,'' @ nl @
     ''    '' @ dq ''slot_updated'' @ '' BIGINT NOT NULL,'' @ nl @
     ''    '' @ dq ''write_version'' @ '' BIGINT NOT NULL DEFAULT 0,'' @ nl @
     ''    '' @ dq ''lamports'' @ '' BIGINT NOT NULL,'' @ nl @
     ''    '' @ dq ''data'' @ '' JSONB NOT NULL,'' @ nl @
     ''    '' @ dq ''is_closed'' @ '' BOOLEAN NOT NULL DEFAULT FALSE,'' @ nl @
     ''    '' @ dq ''updated_at'' @ '' TIMESTAMPTZ NOT NULL DEFAULT NOW()''"

text \<open>The loop over the fields: the columns it promotes, in order.\<close>

fun promoted_columns :: "idl_field list \<Rightarrow> idl_typedef list \<Rightarrow> (string \<times> string) list" where
  "promoted_columns [] types = []"
| "promoted_columns (field # rest) types =
     (case map_idl_type_to_pg (fld_ty field) types of
        None \<Rightarrow> promoted_columns rest types
      | Some pg_type \<Rightarrow>
          (let col_name = sanitize_identifier (fld_name field)
           in if col_name \<in> set RESERVED_ACCOUNT_COLUMNS then promoted_columns rest types
              else (col_name, pg_type) # promoted_columns rest types))"

definition generate_account_table ::
  "string \<Rightarrow> string \<Rightarrow> idl_field list \<Rightarrow> idl_typedef list \<Rightarrow> string list" where
  "generate_account_table schema account_name flds types =
     (let qualified = qualified_name schema (sanitize_identifier account_name);
          columns = common_columns_sql @
            concat (map (\<lambda>(col, pg). '','' @ nl @ ''    '' @ quote_ident col @ '' '' @ pg)
                      (promoted_columns flds types))
      in [''CREATE TABLE IF NOT EXISTS '' @ qualified @ '' ('' @ nl @ columns @ nl @ '');''])"

definition generate_instructions_table :: "string \<Rightarrow> string list" where
  "generate_instructions_table schema =
     (let qualified = qualified_name schema ''_instructions''
      in [''CREATE TABLE IF NOT EXISTS '' @ qualified @ '' ('' @ nl @
          ''    '' @ dq ''id'' @ '' BIGSERIAL PRIMARY KEY,'' @ nl @
          ''    '' @ dq ''signature'' @ '' TEXT NOT NULL,'' @ nl @
          ''    '' @ dq ''slot'' @ '' BIGINT NOT NULL,'' @ nl @
          ''    '' @ dq ''block_time'' @ '' BIGINT,'' @ nl @
          ''    '' @ dq ''instruction_name'' @ '' TEXT NOT NULL,'' @ nl @
          ''    '' @ dq ''instruction_index'' @ '' SMALLINT NOT NULL,'' @ nl @
          ''    '' @ dq ''inner_index'' @ '' SMALLINT,'' @ nl @
          ''    '' @ dq ''args'' @ '' JSONB NOT NULL,'' @ nl @
          ''    '' @ dq ''accounts'' @ '' JSONB NOT NULL,'' @ nl @
          ''    '' @ dq ''data'' @ '' JSONB NOT NULL,'' @ nl @
          ''    '' @ dq ''is_inner_ix'' @ '' BOOLEAN NOT NULL DEFAULT FALSE'' @ nl @ '');'',
          ''CREATE UNIQUE INDEX IF NOT EXISTS '' @ dq ''uq__instructions_sig_idx'' @ '' ON '' @
          qualified @ '' ('' @ dq ''signature'' @ '', '' @ dq ''instruction_index'' @
          '', COALESCE('' @ dq ''inner_index'' @ '', -1));''])"

definition generate_metadata_table :: "string \<Rightarrow> string" where
  "generate_metadata_table schema =
     ''CREATE TABLE IF NOT EXISTS '' @ qualified_name schema ''_metadata'' @ '' ('' @ nl @
     ''    '' @ dq ''key'' @ '' TEXT PRIMARY KEY,'' @ nl @
     ''    '' @ dq ''value'' @ '' JSONB NOT NULL'' @ nl @ '');''"

definition generate_checkpoints_table :: "string \<Rightarrow> string" where
  "generate_checkpoints_table schema =
     ''CREATE TABLE IF NOT EXISTS '' @ qualified_name schema ''_checkpoints'' @ '' ('' @ nl @
     ''    '' @ dq ''stream'' @ '' TEXT PRIMARY KEY,'' @ nl @
     ''    '' @ dq ''last_slot'' @ '' BIGINT,'' @ nl @
     ''    '' @ dq ''last_signature'' @ '' VARCHAR(88),'' @ nl @
     ''    '' @ dq ''updated_at'' @ '' TIMESTAMPTZ NOT NULL DEFAULT NOW()'' @ nl @ '');''"

definition index_sql :: "string \<Rightarrow> string \<Rightarrow> string \<Rightarrow> string" where
  "index_sql name qualified what =
     ''CREATE INDEX IF NOT EXISTS '' @ quote_ident name @ '' ON '' @ qualified @ what"

definition btree_on :: "string \<Rightarrow> string" where
  "btree_on col = '' ('' @ dq col @ '');''"

definition gin_on :: "string \<Rightarrow> string" where
  "gin_on col = '' USING gin ('' @ dq col @ '' jsonb_path_ops);''"

definition generate_indexes :: "string \<Rightarrow> string list \<Rightarrow> string list" where
  "generate_indexes schema account_names =
     concat (map (\<lambda>name.
       let table = sanitize_identifier name; qualified = qualified_name schema table
       in [index_sql (''idx_'' @ table @ ''_slot_updated'') qualified (btree_on ''slot_updated''),
           index_sql (''gin_'' @ table @ ''_data'') qualified (gin_on ''data'')]) account_names) @
     (let ix_qualified = qualified_name schema ''_instructions''
      in [index_sql ''idx__instructions_slot'' ix_qualified (btree_on ''slot''),
          index_sql ''idx__instructions_signature'' ix_qualified (btree_on ''signature''),
          index_sql ''idx__instructions_instruction_name'' ix_qualified (btree_on ''instruction_name''),
          index_sql ''idx__instructions_block_time'' ix_qualified (btree_on ''block_time''),
          index_sql ''gin__instructions_data'' ix_qualified (gin_on ''data''),
          index_sql ''gin__instructions_args'' ix_qualified (gin_on ''args'')])"

text \<open>The named fields of the account's type, by the last typedef of that name; none otherwise.\<close>

definition account_fields :: "idl \<Rightarrow> string \<Rightarrow> idl_field list" where
  "account_fields i name =
     (let type_map = foldl (\<lambda>m t. m(td_name t \<mapsto> t)) Map.empty (idl_types i)
      in case type_map name of
           Some td \<Rightarrow> (case td_ty td of TdStruct (Some (Named flds)) \<Rightarrow> flds | _ \<Rightarrow> [])
         | None \<Rightarrow> [])"

definition build_ddl_statements :: "idl \<Rightarrow> string \<Rightarrow> string list" where
  "build_ddl_statements i schema_name =
     [''CREATE SCHEMA IF NOT EXISTS '' @ quote_ident schema_name @ '';'',
      generate_metadata_table schema_name,
      generate_checkpoints_table schema_name] @
     concat (map (\<lambda>account. generate_account_table schema_name (acct_name account)
                              (account_fields i (acct_name account)) (idl_types i)) (idl_accounts i)) @
     generate_instructions_table schema_name @
     generate_indexes schema_name (map acct_name (idl_accounts i))"

fun join :: "string \<Rightarrow> string list \<Rightarrow> string" where
  "join sep [] = []"
| "join sep [s] = s"
| "join sep (s # ss) = s @ sep @ join sep ss"

definition generate_schema ::
  "(string \<Rightarrow> database \<Rightarrow> string + database) \<Rightarrow> idl \<Rightarrow> string \<Rightarrow> database \<Rightarrow>
   (storage_error + unit) \<times> database" where
  "generate_schema pg_ddl i schema_name db =
     (case pg_ddl (join nl (build_ddl_statements i schema_name)) db of
        Inl e \<Rightarrow> (Inl (DdlFailed (''DDL failed for '' @ schema_name @ '': '' @ e)), db)
      | Inr db' \<Rightarrow> (Inr (), db'))"

section \<open>Metadata\<close>

definition metadata_entries :: "idl \<Rightarrow> string \<Rightarrow> string \<Rightarrow> (string \<times> json) list" where
  "metadata_entries i program_id idl_hash =
     [(''program_id'', JStr program_id),
      (''program_name'', JStr (idl_metadata_name i)),
      (''idl_hash'', JStr idl_hash),
      (''idl_version'', JStr (idl_metadata_version i)),
      (''account_types'', JArr (map (JStr \<circ> acct_name) (idl_accounts i))),
      (''instruction_types'', JArr (map (JStr \<circ> ix_name) (idl_instructions i)))]"

definition on_schema :: "string \<Rightarrow> (program_schema \<Rightarrow> program_schema) \<Rightarrow> database \<Rightarrow> database" where
  "on_schema name f db = db\<lparr> db_schemas := (db_schemas db)(name := map_option f (db_schemas db name)) \<rparr>"

text \<open>sqlx's text for a statement on a table that does not exist.\<close>

definition no_relation :: "string \<Rightarrow> string \<Rightarrow> string" where
  "no_relation schema table =
     ''error returned from database: relation '' @ dq (schema @ ''.'' @ table) @ '' does not exist''"

text \<open>
  The upserts one after the other, each on its own: a failure leaves the earlier entries in
  place. \<open>fault k\<close> is the error of the k-th statement, \<open>now\<close> the server's \<open>NOW()::text\<close>.
\<close>

fun seed_entries ::
  "(nat \<Rightarrow> string option) \<Rightarrow> nat \<Rightarrow> string \<Rightarrow> (string \<times> json) list \<Rightarrow> database \<Rightarrow>
   (storage_error + unit) \<times> database" where
  "seed_entries fault k schema_name [] db = (Inr (), db)"
| "seed_entries fault k schema_name ((key, val) # rest) db =
     (case (if db_schemas db schema_name = None then Some (no_relation schema_name ''_metadata'') else fault k) of
        Some e \<Rightarrow> (Inl (DdlFailed (''metadata seed failed for '' @ schema_name @ '': '' @ e)), db)
      | None \<Rightarrow> seed_entries fault (Suc k) schema_name rest (on_schema schema_name (upsert_metadata key val) db))"

definition seed_metadata ::
  "(nat \<Rightarrow> string option) \<Rightarrow> string \<Rightarrow> idl \<Rightarrow> string \<Rightarrow> string \<Rightarrow> string \<Rightarrow> database \<Rightarrow>
   (storage_error + unit) \<times> database" where
  "seed_metadata fault now i program_id idl_hash schema_name db =
     seed_entries fault 0 schema_name
       (metadata_entries i program_id idl_hash @ [(''schema_created_at'', JStr now)]) db"

section \<open>Laws of identifiers\<close>

definition ident_char :: "char \<Rightarrow> bool" where
  "ident_char c = (is_ascii_lower c \<or> is_digit c \<or> c = CHR ''_'')"

text \<open>What PostgreSQL accepts as it is: short, not empty, lower case, no leading digit.\<close>

definition valid_identifier :: "string \<Rightarrow> bool" where
  "valid_identifier s = (s \<noteq> [] \<and> length s \<le> 63 \<and> list_all ident_char s \<and> \<not> is_digit (hd s))"

lemma lower_char_ident: "is_ascii_alphanumeric c \<or> c = CHR ''_'' \<Longrightarrow> ident_char (lower_char c)"
proof -
  assume a: "is_ascii_alphanumeric c \<or> c = CHR ''_''"
  show ?thesis
  proof (cases "is_ascii_upper c")
    case True
    then have "(of_char (lower_char c) :: nat) = of_char c + 32"
      by (simp add: lower_char_def is_ascii_upper_def)
    then show ?thesis using True by (simp add: ident_char_def is_ascii_upper_def is_ascii_lower_def)
  next
    case False
    then show ?thesis using a by (auto simp: lower_char_def ident_char_def is_ascii_alphanumeric_def)
  qed
qed

lemma ident_char_lower [simp]: "ident_char c \<Longrightarrow> lower_char c = c"
  by (auto simp: ident_char_def lower_char_def is_ascii_upper_def is_ascii_lower_def is_digit_def)

lemma ident_char_kept: "ident_char c \<Longrightarrow> is_ascii_alphanumeric c \<or> c = CHR ''_''"
  by (auto simp: ident_char_def is_ascii_alphanumeric_def)

lemma ident_char_ascii: "ident_char c \<Longrightarrow> (of_char c :: nat) < 128"
  by (auto simp: ident_char_def is_ascii_lower_def is_digit_def)

lemma boundary_down_ascii:
  "list_all ident_char s \<Longrightarrow> n \<le> length s \<Longrightarrow> boundary_down s n = n"
proof (cases n)
  case (Suc m)
  assume a: "list_all ident_char s" "n \<le> length s"
  then have "n = length s \<or> n < length s \<and> (of_char (s ! n) :: nat) < 128"
    using ident_char_ascii by (auto simp: list_all_length)
  then show ?thesis using Suc by (auto simp: is_char_boundary_def)
qed simp

lemma truncate_ident: "list_all ident_char s \<Longrightarrow> truncate_to_bytes s n = take n s"
  by (simp add: truncate_to_bytes_def boundary_down_ascii)

text \<open>The name before truncation.\<close>

definition sanitize_full :: "string \<Rightarrow> string" where
  "sanitize_full name =
     (let s = map lower_char (filter (\<lambda>c. is_ascii_alphanumeric c \<or> c = CHR ''_'') name)
      in if s = [] then ''_unnamed'' else if is_digit (hd s) then CHR ''_'' # s else s)"

lemma sanitize_full_ident: "list_all ident_char (sanitize_full name)"
proof -
  have "list_all ident_char (map lower_char (filter (\<lambda>c. is_ascii_alphanumeric c \<or> c = CHR ''_'') name))"
    by (auto simp: list_all_iff lower_char_ident)
  then show ?thesis
    by (auto simp: sanitize_full_def Let_def ident_char_def is_ascii_lower_def)
qed

lemma sanitize_identifier_full: "sanitize_identifier name = take 63 (sanitize_full name)"
proof -
  have "sanitize_identifier name = truncate_to_bytes (sanitize_full name) 63"
    by (auto simp: sanitize_identifier_def sanitize_full_def to_lowercase_def Let_def split: list.splits)
  then show ?thesis by (simp add: truncate_ident sanitize_full_ident)
qed

lemma sanitize_full_valid: "valid_identifier (take 63 (sanitize_full name))"
proof -
  have "sanitize_full name \<noteq> [] \<and> \<not> is_digit (hd (sanitize_full name))"
    by (auto simp: sanitize_full_def Let_def is_digit_def)
  then show ?thesis
    using sanitize_full_ident [of name] by (auto simp: valid_identifier_def list_all_iff dest: in_set_takeD)
qed

lemma sanitize_valid_id: "valid_identifier s \<Longrightarrow> sanitize_identifier s = s"
proof -
  assume v: "valid_identifier s"
  then have "list_all ident_char s" by (simp add: valid_identifier_def)
  then have "filter (\<lambda>c. is_ascii_alphanumeric c \<or> c = CHR ''_'') s = s" and "map lower_char s = s"
    using ident_char_kept by (auto simp: filter_id_conv list_all_iff map_idI)
  then have "sanitize_full s = s" using v by (simp add: sanitize_full_def valid_identifier_def)
  then show ?thesis using v by (simp add: sanitize_identifier_full valid_identifier_def)
qed

text \<open>C26. Every name, whatever its characters, is sanitized to a valid PostgreSQL identifier (one to 63
  bytes of lower-case letters, digits and underscores, not starting with a digit), and
  sanitizing is idempotent: a valid identifier is left as it is.\<close>

theorem sanitize_identifier_valid:
  "valid_identifier (sanitize_identifier name) \<and>
   sanitize_identifier (sanitize_identifier name) = sanitize_identifier name"
  using sanitize_full_valid [of name] sanitize_valid_id [of "sanitize_identifier name"]
  by (simp add: sanitize_identifier_full)

section \<open>Quoting\<close>

text \<open>SQL's delimited identifiers: after the opening quote, a doubled quote stands for one and a
  single quote ends the identifier.\<close>

fun lex_ident_body :: "string \<Rightarrow> (string \<times> string) option" where
  "lex_ident_body [] = None"
| "lex_ident_body (c # cs) =
     (if c = CHR 0x22 then
        (case cs of
           d # ds \<Rightarrow> if d = CHR 0x22 then map_option (\<lambda>(a, b). (CHR 0x22 # a, b)) (lex_ident_body ds)
                     else Some ([], cs)
         | [] \<Rightarrow> Some ([], []))
      else map_option (\<lambda>(a, b). (c # a, b)) (lex_ident_body cs))"

definition lex_ident :: "string \<Rightarrow> (string \<times> string) option" where
  "lex_ident s = (case s of c # cs \<Rightarrow> if c = CHR 0x22 then lex_ident_body cs else None | [] \<Rightarrow> None)"

lemma replace_char_simps [simp]:
  "replace_char c r [] = []"
  "replace_char c r (x # xs) = (if x = c then r else [x]) @ replace_char c r xs"
  by (simp_all add: replace_char_def)

lemma lex_ident_body_quoted:
  "rest = [] \<or> hd rest \<noteq> CHR 0x22 \<Longrightarrow>
   lex_ident_body (replace_char CHR 0x22 [CHR 0x22, CHR 0x22] name @ CHR 0x22 # rest) = Some (name, rest)"
proof (induction name)
  case Nil
  then show ?case by (cases rest) auto
qed auto

text \<open>C27. No name escapes its quotes: SQL reads the text of \<open>quote_ident\<close>, followed by anything that
  does not start with a quote, as one identifier, which is the name itself, and then the rest.\<close>

theorem quote_ident_lex:
  assumes "rest = [] \<or> hd rest \<noteq> CHR 0x22"
  shows "lex_ident (quote_ident name @ rest) = Some (name, rest)"
  using lex_ident_body_quoted [OF assms] by (simp add: lex_ident_def quote_ident_def)

theorem quote_ident_lex_witness:
  "lex_ident (quote_ident [CHR ''a'', CHR 0x22, CHR '';''] @ ''.t'') = Some ([CHR ''a'', CHR 0x22, CHR '';''], ''.t'')"
  by (rule quote_ident_lex) simp

section \<open>Schema names and columns\<close>

text \<open>What a base58 program id is made of.\<close>

definition base58_id :: "string \<Rightarrow> bool" where
  "base58_id p = (8 \<le> length p \<and> list_all is_ascii_alphanumeric p)"

lemma is_ascii_alphanumeric_ascii: "is_ascii_alphanumeric c \<Longrightarrow> (of_char c :: nat) < 128"
  by (auto simp: is_ascii_alphanumeric_def is_ascii_upper_def is_ascii_lower_def is_digit_def)

lemma take_chars_ascii: "list_all is_ascii_alphanumeric s \<Longrightarrow> take_chars n s = take n s"
proof (induction s arbitrary: n)
  case (Cons c s)
  then show ?case using is_ascii_alphanumeric_ascii [of c] by (cases n) auto
qed simp

lemma derive_schema_name_eq:
  assumes "base58_id p"
  shows "derive_schema_name n p = take 54 (sanitize_full n) @ ''_'' @ map lower_char (take 8 p)"
proof -
  have len: "length (take_chars 8 p) = 8" using assms by (simp add: base58_id_def take_chars_ascii)
  have "truncate_to_bytes (sanitize_identifier n) 54 = take 54 (sanitize_full n)"
    using sanitize_full_ident [of n] sanitize_full_valid [of n]
    by (simp add: sanitize_identifier_full truncate_ident valid_identifier_def)
  then show ?thesis
    using assms len by (simp add: derive_schema_name_def Let_def to_lowercase_def base58_id_def take_chars_ascii)
qed

text \<open>C28. Schema names: for a base58 program id the derived name is a valid identifier within
  PostgreSQL's 63 bytes, and two programs whose ids have different first eight characters after
  lower-casing never share a schema, whatever their IDLs are called. Ids that differ there only in
  the case of letters are not told apart.\<close>

theorem derive_schema_name_isolates:
  assumes "base58_id p" and "base58_id q"
    and "map lower_char (take 8 p) \<noteq> map lower_char (take 8 q)"
  shows "valid_identifier (derive_schema_name n p) \<and> derive_schema_name n p \<noteq> derive_schema_name m q"
proof
  let ?a = "take 54 (sanitize_full n)"
  have "sanitize_full n \<noteq> []" "\<not> is_digit (hd (sanitize_full n))"
    using sanitize_full_valid [of n] by (auto simp: valid_identifier_def)
  then have a: "?a \<noteq> []" "\<not> is_digit (hd ?a)" "length ?a \<le> 54" by auto
  have low: "list_all ident_char (map lower_char (take 8 p))"
    using assms(1) lower_char_ident by (auto simp: base58_id_def list_all_iff dest: in_set_takeD)
  have "list_all ident_char (?a @ ''_'' @ map lower_char (take 8 p))"
    using sanitize_full_ident [of n] low by (auto simp: list_all_iff ident_char_def dest: in_set_takeD)
  then show "valid_identifier (derive_schema_name n p)"
    using a by (simp add: derive_schema_name_eq [OF assms(1)] valid_identifier_def)
  show "derive_schema_name n p \<noteq> derive_schema_name m q"
  proof
    assume "derive_schema_name n p = derive_schema_name m q"
    then have "take 54 (sanitize_full n) @ ''_'' @ map lower_char (take 8 p) =
        take 54 (sanitize_full m) @ ''_'' @ map lower_char (take 8 q)"
      by (simp add: derive_schema_name_eq assms)
    moreover have "length (map lower_char (take 8 p)) = length (map lower_char (take 8 q))"
      using assms(1,2) by (simp add: base58_id_def)
    ultimately have "map lower_char (take 8 p) = map lower_char (take 8 q)"
      by (metis append_eq_append_conv append_assoc)
    then show False using assms(3) by simp
  qed
qed

theorem derive_schema_name_isolates_witness:
  "valid_identifier (derive_schema_name ''My Prog'' ''JUP6LkbZ'') \<and>
   derive_schema_name ''My Prog'' ''JUP6LkbZ'' \<noteq> derive_schema_name ''my prog'' ''JUP4FbZZ''"
  using derive_schema_name_isolates [of "''JUP6LkbZ''" "''JUP4FbZZ''" "''My Prog''" "''my prog''"]
  by (simp add: base58_id_def is_ascii_alphanumeric_def is_ascii_upper_def is_ascii_lower_def is_digit_def
      lower_char_def)

lemma promoted_columns_sound:
  "(col, pg) \<in> set (promoted_columns flds types) \<Longrightarrow>
   \<exists>f \<in> set flds. col = sanitize_identifier (fld_name f) \<and> map_idl_type_to_pg (fld_ty f) types = Some pg \<and>
     col \<notin> set RESERVED_ACCOUNT_COLUMNS"
  by (induction flds) (auto split: option.splits if_splits simp: Let_def)

lemma promoted_columns_distinct:
  "distinct (map (sanitize_identifier \<circ> fld_name) flds) \<Longrightarrow> distinct (map fst (promoted_columns flds types))"
proof (induction flds)
  case (Cons f flds)
  have "sanitize_identifier (fld_name f) \<notin> fst ` set (promoted_columns flds types)"
    using Cons.prems promoted_columns_sound [of _ _ flds types] by force
  then show ?case using Cons by (auto split: option.splits simp: Let_def)
qed simp

text \<open>Account tables: when the fields of an account type have distinct sanitized names, its table
  has no column twice; no promoted column takes the name of one of the seven system columns, and
  a field is promoted exactly when its type maps to a column type and its name is not reserved.\<close>

theorem account_table_columns:
  assumes "distinct (map (sanitize_identifier \<circ> fld_name) flds)"
  shows "distinct (RESERVED_ACCOUNT_COLUMNS @ map fst (promoted_columns flds types)) \<and>
    (\<forall>f \<in> set flds. (sanitize_identifier (fld_name f), pg) \<in> set (promoted_columns flds types) \<longleftrightarrow>
       map_idl_type_to_pg (fld_ty f) types = Some pg \<and>
       sanitize_identifier (fld_name f) \<notin> set RESERVED_ACCOUNT_COLUMNS)"
proof (intro conjI ballI)
  have "distinct RESERVED_ACCOUNT_COLUMNS" by (simp add: RESERVED_ACCOUNT_COLUMNS_def)
  then show "distinct (RESERVED_ACCOUNT_COLUMNS @ map fst (promoted_columns flds types))"
    using promoted_columns_distinct [OF assms] promoted_columns_sound [of _ _ flds types] by force
next
  fix f assume f: "f \<in> set flds"
  have inj: "g \<in> set flds \<Longrightarrow> sanitize_identifier (fld_name g) = sanitize_identifier (fld_name f) \<Longrightarrow> g = f" for g
    using assms f by (auto simp: distinct_map inj_on_def)
  have complete: "map_idl_type_to_pg (fld_ty f) types = Some pg \<Longrightarrow>
      sanitize_identifier (fld_name f) \<notin> set RESERVED_ACCOUNT_COLUMNS \<Longrightarrow>
      (sanitize_identifier (fld_name f), pg) \<in> set (promoted_columns flds types)"
    using f by (induction flds) (auto split: option.splits simp: Let_def)
  show "(sanitize_identifier (fld_name f), pg) \<in> set (promoted_columns flds types) \<longleftrightarrow>
       map_idl_type_to_pg (fld_ty f) types = Some pg \<and>
       sanitize_identifier (fld_name f) \<notin> set RESERVED_ACCOUNT_COLUMNS"
    using complete promoted_columns_sound [of _ pg flds types] inj by metis
qed

theorem account_table_columns_witness:
  "distinct (RESERVED_ACCOUNT_COLUMNS @ map fst (promoted_columns
      [\<lparr> fld_name = ''owner'', fld_ty = TyPubkey \<rparr>, \<lparr> fld_name = ''Data'', fld_ty = TyU8 \<rparr>] []))"
proof -
  have "sanitize_identifier ''owner'' = ''owner''" "sanitize_identifier ''Data'' = ''data''"
    by code_simp+
  then have "distinct (map (sanitize_identifier \<circ> fld_name)
      [\<lparr> fld_name = ''owner'', fld_ty = TyPubkey \<rparr>, \<lparr> fld_name = ''Data'', fld_ty = TyU8 \<rparr>])" by simp
  from account_table_columns [OF this] show ?thesis by blast
qed

end
