(* ===== verification/Writer.thy ===== *)
theory Writer
  imports Schema
begin

text \<open>
  The batch writer (\<open>src/storage/writer.rs\<close>): one transaction per block that inserts the
  instructions, upserts the accounts and moves the checkpoint, and the read of a checkpoint.

  A transaction works on a copy of the program's schema and installs it at commit.
  \<open>fault\<close> says which statements fail and with which text, \<open>pg_eval\<close> is PostgreSQL evaluating the
  expression of a promoted column on a row's \<open>data\<close>, and \<open>hash_order\<close> the order in which the
  \<open>HashMap\<close> of account groups is iterated. Row counts are naturals. A lock of the promoted
  column cache is never poisoned, as nothing panics while it is held.
\<close>

record write_result =
  wr_instructions_written :: nat
  wr_accounts_written :: nat

record checkpoint_info =
  ci_last_slot :: u64
  ci_last_signature :: "string option"

record promoted_column =
  pc_column_name :: string
  pc_data_type :: string

definition COMMON_ACCOUNT_COLUMNS :: "string list" where
  "COMMON_ACCOUNT_COLUMNS =
     [''pubkey'', ''slot_updated'', ''write_version'', ''lamports'', ''data'', ''is_closed'',
      ''updated_at'']"

record storage_writer =
  promoted_cache :: "string \<rightharpoonup> promoted_column list"

definition storage_writer_new :: storage_writer where
  "storage_writer_new = \<lparr> promoted_cache = Map.empty \<rparr>"

datatype write_stmt = WBegin | WInsertIx | WDiscover string | WUpsert string | WCheckpoint | WCommit

type_synonym write_faults = "write_stmt \<Rightarrow> string option"

section \<open>SQL builders\<close>

definition build_instruction_sql :: "string \<Rightarrow> string" where
  "build_instruction_sql schema_name =
     ''INSERT INTO '' @ qualified_name schema_name ''_instructions'' @ nl @
     ''    ('' @ dq ''signature'' @ '', '' @ dq ''slot'' @ '', '' @ dq ''block_time'' @ '', '' @
     dq ''instruction_name'' @ '','' @ nl @
     ''     '' @ dq ''instruction_index'' @ '', '' @ dq ''inner_index'' @ '', '' @ dq ''args'' @ '', '' @
     dq ''accounts'' @ '', '' @ dq ''data'' @ '', '' @ dq ''is_inner_ix'' @ '')'' @ nl @
     ''SELECT * FROM UNNEST('' @ nl @
     ''    $1::TEXT[], $2::BIGINT[], $3::BIGINT[], $4::TEXT[],'' @ nl @
     ''    $5::SMALLINT[], $6::SMALLINT[], $7::JSONB[], $8::JSONB[], $9::JSONB[], $10::BOOLEAN[]'' @ nl @
     '')'' @ nl @
     ''ON CONFLICT ('' @ dq ''signature'' @ '', '' @ dq ''instruction_index'' @ '', COALESCE('' @
     dq ''inner_index'' @ '', -1)) DO NOTHING''"

text \<open>A single-quoted SQL string; the column name's own single quotes are doubled.\<close>

definition sq :: "string \<Rightarrow> string" where
  "sq s = CHR 0x27 # s @ [CHR 0x27]"

definition build_promoted_extract_expr :: "promoted_column \<Rightarrow> string" where
  "build_promoted_extract_expr col =
     (let safe_name = replace_char CHR 0x27 [CHR 0x27, CHR 0x27] (pc_column_name col);
          json_extract = ''data->>'' @ sq safe_name;
          ty = pc_data_type col
      in if ty = ''bigint'' then
           ''CASE WHEN ('' @ json_extract @ '')::NUMERIC > 9223372036854775807 THEN NULL ELSE ('' @
           json_extract @ '')::BIGINT END''
         else if ty = ''integer'' then ''('' @ json_extract @ '')::INTEGER''
         else if ty = ''smallint'' then ''('' @ json_extract @ '')::SMALLINT''
         else if ty = ''boolean'' then ''('' @ json_extract @ '')::BOOLEAN''
         else if ty = ''text'' \<or> ty = ''character varying'' then json_extract
         else if ty = ''double precision'' then ''('' @ json_extract @ '')::DOUBLE PRECISION''
         else if ty = ''real'' then ''('' @ json_extract @ '')::REAL''
         else if ty = ''numeric'' then ''('' @ json_extract @ '')::NUMERIC''
         else ''NULL'')"

definition build_account_upsert_sql :: "string \<Rightarrow> string \<Rightarrow> promoted_column list \<Rightarrow> string" where
  "build_account_upsert_sql schema_name table_name promoted =
     (let qualified = qualified_name schema_name table_name;
          cols = concat (map (\<lambda>c. '', '' @ quote_ident (pc_column_name c)) promoted);
          exprs = concat (map (\<lambda>c. '','' @ nl @ ''    '' @ build_promoted_extract_expr c) promoted);
          updates = concat (map (\<lambda>c. '','' @ nl @ ''    '' @ quote_ident (pc_column_name c) @
                      '' = EXCLUDED.'' @ quote_ident (pc_column_name c)) promoted)
      in ''WITH raw AS ('' @ nl @
         ''    SELECT * FROM UNNEST($1::TEXT[], $2::BIGINT[], $3::BIGINT[], $4::JSONB[])'' @ nl @
         ''    AS t(pubkey, slot_updated, lamports, data)'' @ nl @ '')'' @ nl @
         ''INSERT INTO '' @ qualified @ nl @
         ''    ('' @ dq ''pubkey'' @ '', '' @ dq ''slot_updated'' @ '', '' @ dq ''lamports'' @ '', '' @
         dq ''data'' @ '', '' @ dq ''updated_at'' @ cols @ '')'' @ nl @
         ''SELECT'' @ nl @ ''    pubkey, slot_updated, lamports, data, NOW()'' @ exprs @ nl @
         ''FROM raw'' @ nl @
         ''ON CONFLICT ('' @ dq ''pubkey'' @ '') DO UPDATE SET'' @ nl @
         ''    '' @ dq ''slot_updated'' @ '' = EXCLUDED.'' @ dq ''slot_updated'' @ '','' @ nl @
         ''    '' @ dq ''lamports'' @ '' = EXCLUDED.'' @ dq ''lamports'' @ '','' @ nl @
         ''    '' @ dq ''data'' @ '' = EXCLUDED.'' @ dq ''data'' @ '','' @ nl @
         ''    '' @ dq ''updated_at'' @ '' = NOW()'' @ updates @ nl @
         ''WHERE EXCLUDED.'' @ dq ''slot_updated'' @ '' > '' @ qualified @ ''.'' @ dq ''slot_updated'')"

section \<open>Instructions\<close>

definition safe_u64_to_i64 :: "u64 \<Rightarrow> int option" where
  "safe_u64_to_i64 v = (if unat v \<le> 2 ^ 63 - 1 then Some (sint v) else None)"

record ix_columns =
  col_signatures :: "string list"
  col_slots :: "int list"
  col_block_times :: "int option list"
  col_names :: "string list"
  col_ix_indexes :: "int list"
  col_inner_indexes :: "int option list"
  col_args :: "json list"
  col_accounts :: "json list"
  col_data :: "json list"
  col_is_inner :: "bool list"

definition push_instruction :: "ix_columns \<Rightarrow> decoded_instruction \<Rightarrow> ix_columns" where
  "push_instruction c ix = \<lparr>
     col_signatures = col_signatures c @ [di_signature ix],
     col_slots = col_slots c @ [sint (di_slot ix)],
     col_block_times = col_block_times c @ [di_block_time ix],
     col_names = col_names c @ [di_instruction_name ix],
     col_ix_indexes = col_ix_indexes c @ [uint (di_instruction_index ix)],
     col_inner_indexes = col_inner_indexes c @ [map_option uint (di_inner_index ix)],
     col_args = col_args c @ [di_args ix],
     col_accounts = col_accounts c @ [JArr (map JStr (di_accounts ix))],
     col_data = col_data c @ [di_args ix],
     col_is_inner = col_is_inner c @ [di_inner_index ix \<noteq> None] \<rparr>"

definition decompose_instructions :: "decoded_instruction list \<Rightarrow> ix_columns" where
  "decompose_instructions ixs = foldl push_instruction
     \<lparr> col_signatures = [], col_slots = [], col_block_times = [], col_names = [], col_ix_indexes = [],
       col_inner_indexes = [], col_args = [], col_accounts = [], col_data = [], col_is_inner = [] \<rparr> ixs"

text \<open>\<open>UNNEST\<close> of the ten columns, which have the same length.\<close>

definition unnest_ix :: "ix_columns \<Rightarrow> instruction_row list" where
  "unnest_ix c = map (\<lambda>k. \<lparr>
     ir_id = 0, ir_signature = col_signatures c ! k, ir_slot = col_slots c ! k,
     ir_block_time = col_block_times c ! k, ir_instruction_name = col_names c ! k,
     ir_instruction_index = col_ix_indexes c ! k, ir_inner_index = col_inner_indexes c ! k,
     ir_args = col_args c ! k, ir_accounts = col_accounts c ! k, ir_data = col_data c ! k,
     ir_is_inner_ix = col_is_inner c ! k \<rparr>) [0 ..< length (col_signatures c)]"

definition write_instructions ::
  "write_faults \<Rightarrow> string \<Rightarrow> decoded_instruction list \<Rightarrow> program_schema option \<Rightarrow>
   storage_error + nat \<times> program_schema option" where
  "write_instructions fault schema_name ixs tx =
     (if ixs = [] then Inr (0, tx)
      else case tx of
        None \<Rightarrow> Inl (WriteFailed (''instruction insert failed: '' @ no_relation schema_name ''_instructions''))
      | Some ps \<Rightarrow>
          (case fault WInsertIx of
             Some e \<Rightarrow> Inl (WriteFailed (''instruction insert failed: '' @ e))
           | None \<Rightarrow>
               (let ((nid, rows), n) = insert_ixs (ps_next_id ps, ps_instructions ps)
                                         (unnest_ix (decompose_instructions ixs))
                in Inr (n, Some (ps\<lparr> ps_next_id := nid, ps_instructions := rows \<rparr>)))))"

section \<open>Accounts\<close>

definition promoted_values ::
  "(string \<Rightarrow> json \<Rightarrow> string + string option) \<Rightarrow> promoted_column list \<Rightarrow> json \<Rightarrow>
   string + (string \<times> string option) list" where
  "promoted_values pg_eval promoted data =
     collectR (\<lambda>c. bindR (pg_eval (build_promoted_extract_expr c) data) (\<lambda>v. Inr (pc_column_name c, v)))
       promoted"

fun upsert_rows ::
  "(string \<Rightarrow> json \<Rightarrow> string + string option) \<Rightarrow> promoted_column list \<Rightarrow> upsert_state \<Rightarrow>
   decoded_account list \<Rightarrow> string + upsert_state" where
  "upsert_rows pg_eval promoted s [] = Inr s"
| "upsert_rows pg_eval promoted s (a # rest) =
     bindR (promoted_values pg_eval promoted (da_data a)) (\<lambda>pv.
     bindR (upsert_account s (da_pubkey a, sint (da_slot_updated a), sint (da_lamports a), da_data a, pv))
       (\<lambda>s'. upsert_rows pg_eval promoted s' rest))"

definition write_accounts_batch ::
  "write_faults \<Rightarrow> (string \<Rightarrow> json \<Rightarrow> string + string option) \<Rightarrow> string \<Rightarrow> string \<Rightarrow>
   decoded_account list \<Rightarrow> promoted_column list \<Rightarrow> program_schema option \<Rightarrow>
   storage_error + nat \<times> program_schema option" where
  "write_accounts_batch fault pg_eval schema_name table_name accounts promoted tx =
     map_errR (\<lambda>e. WriteFailed (''account upsert failed for '' @ table_name @ '': '' @ e))
       (case Option.bind tx (\<lambda>ps. ps_accounts ps table_name) of
          None \<Rightarrow> Inl (no_relation schema_name table_name)
        | Some t \<Rightarrow>
            (case fault (WUpsert table_name) of
               Some e \<Rightarrow> Inl e
             | None \<Rightarrow>
                 bindR (upsert_rows pg_eval promoted
                          \<lparr> us_rows = at_rows t, us_touched = {}, us_count = 0 \<rparr> accounts) (\<lambda>s.
                   Inr (us_count s,
                        map_option (\<lambda>ps. ps\<lparr> ps_accounts := (ps_accounts ps)(table_name \<mapsto>
                          t\<lparr> at_rows := us_rows s \<rparr>) \<rparr>) tx))))"

definition discover_promoted_columns ::
  "write_faults \<Rightarrow> database \<Rightarrow> string \<Rightarrow> string \<Rightarrow> storage_error + promoted_column list" where
  "discover_promoted_columns fault db schema_name table_name =
     (case fault (WDiscover table_name) of
        Some e \<Rightarrow> Inl (WriteFailed (''promoted column discovery failed: '' @ e))
      | None \<Rightarrow>
          Inr (case Option.bind (db_schemas db schema_name) (\<lambda>ps. ps_accounts ps table_name) of
                 None \<Rightarrow> []
               | Some t \<Rightarrow> map (\<lambda>(n, ty). \<lparr> pc_column_name = n, pc_data_type = ty \<rparr>)
                             (filter (\<lambda>(n, ty). n \<notin> set COMMON_ACCOUNT_COLUMNS) (at_columns t))))"

definition get_or_discover_promoted ::
  "write_faults \<Rightarrow> database \<Rightarrow> storage_writer \<Rightarrow> string \<Rightarrow> string \<Rightarrow> string \<Rightarrow>
   storage_error + promoted_column list \<times> storage_writer" where
  "get_or_discover_promoted fault db w schema_name table_name cache_key =
     (case promoted_cache w cache_key of
        Some cached \<Rightarrow> Inr (cached, w)
      | None \<Rightarrow>
          bindR (discover_promoted_columns fault db schema_name table_name) (\<lambda>columns.
            Inr (columns, w\<lparr> promoted_cache := (promoted_cache w)(cache_key \<mapsto> columns) \<rparr>)))"

text \<open>
  The loop over the groups. The cache is updated through a shared reference and outlives a
  rollback, so it is threaded beside the result.
\<close>

fun write_groups ::
  "write_faults \<Rightarrow> (string \<Rightarrow> json \<Rightarrow> string + string option) \<Rightarrow> database \<Rightarrow> string \<Rightarrow>
   decoded_account list \<Rightarrow> string list \<Rightarrow> nat \<Rightarrow> program_schema option \<Rightarrow> storage_writer \<Rightarrow>
   (storage_error + nat \<times> program_schema option) \<times> storage_writer" where
  "write_groups fault pg_eval db schema_name accounts [] tot tx w = (Inr (tot, tx), w)"
| "write_groups fault pg_eval db schema_name accounts (account_type # types) tot tx w =
     (let table_name = sanitize_identifier account_type;
          type_accounts = filter (\<lambda>a. da_account_type a = account_type) accounts
      in case get_or_discover_promoted fault db w schema_name table_name
                (schema_name @ ''.'' @ table_name) of
           Inl e \<Rightarrow> (Inl e, w)
         | Inr (promoted, w') \<Rightarrow>
             (case write_accounts_batch fault pg_eval schema_name table_name type_accounts promoted tx of
                Inl e \<Rightarrow> (Inl e, w')
              | Inr (n, tx') \<Rightarrow> write_groups fault pg_eval db schema_name accounts types (tot + n) tx' w'))"

definition write_accounts_inner ::
  "write_faults \<Rightarrow> (string \<Rightarrow> json \<Rightarrow> string + string option) \<Rightarrow> (string list \<Rightarrow> string list) \<Rightarrow>
   database \<Rightarrow> string \<Rightarrow> decoded_account list \<Rightarrow> program_schema option \<Rightarrow> storage_writer \<Rightarrow>
   (storage_error + nat \<times> program_schema option) \<times> storage_writer" where
  "write_accounts_inner fault pg_eval hash_order db schema_name accounts tx w =
     (if accounts = [] then (Inr (0, tx), w)
      else write_groups fault pg_eval db schema_name accounts
             (hash_order (remdups (map da_account_type accounts))) 0 tx w)"

section \<open>Checkpoints\<close>

definition char_count :: "string \<Rightarrow> nat" where
  "char_count s = length (filter (\<lambda>c. \<not> (128 \<le> (of_char c :: nat) \<and> (of_char c :: nat) < 192)) s)"

definition update_checkpoint ::
  "write_faults \<Rightarrow> string \<Rightarrow> string \<Rightarrow> u64 \<Rightarrow> string option \<Rightarrow> program_schema option \<Rightarrow>
   storage_error + program_schema option" where
  "update_checkpoint fault schema_name stream slot sig tx =
     (case tx of
        None \<Rightarrow> Inl (CheckpointFailed (''checkpoint update failed: '' @ no_relation schema_name ''_checkpoints''))
      | Some ps \<Rightarrow>
          (case (if sig \<noteq> None \<and> 88 < char_count (the sig)
                 then Some ''error returned from database: value too long for type character varying(88)''
                 else fault WCheckpoint) of
             Some e \<Rightarrow> Inl (CheckpointFailed (''checkpoint update failed: '' @ e))
           | None \<Rightarrow> Inr (Some (upsert_checkpoint stream (sint slot) sig ps))))"

definition read_checkpoint ::
  "string option \<Rightarrow> database \<Rightarrow> string \<Rightarrow> string \<Rightarrow> storage_error + checkpoint_info option" where
  "read_checkpoint fault db schema_name stream =
     (case (case db_schemas db schema_name of
              None \<Rightarrow> Inl (no_relation schema_name ''_checkpoints'')
            | Some ps \<Rightarrow> (case fault of Some e \<Rightarrow> Inl e | None \<Rightarrow> Inr (ps_checkpoints ps stream))) of
        Inl e \<Rightarrow> Inl (CheckpointFailed (''checkpoint read failed: '' @ e))
      | Inr None \<Rightarrow> Inr None
      | Inr (Some row) \<Rightarrow>
          Inr (case cp_last_slot row of
                 None \<Rightarrow> None
               | Some slot \<Rightarrow>
                   if slot < 0 then None
                   else Some \<lparr> ci_last_slot = of_int slot, ci_last_signature = cp_last_signature row \<rparr>))"

section \<open>The transaction\<close>

definition write_block ::
  "write_faults \<Rightarrow> (string \<Rightarrow> json \<Rightarrow> string + string option) \<Rightarrow> (string list \<Rightarrow> string list) \<Rightarrow>
   string \<Rightarrow> string \<Rightarrow> decoded_instruction list \<Rightarrow> decoded_account list \<Rightarrow> u64 \<Rightarrow> string option \<Rightarrow>
   storage_writer \<Rightarrow> database \<Rightarrow> (storage_error + write_result) \<times> storage_writer \<times> database" where
  "write_block fault pg_eval hash_order schema_name stream ixs accounts slot sig w db =
     (case fault WBegin of
        Some e \<Rightarrow> (Inl (WriteFailed (''transaction begin failed: '' @ e)), w, db)
      | None \<Rightarrow>
          (case write_instructions fault schema_name ixs (db_schemas db schema_name) of
             Inl e \<Rightarrow> (Inl e, w, db)
           | Inr (instructions_written, tx1) \<Rightarrow>
               (case write_accounts_inner fault pg_eval hash_order db schema_name accounts tx1 w of
                  (Inl e, w') \<Rightarrow> (Inl e, w', db)
                | (Inr (accounts_written, tx2), w') \<Rightarrow>
                    (case update_checkpoint fault schema_name stream slot sig tx2 of
                       Inl e \<Rightarrow> (Inl e, w', db)
                     | Inr tx3 \<Rightarrow>
                         (case fault WCommit of
                            Some e \<Rightarrow> (Inl (WriteFailed (''transaction commit failed: '' @ e)), w', db)
                          | None \<Rightarrow>
                              (Inr \<lparr> wr_instructions_written = instructions_written,
                                     wr_accounts_written = accounts_written \<rparr>,
                               w', db\<lparr> db_schemas := (db_schemas db)(schema_name := tx3) \<rparr>))))))"

end
