(* ===== verification/Writer_Correct.thy ===== *)
theory Writer_Correct
  imports Writer
begin

text \<open>
  Correctness of the writer: the transaction is atomic, replays of a block change nothing,
  account rows converge to the newest state whatever the order of arrival, and a checkpoint
  reads back as it was written.
\<close>

section \<open>Instruction rows\<close>

definition ix_row :: "decoded_instruction \<Rightarrow> instruction_row" where
  "ix_row ix = \<lparr>
     ir_id = 0, ir_signature = di_signature ix, ir_slot = sint (di_slot ix),
     ir_block_time = di_block_time ix, ir_instruction_name = di_instruction_name ix,
     ir_instruction_index = uint (di_instruction_index ix),
     ir_inner_index = map_option uint (di_inner_index ix), ir_args = di_args ix,
     ir_accounts = JArr (map JStr (di_accounts ix)), ir_data = di_args ix,
     ir_is_inner_ix = (di_inner_index ix \<noteq> None) \<rparr>"

lemma foldl_push:
  "foldl push_instruction c ixs = \<lparr>
     col_signatures = col_signatures c @ map di_signature ixs,
     col_slots = col_slots c @ map (sint \<circ> di_slot) ixs,
     col_block_times = col_block_times c @ map di_block_time ixs,
     col_names = col_names c @ map di_instruction_name ixs,
     col_ix_indexes = col_ix_indexes c @ map (uint \<circ> di_instruction_index) ixs,
     col_inner_indexes = col_inner_indexes c @ map (map_option uint \<circ> di_inner_index) ixs,
     col_args = col_args c @ map di_args ixs,
     col_accounts = col_accounts c @ map (\<lambda>ix. JArr (map JStr (di_accounts ix))) ixs,
     col_data = col_data c @ map di_args ixs,
     col_is_inner = col_is_inner c @ map (\<lambda>ix. di_inner_index ix \<noteq> None) ixs \<rparr>"
  by (induction ixs arbitrary: c) (simp_all add: push_instruction_def)

lemma unnest_decompose: "unnest_ix (decompose_instructions ixs) = map ix_row ixs"
  by (auto simp: unnest_ix_def decompose_instructions_def foldl_push ix_row_def intro!: nth_equalityI)

abbreviation di_key :: "decoded_instruction \<Rightarrow> string \<times> int \<times> int" where
  "di_key ix \<equiv> ix_key (ix_row ix)"

definition ix_state :: "program_schema \<Rightarrow> nat \<times> instruction_row list" where
  "ix_state ps = (ps_next_id ps, ps_instructions ps)"

lemma write_instructions_Inr:
  "write_instructions fault sn ixs (Some ps) = Inr (n, tx') \<Longrightarrow>
   \<exists>ps'. tx' = Some ps' \<and> ix_state ps' = foldl insert_ix (ix_state ps) (map ix_row ixs) \<and>
     n = length (ps_instructions ps') - length (ps_instructions ps) \<and>
     ps_checkpoints ps' = ps_checkpoints ps \<and> ps_accounts ps' = ps_accounts ps"
  by (auto simp: write_instructions_def insert_ixs_def unnest_decompose ix_state_def Let_def
      split: if_splits option.splits prod.splits)

lemma write_instructions_missing:
  "write_instructions fault sn ixs None = Inr (n, tx') \<Longrightarrow> tx' = None"
  by (auto simp: write_instructions_def split: if_splits)

section \<open>Account groups leave the other tables alone\<close>

definition same_log :: "program_schema option \<Rightarrow> program_schema option \<Rightarrow> bool" where
  "same_log tx tx' = (case (tx, tx') of
     (None, None) \<Rightarrow> True
   | (Some ps, Some ps') \<Rightarrow> ix_state ps' = ix_state ps \<and> ps_checkpoints ps' = ps_checkpoints ps
   | _ \<Rightarrow> False)"

lemma same_log_refl [simp]: "same_log tx tx"
  by (auto simp: same_log_def split: option.splits)

lemma same_log_trans: "same_log a b \<Longrightarrow> same_log b c \<Longrightarrow> same_log a c"
  by (auto simp: same_log_def split: option.splits)

lemma same_log_None: "same_log None tx \<longleftrightarrow> tx = None"
  by (auto simp: same_log_def split: option.splits)

lemma same_log_Some:
  "same_log (Some ps) tx \<longleftrightarrow> (\<exists>ps'. tx = Some ps' \<and> ix_state ps' = ix_state ps \<and> ps_checkpoints ps' = ps_checkpoints ps)"
  by (auto simp: same_log_def split: option.splits)

lemma write_accounts_batch_log:
  "write_accounts_batch fault pg sn tn as pr tx = Inr (n, tx') \<Longrightarrow> same_log tx tx'"
  by (cases tx) (auto simp: write_accounts_batch_def resR same_log_def ix_state_def split: option.splits)

lemma write_groups_log:
  "write_groups fault pg db sn as types tot tx w = (Inr (n, tx'), w') \<Longrightarrow> same_log tx tx'"
proof (induction types arbitrary: tot tx w)
  case (Cons t types)
  from Cons.prems obtain m tx1 w1 where "same_log tx tx1"
    and "write_groups fault pg db sn as types (tot + m) tx1 w1 = (Inr (n, tx'), w')"
    by (auto simp: Let_def split: sum.splits dest!: write_accounts_batch_log)
  then show ?case using Cons.IH by (blast intro: same_log_trans)
qed simp

lemma write_accounts_inner_log:
  "write_accounts_inner fault pg ho db sn as tx w = (Inr (n, tx'), w') \<Longrightarrow> same_log tx tx'"
  by (auto simp: write_accounts_inner_def split: if_splits dest: write_groups_log)

section \<open>Account rows\<close>

text \<open>When a state is newer than the row of its key, and when a row carries a state.\<close>

definition newer :: "decoded_account \<Rightarrow> account_row option \<Rightarrow> bool" where
  "newer a old = (case old of None \<Rightarrow> True | Some r \<Rightarrow> ar_slot_updated r < sint (da_slot_updated a))"

lemma newer_iff: "newer a old \<longleftrightarrow> (\<forall>r. old = Some r \<longrightarrow> ar_slot_updated r < sint (da_slot_updated a))"
  by (auto simp: newer_def split: option.splits)

definition state_row :: "decoded_account \<Rightarrow> account_row \<Rightarrow> bool" where
  "state_row a r = (ar_slot_updated r = sint (da_slot_updated a) \<and> ar_lamports r = sint (da_lamports a) \<and> ar_data r = da_data a)"

text \<open>The effect of one state on the rows of its table.\<close>

definition upsert_one ::
  "(string \<Rightarrow> json \<Rightarrow> string + string option) \<Rightarrow> promoted_column list \<Rightarrow> (string \<rightharpoonup> account_row) \<Rightarrow> decoded_account \<Rightarrow>
   (string \<rightharpoonup> account_row)" where
  "upsert_one pg promoted rows a =
     (case upsert_account \<lparr> us_rows = rows, us_touched = {}, us_count = 0 \<rparr>
        (da_pubkey a, sint (da_slot_updated a), sint (da_lamports a), da_data a,
         case promoted_values pg promoted (da_data a) of Inr pv \<Rightarrow> pv | Inl _ \<Rightarrow> []) of
        Inr s \<Rightarrow> us_rows s | Inl _ \<Rightarrow> rows)"

interpretation acctreg: newest_register "upsert_one pg promoted" "\<lambda>rows. rows" da_pubkey "\<lambda>a. sint (da_slot_updated a)"
    ar_slot_updated state_row for pg promoted
  by unfold_locales (auto simp: upsert_one_def upsert_account_def state_row_def split: option.splits)

lemma upsert_account_one:
  assumes "promoted_values pg promoted (da_data a) = Inr pv"
    and "upsert_account s (da_pubkey a, sint (da_slot_updated a), sint (da_lamports a), da_data a, pv) = Inr s'"
  shows "us_rows s' = upsert_one pg promoted (us_rows s) a"
    and "us_count s' = us_count s + (if newer a (us_rows s (da_pubkey a)) then 1 else 0)"
  using assms by (auto simp: upsert_one_def upsert_account_def newer_def split: option.splits if_splits)

lemma upsert_rows_foldl:
  "upsert_rows pg promoted s as = Inr s' \<Longrightarrow> us_rows s' = foldl (upsert_one pg promoted) (us_rows s) as"
  by (induction as arbitrary: s) (auto simp: resR dest: upsert_account_one(1))

lemma upsert_rows_count:
  "upsert_rows pg promoted s as = Inr s' \<Longrightarrow> distinct (map da_pubkey as) \<Longrightarrow>
   us_count s' = us_count s + length (filter (\<lambda>a. newer a (us_rows s (da_pubkey a))) as)"
proof (induction as arbitrary: s)
  case (Cons a as)
  then obtain pv s1 where pv: "promoted_values pg promoted (da_data a) = Inr pv"
    and s1: "upsert_account s (da_pubkey a, sint (da_slot_updated a), sint (da_lamports a), da_data a, pv) = Inr s1"
    and rest: "upsert_rows pg promoted s1 as = Inr s'"
    by (auto simp: resR)
  note one = upsert_account_one [OF pv s1]
  have "us_rows s1 (da_pubkey b) = us_rows s (da_pubkey b)" if "b \<in> set as" for b
    using that Cons.prems(2) one(1) acctreg.upd_other [of "da_pubkey b" a pg promoted "us_rows s"]
    by (metis distinct.simps(2) image_eqI list.set_map list.simps(9))
  then have "filter (\<lambda>b. newer b (us_rows s1 (da_pubkey b))) as = filter (\<lambda>b. newer b (us_rows s (da_pubkey b))) as"
    by (auto intro: filter_cong)
  then show ?case using Cons.IH [OF rest] Cons.prems(2) one(2) by simp
qed simp

text \<open>
  One cell of the account tables: given the states offered for it, the row left is at least as new
  as all of them, and it is the old row or carries one that is newer than the old row.
\<close>

definition newest_row :: "decoded_account set \<Rightarrow> account_row option \<Rightarrow> account_row option \<Rightarrow> bool" where
  "newest_row S old new =
     (case new of
        None \<Rightarrow> old = None \<and> S = {}
      | Some r \<Rightarrow> (\<forall>a \<in> S. sint (da_slot_updated a) \<le> ar_slot_updated r) \<and>
                  (old = Some r \<or> (\<exists>a \<in> S. newer a old \<and> state_row a r)))"

lemma newest_row_empty [simp]: "newest_row {} old new \<longleftrightarrow> new = old"
  by (auto simp: newest_row_def split: option.splits)

lemma newest_row_trans:
  assumes "newest_row S old mid" and "newest_row T mid new"
  shows "newest_row (S \<union> T) old new"
proof (cases mid)
  case None
  then show ?thesis using assms by (auto simp: newest_row_def newer_def split: option.splits)
next
  case (Some m)
  show ?thesis
  proof (cases "new = mid")
    case True
    then show ?thesis using assms Some by (auto simp: newest_row_def split: option.splits)
  next
    case False
    then obtain b r where b: "b \<in> T" "ar_slot_updated m < sint (da_slot_updated b)" "state_row b r" "new = Some r"
      "\<forall>a \<in> T. sint (da_slot_updated a) \<le> ar_slot_updated r"
      using assms(2) Some by (auto simp: newest_row_def newer_def split: option.splits)
    then have "\<forall>a \<in> S \<union> T. sint (da_slot_updated a) \<le> ar_slot_updated r"
      using assms(1) Some by (force simp: newest_row_def state_row_def)
    moreover have "newer b old"
      using assms(1) Some b(2) by (auto simp: newest_row_def newer_def state_row_def split: option.splits)
    ultimately show ?thesis using b by (auto simp: newest_row_def)
  qed
qed

lemma newest_row_unique:
  assumes "newest_row S old r1" and "newest_row S old r2"
    and "\<And>a b. a \<in> S \<Longrightarrow> b \<in> S \<Longrightarrow> da_slot_updated a = da_slot_updated b \<Longrightarrow> da_lamports a = da_lamports b \<and> da_data a = da_data b"
  shows "map_option (\<lambda>r. (ar_slot_updated r, ar_lamports r, ar_data r)) r1 =
         map_option (\<lambda>r. (ar_slot_updated r, ar_lamports r, ar_data r)) r2"
proof (cases "r1 = old \<or> r2 = old")
  case True
  then show ?thesis using assms(1,2)
    by (cases r1; cases r2; cases old) (force simp: newest_row_def newer_def state_row_def)+
next
  case False
  then obtain x y a b where xy: "r1 = Some x" "r2 = Some y" and ab: "a \<in> S" "state_row a x" "b \<in> S" "state_row b y"
    and le: "\<forall>c \<in> S. sint (da_slot_updated c) \<le> ar_slot_updated x" "\<forall>c \<in> S. sint (da_slot_updated c) \<le> ar_slot_updated y"
    using assms(1,2) unfolding newest_row_def by (auto split: option.splits)
  then have "sint (da_slot_updated a) = sint (da_slot_updated b)" unfolding state_row_def by (intro antisym) auto
  then have "da_slot_updated a = da_slot_updated b" by (simp add: sint_u64_inj)
  then show ?thesis using assms(3) [of a b] xy ab by (simp add: state_row_def)
qed

text \<open>The row of a key in a table, and all the account tables together.\<close>

definition row_at :: "program_schema option \<Rightarrow> string \<Rightarrow> string \<Rightarrow> account_row option" where
  "row_at tx tn k = Option.bind tx (\<lambda>ps. Option.bind (ps_accounts ps tn) (\<lambda>t. at_rows t k))"

abbreviation table_of :: "decoded_account \<Rightarrow> string" where
  "table_of a \<equiv> sanitize_identifier (da_account_type a)"

definition states_for :: "decoded_account set \<Rightarrow> string \<Rightarrow> string \<Rightarrow> decoded_account set" where
  "states_for A tn k = {a \<in> A. table_of a = tn \<and> da_pubkey a = k}"

definition newest_rows ::
  "decoded_account set \<Rightarrow> (string \<Rightarrow> string \<Rightarrow> account_row option) \<Rightarrow> (string \<Rightarrow> string \<Rightarrow> account_row option) \<Rightarrow> bool" where
  "newest_rows A f g = (\<forall>tn k. newest_row (states_for A tn k) (f tn k) (g tn k))"

lemma newest_rows_empty [simp]: "newest_rows {} f g \<longleftrightarrow> g = f"
  by (auto simp: newest_rows_def states_for_def fun_eq_iff)

lemma newest_rows_trans: "newest_rows A f g \<Longrightarrow> newest_rows B g h \<Longrightarrow> newest_rows (A \<union> B) f h"
proof -
  assume "newest_rows A f g" "newest_rows B g h"
  moreover have "states_for (A \<union> B) tn k = states_for A tn k \<union> states_for B tn k" for tn k
    by (auto simp: states_for_def)
  ultimately show ?thesis unfolding newest_rows_def by (metis newest_row_trans)
qed

lemma newest_rows_other: "newest_rows A f g \<Longrightarrow> k \<notin> da_pubkey ` A \<Longrightarrow> g tn k = f tn k"
proof -
  assume n: "newest_rows A f g" and k: "k \<notin> da_pubkey ` A"
  from k have "states_for A tn k = {}" by (auto simp: states_for_def)
  then show ?thesis using n by (metis newest_rows_def newest_row_empty)
qed

lemma write_accounts_batch_rows:
  assumes "write_accounts_batch fault pg sn tn as promoted tx = Inr (n, tx')" and "\<And>a. a \<in> set as \<Longrightarrow> table_of a = tn"
  shows "newest_rows (set as) (row_at tx) (row_at tx')"
    and "distinct (map da_pubkey as) \<Longrightarrow> n = length (filter (\<lambda>a. newer a (row_at tx tn (da_pubkey a))) as)"
proof -
  obtain ps t s where e: "tx = Some ps" "ps_accounts ps tn = Some t"
      "upsert_rows pg promoted \<lparr> us_rows = at_rows t, us_touched = {}, us_count = 0 \<rparr> as = Inr s" "n = us_count s"
      "tx' = Some (ps\<lparr> ps_accounts := (ps_accounts ps)(tn \<mapsto> t\<lparr> at_rows := us_rows s \<rparr>) \<rparr>)"
    using assms(1) by (cases tx) (auto simp: write_accounts_batch_def resR split: option.splits)
  have rows: "us_rows s = foldl (upsert_one pg promoted) (at_rows t) as" using upsert_rows_foldl [OF e(3)] by simp
  have "newest_row {a \<in> set as. da_pubkey a = k} (at_rows t k) (us_rows s k)" for k
    using acctreg.foldl_None [of pg promoted "at_rows t" as k] acctreg.foldl_newest [of pg promoted "at_rows t" as k]
    unfolding rows newest_row_def newer_iff by (auto split: option.splits)
  moreover have "states_for (set as) tn' k = (if tn' = tn then {a \<in> set as. da_pubkey a = k} else {})" for tn' k
    using assms(2) by (auto simp: states_for_def)
  ultimately show "newest_rows (set as) (row_at tx) (row_at tx')" using e by (simp add: newest_rows_def row_at_def)
  show "n = length (filter (\<lambda>a. newer a (row_at tx tn (da_pubkey a))) as)" if "distinct (map da_pubkey as)"
    using upsert_rows_count [OF e(3) that] e by (simp add: row_at_def)
qed

lemma write_groups_rows:
  "write_groups fault pg db sn as types tot tx w = (Inr (n, tx'), w') \<Longrightarrow>
   newest_rows {a \<in> set as. da_account_type a \<in> set types} (row_at tx) (row_at tx')"
proof (induction types arbitrary: tot tx w)
  case (Cons ty types)
  let ?as = "filter (\<lambda>a. da_account_type a = ty) as"
  obtain promoted w1 m tx1 where b: "write_accounts_batch fault pg sn (sanitize_identifier ty) ?as promoted tx = Inr (m, tx1)"
    and rest: "write_groups fault pg db sn as types (tot + m) tx1 w1 = (Inr (n, tx'), w')"
    using Cons.prems by (auto simp: Let_def split: sum.splits)
  have "newest_rows (set ?as) (row_at tx) (row_at tx1)" by (rule write_accounts_batch_rows(1) [OF b]) auto
  from newest_rows_trans [OF this Cons.IH [OF rest]]
  show ?case by (rule back_subst [where P = "\<lambda>A. newest_rows A _ _"]) auto
qed simp

lemma write_groups_count:
  assumes "distinct (map da_pubkey as)"
  shows "write_groups fault pg db sn as types tot tx w = (Inr (n, tx'), w') \<Longrightarrow> distinct types \<Longrightarrow>
    n = tot + length (filter (\<lambda>a. da_account_type a \<in> set types \<and> newer a (row_at tx (table_of a) (da_pubkey a))) as)"
proof (induction types arbitrary: tot tx w)
  case (Cons ty types)
  let ?as = "filter (\<lambda>a. da_account_type a = ty) as"
  let ?N = "\<lambda>tx a. newer a (row_at tx (table_of a) (da_pubkey a))"
  obtain promoted w1 m tx1 where b: "write_accounts_batch fault pg sn (sanitize_identifier ty) ?as promoted tx = Inr (m, tx1)"
    and rest: "write_groups fault pg db sn as types (tot + m) tx1 w1 = (Inr (n, tx'), w')"
    using Cons.prems(1) by (auto simp: Let_def split: sum.splits)
  have inj: "a = c" if "a \<in> set as" "c \<in> set as" "da_pubkey a = da_pubkey c" for a c
    using that assms by (meson distinct_map inj_onD)
  have tab: "\<And>a. a \<in> set ?as \<Longrightarrow> table_of a = sanitize_identifier ty" by auto
  have "m = length (filter (\<lambda>a. newer a (row_at tx (sanitize_identifier ty) (da_pubkey a))) ?as)"
    using write_accounts_batch_rows(2) [OF b tab] distinct_map_filter [OF assms] by auto
  also have "\<dots> = length (filter (\<lambda>a. da_account_type a = ty \<and> ?N tx a) as)"
    by (simp add: conj_commute) (metis (mono_tags, lifting) filter_cong)
  finally have m: "m = length (filter (\<lambda>a. da_account_type a = ty \<and> ?N tx a) as)" .
  have "?N tx1 a = ?N tx a" if a: "a \<in> set as" "da_account_type a \<noteq> ty" for a
  proof -
    have "da_pubkey a \<notin> da_pubkey ` set ?as" using inj [OF a(1)] a(2) by fastforce
    then show ?thesis using newest_rows_other [OF write_accounts_batch_rows(1) [OF b tab]] by simp
  qed
  then have "filter (\<lambda>a. da_account_type a \<in> set types \<and> ?N tx1 a) as =
      filter (\<lambda>a. \<not> da_account_type a = ty \<and> da_account_type a \<in> set types \<and> ?N tx a) as"
    using Cons.prems(2) by (intro filter_cong) auto
  moreover have "length (filter (\<lambda>a. da_account_type a \<in> set (ty # types) \<and> ?N tx a) as) =
      length (filter (\<lambda>a. da_account_type a = ty \<and> ?N tx a) as) +
      length (filter (\<lambda>a. \<not> da_account_type a = ty \<and> da_account_type a \<in> set types \<and> ?N tx a) as)"
    by (induction as) auto
  ultimately show ?case using Cons.IH [OF rest] Cons.prems(2) m by simp
qed simp

text \<open>The iteration order of a hash map is some order of its keys.\<close>

definition some_order :: "(string list \<Rightarrow> string list) \<Rightarrow> bool" where
  "some_order ho = (\<forall>xs. distinct xs \<longrightarrow> distinct (ho xs) \<and> set (ho xs) = set xs)"

lemma write_accounts_inner_rows:
  assumes "some_order ho" and "write_accounts_inner fault pg ho db sn as tx w = (Inr (n, tx'), w')"
  shows "newest_rows (set as) (row_at tx) (row_at tx')"
    and "distinct (map da_pubkey as) \<Longrightarrow> n = length (filter (\<lambda>a. newer a (row_at tx (table_of a) (da_pubkey a))) as)"
proof -
  let ?types = "ho (remdups (map da_account_type as))"
  have ty: "distinct ?types" "set ?types = da_account_type ` set as" using assms(1) by (simp_all add: some_order_def)
  then have all: "{a \<in> set as. da_account_type a \<in> set ?types} = set as" by auto
  have g: "write_groups fault pg db sn as ?types 0 tx w = (Inr (n, tx'), w')" if "as \<noteq> []"
    using assms(2) that by (simp add: write_accounts_inner_def)
  show "newest_rows (set as) (row_at tx) (row_at tx')"
    using assms(2) write_groups_rows [OF g] all by (cases "as = []") (auto simp: write_accounts_inner_def)
  show "n = length (filter (\<lambda>a. newer a (row_at tx (table_of a) (da_pubkey a))) as)" if d: "distinct (map da_pubkey as)"
  proof (cases "as = []")
    case False
    have "filter (\<lambda>a. da_account_type a \<in> set ?types \<and> newer a (row_at tx (table_of a) (da_pubkey a))) as =
        filter (\<lambda>a. newer a (row_at tx (table_of a) (da_pubkey a))) as"
      using ty(2) by (intro filter_cong) auto
    then show ?thesis using write_groups_count [OF d g ty(1)] False by simp
  qed (use assms(2) in \<open>simp add: write_accounts_inner_def\<close>)
qed

section \<open>The transaction\<close>

lemma write_block_Inl: "write_block fault pg ho sn stream ixs as slot sig w db = (Inl e, w', db') \<Longrightarrow> db' = db"
  by (auto simp: write_block_def split: option.splits sum.splits prod.splits)

lemma write_block_Inr:
  assumes "write_block fault pg ho sn stream ixs as slot sig w db = (Inr r, w', db')"
  shows "\<exists>ps ps'. db_schemas db sn = Some ps \<and>
    db' = db\<lparr> db_schemas := (db_schemas db)(sn \<mapsto> ps') \<rparr> \<and>
    ix_state ps' = foldl insert_ix (ix_state ps) (map ix_row ixs) \<and>
    ps_checkpoints ps' = (ps_checkpoints ps)(stream \<mapsto> \<lparr> cp_last_slot = Some (sint slot), cp_last_signature = sig \<rparr>) \<and>
    wr_instructions_written r = length (ps_instructions ps') - length (ps_instructions ps)"
proof -
  from assms obtain n tx1 m tx2 tx3 where
    ix: "write_instructions fault sn ixs (db_schemas db sn) = Inr (n, tx1)"
    and acc: "write_accounts_inner fault pg ho db sn as tx1 w = (Inr (m, tx2), w')"
    and cp: "update_checkpoint fault sn stream slot sig tx2 = Inr tx3"
    and db': "db' = db\<lparr> db_schemas := (db_schemas db)(sn := tx3) \<rparr>"
    and r: "wr_instructions_written r = n"
    by (auto simp: write_block_def split: option.splits sum.splits prod.splits)
  from cp obtain ps2 where ps2: "tx2 = Some ps2" "tx3 = Some (upsert_checkpoint stream (sint slot) sig ps2)"
    by (auto simp: update_checkpoint_def split: option.splits)
  note log = write_accounts_inner_log [OF acc]
  obtain ps where ps: "db_schemas db sn = Some ps"
    using ix log ps2(1) write_instructions_missing [of fault sn ixs n tx1]
    by (cases "db_schemas db sn") (auto simp: same_log_None)
  from write_instructions_Inr [OF ix [unfolded ps]] obtain ps1 where
    ps1: "tx1 = Some ps1" "ix_state ps1 = foldl insert_ix (ix_state ps) (map ix_row ixs)"
      "n = length (ps_instructions ps1) - length (ps_instructions ps)" "ps_checkpoints ps1 = ps_checkpoints ps"
    by blast
  from log ps1(1) ps2(1) have "ix_state ps2 = ix_state ps1" "ps_checkpoints ps2 = ps_checkpoints ps1"
    by (auto simp: same_log_Some)
  then show ?thesis
    using ps ps1 ps2 db' r
    by (auto simp: upsert_checkpoint_def ix_state_def)
qed

lemma write_block_accounts:
  assumes "write_block fault pg ho sn stream ixs as slot sig w db = (Inr r, w', db')" and "some_order ho"
  shows "newest_rows (set as) (row_at (db_schemas db sn)) (row_at (db_schemas db' sn))"
    and "distinct (map da_pubkey as) \<Longrightarrow>
      wr_accounts_written r = length (filter (\<lambda>a. newer a (row_at (db_schemas db sn) (table_of a) (da_pubkey a))) as)"
proof -
  from assms(1) obtain n tx1 m tx2 tx3 where
    ix: "write_instructions fault sn ixs (db_schemas db sn) = Inr (n, tx1)"
    and acc: "write_accounts_inner fault pg ho db sn as tx1 w = (Inr (m, tx2), w')"
    and cp: "update_checkpoint fault sn stream slot sig tx2 = Inr tx3"
    and db': "db' = db\<lparr> db_schemas := (db_schemas db)(sn := tx3) \<rparr>" and r: "wr_accounts_written r = m"
    by (auto simp: write_block_def split: option.splits sum.splits prod.splits)
  have "row_at tx1 = row_at (db_schemas db sn)"
    using ix write_instructions_missing [of fault sn ixs n tx1] write_instructions_Inr [of fault sn ixs _ n tx1]
    by (cases "db_schemas db sn") (fastforce simp: row_at_def fun_eq_iff)+
  moreover have "row_at tx3 = row_at tx2"
    using cp by (auto simp: update_checkpoint_def upsert_checkpoint_def row_at_def fun_eq_iff split: option.splits)
  moreover note write_accounts_inner_rows [OF assms(2) acc]
  ultimately show "newest_rows (set as) (row_at (db_schemas db sn)) (row_at (db_schemas db' sn))"
    and "distinct (map da_pubkey as) \<Longrightarrow>
      wr_accounts_written r = length (filter (\<lambda>a. newer a (row_at (db_schemas db sn) (table_of a) (da_pubkey a))) as)"
    using db' r by simp_all
qed

lemma ix_state_rows: "snd (ix_state ps) = ps_instructions ps"
  by (simp add: ix_state_def)

text \<open>C3. Atomicity of \<open>write_block\<close>: it either fails and leaves the database as it was, or succeeds and
  then, together: every instruction of the block is in the table under its key, no earlier row is
  lost, keys stay unique and the count reported is the number of rows added; every row of the
  account tables is at least as new as every state of the block for it, and is the row of before
  or a newer state of the block, so a table or key the block does not mention is untouched, and
  the count reported is the number of states newer than their rows when the block has one state
  per account; the checkpoint of the stream is the block's slot and signature, and every other
  stream keeps its own. The iteration order of the \<open>HashMap\<close> of account types is any order.\<close>

theorem write_block_atomic:
  assumes "write_block fault pg ho sn stream ixs accts slot sig w db = (res, w', db')" and "some_order ho"
  shows "case res of
      Inl e \<Rightarrow> db' = db
    | Inr r \<Rightarrow> \<exists>ps ps'. db_schemas db sn = Some ps \<and>
        db' = db\<lparr> db_schemas := (db_schemas db)(sn \<mapsto> ps') \<rparr> \<and>
        ix_key ` set (ps_instructions ps') = ix_key ` set (ps_instructions ps) \<union> di_key ` set ixs \<and>
        prefix (ps_instructions ps) (ps_instructions ps') \<and>
        (ix_table_ok (ps_instructions ps) \<longrightarrow> ix_table_ok (ps_instructions ps')) \<and>
        wr_instructions_written r = length (ps_instructions ps') - length (ps_instructions ps) \<and>
        newest_rows (set accts) (row_at (Some ps)) (row_at (Some ps')) \<and>
        (distinct (map da_pubkey accts) \<longrightarrow>
          wr_accounts_written r = length (filter (\<lambda>a. newer a (row_at (Some ps) (table_of a) (da_pubkey a))) accts)) \<and>
        ps_checkpoints ps' = (ps_checkpoints ps)(stream \<mapsto>
          \<lparr> cp_last_slot = Some (sint slot), cp_last_signature = sig \<rparr>)"
proof (cases res)
  case (Inl e)
  then show ?thesis using assms(1) write_block_Inl by fastforce
next
  case (Inr r)
  from write_block_Inr [OF assms(1) [unfolded Inr]] obtain ps ps' where
    h: "db_schemas db sn = Some ps" "db' = db\<lparr> db_schemas := (db_schemas db)(sn \<mapsto> ps') \<rparr>"
      "ix_state ps' = foldl insert_ix (ix_state ps) (map ix_row ixs)"
      "ps_checkpoints ps' = (ps_checkpoints ps)(stream \<mapsto> \<lparr> cp_last_slot = Some (sint slot), cp_last_signature = sig \<rparr>)"
      "wr_instructions_written r = length (ps_instructions ps') - length (ps_instructions ps)"
    by blast
  have rows: "ps_instructions ps' = snd (foldl insert_ix (ix_state ps) (map ix_row ixs))"
    using h(3) by (metis ix_state_rows)
  have "ix_key ` set (ps_instructions ps') = ix_key ` set (ps_instructions ps) \<union> di_key ` set ixs"
    using ixlog.keys_foldl [of "ix_state ps" "map ix_row ixs"] by (simp add: rows ix_state_rows image_image)
  moreover have "prefix (ps_instructions ps) (ps_instructions ps')"
    using ixlog.foldl_kept [of "ix_state ps" "map ix_row ixs"] by (simp add: rows ix_state_rows)
  moreover have "ix_table_ok (ps_instructions ps) \<longrightarrow> ix_table_ok (ps_instructions ps')"
    using ixlog.foldl_distinct [of "ix_state ps" "map ix_row ixs"]
    by (simp add: rows ix_state_rows ix_table_ok_def)
  moreover note write_block_accounts [OF assms(1) [unfolded Inr] assms(2), unfolded h(1)]
  ultimately show ?thesis using Inr h by auto
qed

definition demo_ps :: program_schema where
  "demo_ps = \<lparr> ps_accounts = [''vault'' \<mapsto> \<lparr> at_columns = [(''pubkey'', ''text'')], at_rows = Map.empty \<rparr>],
     ps_instructions = [], ps_next_id = 1, ps_metadata = Map.empty, ps_checkpoints = Map.empty \<rparr>"

definition demo_db :: database where
  "demo_db = \<lparr> db_programs = Map.empty, db_indexer_state = Map.empty, db_schemas = [''s'' \<mapsto> demo_ps] \<rparr>"

definition demo_decoded :: decoded_instruction where
  "demo_decoded = (instruction_from_decoded ''Prog'' ''set'' JNull)\<lparr> di_signature := ''sig'', di_slot := 5 \<rparr>"

lemma demo_write_block:
  "fst (write_block (\<lambda>_. None) (\<lambda>_ _. Inr None) id ''s'' ''backfill'' [demo_decoded] [] 5 (Some ''sig'')
      storage_writer_new demo_db) = Inr \<lparr> wr_instructions_written = 1, wr_accounts_written = 0 \<rparr>"
  by (simp add: write_block_def write_instructions_def insert_ixs_def unnest_decompose insert_ix_def
      write_accounts_inner_def update_checkpoint_def demo_db_def demo_ps_def char_count_def)

definition demo_account :: "string \<Rightarrow> u64 \<Rightarrow> decoded_account" where
  "demo_account pk slot = (account_from_decoded ''Prog'' ''vault'' pk JNull)\<lparr> da_slot_updated := slot \<rparr>"

lemma demo_vault_table: "sanitize_identifier ''vault'' = ''vault''"
  by code_simp

lemmas demo_account_write = write_block_def write_instructions_def write_accounts_inner_def get_or_discover_promoted_def
  discover_promoted_columns_def write_accounts_batch_def upsert_account_def update_checkpoint_def storage_writer_new_def
  promoted_values_def demo_vault_table demo_db_def demo_ps_def demo_account_def account_from_decoded_def char_count_def
  COMMON_ACCOUNT_COLUMNS_def insert_ixs_def unnest_decompose insert_ix_def

lemma demo_row: "row_at (Some demo_ps) ''vault'' ''a'' = None"
  by (simp add: row_at_def demo_ps_def)

lemma demo_write_account:
  "fst (write_block (\<lambda>_. None) (\<lambda>_ _. Inr None) id ''s'' ''backfill'' [demo_decoded] [demo_account ''a'' 5] 5 (Some ''sig'')
      storage_writer_new demo_db) = Inr \<lparr> wr_instructions_written = 1, wr_accounts_written = 1 \<rparr>"
  by (simp add: demo_account_write Let_def)

theorem write_block_atomic_witness:
  "\<exists>ps' r. db_schemas (snd (snd (write_block (\<lambda>_. None) (\<lambda>_ _. Inr None) id ''s'' ''backfill'' [demo_decoded]
        [demo_account ''a'' 5] 5 (Some ''sig'') storage_writer_new demo_db))) ''s'' = Some ps' \<and>
      ix_key ` set (ps_instructions ps') = {di_key demo_decoded} \<and>
      row_at (Some ps') ''vault'' ''a'' = Some r \<and> state_row (demo_account ''a'' 5) r"
proof -
  obtain res w' db' where eq: "write_block (\<lambda>_. None) (\<lambda>_ _. Inr None) id ''s'' ''backfill'' [demo_decoded]
      [demo_account ''a'' 5] 5 (Some ''sig'') storage_writer_new demo_db = (res, w', db')" by (metis prod_cases3)
  then have "res = Inr \<lparr> wr_instructions_written = 1, wr_accounts_written = 1 \<rparr>"
    using demo_write_account by simp
  with write_block_atomic [OF eq] obtain ps' where ps': "db_schemas db' ''s'' = Some ps'"
      "ix_key ` set (ps_instructions ps') = {di_key demo_decoded}"
      "newest_rows {demo_account ''a'' 5} (row_at (Some demo_ps)) (row_at (Some ps'))"
    by (auto simp: demo_db_def demo_ps_def some_order_def)
  have "states_for {demo_account ''a'' 5} ''vault'' ''a'' = {demo_account ''a'' 5}"
    by (auto simp: states_for_def demo_account_def account_from_decoded_def demo_vault_table)
  then have "newest_row {demo_account ''a'' 5} None (row_at (Some ps') ''vault'' ''a'')"
    using ps'(3) unfolding newest_rows_def by (metis demo_row)
  then show ?thesis using ps' eq by (auto simp: newest_row_def split: option.splits)
qed

text \<open>C11. Replays are harmless: once a block has been written, writing any of its instructions again,
  with any accounts, on any stream and after any number of other successful writes of the same
  instructions, adds no row and leaves the instruction table as it is.\<close>

theorem write_block_replay:
  assumes "write_block fault pg ho sn stream ixs accts slot sig w db = (Inr r, w1, db1)"
    and "write_block fault' pg' ho' sn stream' ixs' accts' slot' sig' w2 db1 = (Inr r', w3, db2)"
    and "set ixs' \<subseteq> set ixs"
  shows "wr_instructions_written r' = 0 \<and>
    map_option ps_instructions (db_schemas db2 sn) = map_option ps_instructions (db_schemas db1 sn)"
proof -
  from write_block_Inr [OF assms(1)] obtain ps ps1 where
    one: "db_schemas db1 sn = Some ps1" "ix_state ps1 = foldl insert_ix (ix_state ps) (map ix_row ixs)"
    by fastforce
  from write_block_Inr [OF assms(2)] one obtain ps2 where
    two: "db_schemas db2 sn = Some ps2" "ix_state ps2 = foldl insert_ix (ix_state ps1) (map ix_row ixs')"
      "wr_instructions_written r' = length (ps_instructions ps2) - length (ps_instructions ps1)"
    by fastforce
  have "set (map ix_row ixs') \<subseteq> set (map ix_row ixs)" using assms(3) by auto
  from ixlog.replay [OF this, of "ix_state ps"] have "ps_instructions ps2 = ps_instructions ps1"
    using one two by (metis ix_state_rows)
  then show ?thesis using one two by simp
qed

lemma demo_write_block_again:
  "fst (write_block (\<lambda>_. None) (\<lambda>_ _. Inr None) id ''s'' ''catchup'' [demo_decoded] [] 5 None w
      (snd (snd (write_block (\<lambda>_. None) (\<lambda>_ _. Inr None) id ''s'' ''backfill'' [demo_decoded] [] 5 (Some ''sig'')
      storage_writer_new demo_db)))) = Inr \<lparr> wr_instructions_written = 0, wr_accounts_written = 0 \<rparr>"
  by (simp add: write_block_def write_instructions_def insert_ixs_def unnest_decompose insert_ix_def
      write_accounts_inner_def update_checkpoint_def demo_db_def demo_ps_def char_count_def
      upsert_checkpoint_def)

theorem write_block_replay_witness:
  "map_option ps_instructions (db_schemas (snd (snd (write_block (\<lambda>_. None) (\<lambda>_ _. Inr None) id ''s'' ''catchup''
      [demo_decoded] [] 5 None storage_writer_new
      (snd (snd (write_block (\<lambda>_. None) (\<lambda>_ _. Inr None) id ''s'' ''backfill'' [demo_decoded] [] 5 (Some ''sig'')
      storage_writer_new demo_db)))))) ''s'') =
   map_option ps_instructions (db_schemas (snd (snd (write_block (\<lambda>_. None) (\<lambda>_ _. Inr None) id ''s'' ''backfill''
      [demo_decoded] [] 5 (Some ''sig'') storage_writer_new demo_db))) ''s'')"
proof -
  obtain r w1 db1 where one: "write_block (\<lambda>_. None) (\<lambda>_ _. Inr None) id ''s'' ''backfill'' [demo_decoded] [] 5
      (Some ''sig'') storage_writer_new demo_db = (r, w1, db1)" by (metis prod_cases3)
  obtain r' w2 db2 where two: "write_block (\<lambda>_. None) (\<lambda>_ _. Inr None) id ''s'' ''catchup'' [demo_decoded] [] 5
      None storage_writer_new db1 = (r', w2, db2)" by (metis prod_cases3)
  have "r = Inr \<lparr> wr_instructions_written = 1, wr_accounts_written = 0 \<rparr>"
    using demo_write_block one by simp
  moreover have "r' = Inr \<lparr> wr_instructions_written = 0, wr_accounts_written = 0 \<rparr>"
    using demo_write_block_again [of storage_writer_new] one two by simp
  ultimately show ?thesis using write_block_replay [of _ _ _ "''s''" _ "[demo_decoded]"] one two
    by (metis order_refl snd_conv)
qed

text \<open>Checkpoints round-trip: after a successful write of a block whose slot fits a signed
  \<open>BIGINT\<close>, reading the stream's checkpoint gives exactly that slot and signature; a slot of
  \<open>2 ^ 63\<close> or more is stored as a negative number and reads back as no checkpoint.\<close>

theorem checkpoint_roundtrip:
  assumes "write_block fault pg ho sn stream ixs accts slot sig w db = (Inr r, w', db')"
  shows "read_checkpoint None db' sn stream =
    Inr (if unat slot < 2 ^ 63 then Some \<lparr> ci_last_slot = slot, ci_last_signature = sig \<rparr> else None)"
proof -
  from write_block_Inr [OF assms] obtain ps' where ps': "db_schemas db' sn = Some ps'"
    "ps_checkpoints ps' stream = Some \<lparr> cp_last_slot = Some (sint slot), cp_last_signature = sig \<rparr>"
    by fastforce
  have "(of_int (sint slot) :: u64) = slot" by simp
  then show ?thesis using ps' by (simp add: read_checkpoint_def sint_u64_neg)
qed

theorem checkpoint_roundtrip_witness:
  "read_checkpoint None (snd (snd (write_block (\<lambda>_. None) (\<lambda>_ _. Inr None) id ''s'' ''backfill'' [demo_decoded] [] 5
      (Some ''sig'') storage_writer_new demo_db))) ''s'' ''backfill'' =
    Inr (Some \<lparr> ci_last_slot = 5, ci_last_signature = Some ''sig'' \<rparr>)"
proof -
  obtain r w1 db1 where one: "write_block (\<lambda>_. None) (\<lambda>_ _. Inr None) id ''s'' ''backfill'' [demo_decoded] [] 5
      (Some ''sig'') storage_writer_new demo_db = (r, w1, db1)" by (metis prod_cases3)
  then have "r = Inr \<lparr> wr_instructions_written = 1, wr_accounts_written = 0 \<rparr>"
    using demo_write_block by simp
  from checkpoint_roundtrip [OF one [unfolded this]] show ?thesis by (simp only: one snd_conv) simp
qed

section \<open>Sequences of writes\<close>

text \<open>
  Any sequence of attempts to write blocks, by any task, on any stream and in any schema: \<open>A\<close> lists
  the account states of the successful ones in schema \<open>sn\<close>.
\<close>

inductive block_writes ::
  "(string \<Rightarrow> json \<Rightarrow> string + string option) \<Rightarrow> (string list \<Rightarrow> string list) \<Rightarrow> string \<Rightarrow> decoded_account list \<Rightarrow>
   database \<Rightarrow> database \<Rightarrow> bool" for pg ho sn where
  none: "block_writes pg ho sn [] db db"
| put: "block_writes pg ho sn A db db1 \<Longrightarrow>
    write_block fault pg ho sn' stream ixs as slot sig w db1 = (r, w', db2) \<Longrightarrow>
    block_writes pg ho sn (A @ (case r of Inl _ \<Rightarrow> [] | Inr _ \<Rightarrow> if sn' = sn then as else [])) db db2"

lemma block_writes_newest:
  assumes "block_writes pg ho sn A db db'" and "some_order ho"
  shows "newest_rows (set A) (row_at (db_schemas db sn)) (row_at (db_schemas db' sn))"
  using assms(1)
proof induction
  case (put A db db1 fault sn' stream ixs as slot sig w r w' db2)
  let ?bs = "case r of Inl _ \<Rightarrow> [] | Inr _ \<Rightarrow> if sn' = sn then as else []"
  have "newest_rows (set ?bs) (row_at (db_schemas db1 sn)) (row_at (db_schemas db2 sn))"
  proof (cases r)
    case (Inl e)
    then show ?thesis using write_block_Inl put.hyps(2) by fastforce
  next
    case (Inr x)
    note wb = put.hyps(2) [unfolded Inr]
    show ?thesis
    proof (cases "sn' = sn")
      case True
      then show ?thesis using write_block_accounts(1) [OF wb assms(2)] Inr by simp
    next
      case False
      then have "db_schemas db2 sn = db_schemas db1 sn" using write_block_Inr [OF wb] by auto
      then show ?thesis using Inr False by simp
    qed
  qed
  from newest_rows_trans [OF put.IH this] show ?case by simp
qed simp

text \<open>C14. Account tables keep the newest state and converge. After any sequence of writes, successful or
  not, every row is at least as new as every state written for it, and is the row of before or a
  state newer than it; so an older state never replaces a newer one. And two such sequences that
  write the same states, in any order, any grouping into blocks and any repetition, with one state
  per account and slot, leave the same slot, balance and data in every row.\<close>

theorem account_batches_converge:
  assumes "block_writes pg ho sn A db db1" and "block_writes pg ho sn B db db2" and "some_order ho"
    and "set A = set B"
    and "\<And>a b. a \<in> set A \<Longrightarrow> b \<in> set A \<Longrightarrow> table_of a = table_of b \<Longrightarrow> da_pubkey a = da_pubkey b \<Longrightarrow>
           da_slot_updated a = da_slot_updated b \<Longrightarrow> da_lamports a = da_lamports b \<and> da_data a = da_data b"
  shows "newest_rows (set A) (row_at (db_schemas db sn)) (row_at (db_schemas db1 sn)) \<and>
    (\<forall>tn k. map_option (\<lambda>r. (ar_slot_updated r, ar_lamports r, ar_data r)) (row_at (db_schemas db1 sn) tn k) =
            map_option (\<lambda>r. (ar_slot_updated r, ar_lamports r, ar_data r)) (row_at (db_schemas db2 sn) tn k))"
proof -
  note n1 = block_writes_newest [OF assms(1,3)] and n2 = block_writes_newest [OF assms(2,3)]
  have "map_option (\<lambda>r. (ar_slot_updated r, ar_lamports r, ar_data r)) (row_at (db_schemas db1 sn) tn k) =
      map_option (\<lambda>r. (ar_slot_updated r, ar_lamports r, ar_data r)) (row_at (db_schemas db2 sn) tn k)" for tn k
    using n1 n2 assms(4,5)
    by (intro newest_row_unique [of "states_for (set A) tn k" "row_at (db_schemas db sn) tn k"])
      (auto simp: newest_rows_def states_for_def)
  with n1 show ?thesis by blast
qed

definition demo_put :: "u64 \<Rightarrow> database \<Rightarrow> (storage_error + write_result) \<times> storage_writer \<times> database" where
  "demo_put s db = write_block (\<lambda>_. None) (\<lambda>_ _. Inr None) id ''s'' ''accounts'' [] [demo_account ''a'' s] s None storage_writer_new db"

text \<open>The states of slots 4 and 5 of one account, in both orders.\<close>

theorem account_batches_converge_witness:
  "\<exists>db1 db2 r. db1 = snd (snd (demo_put 5 (snd (snd (demo_put 4 demo_db))))) \<and>
     db2 = snd (snd (demo_put 4 (snd (snd (demo_put 5 demo_db))))) \<and>
     row_at (db_schemas db2 ''s'') ''vault'' ''a'' = Some r \<and> ar_slot_updated r = 5 \<and>
     map_option (\<lambda>r. (ar_slot_updated r, ar_lamports r, ar_data r)) (row_at (db_schemas db1 ''s'') ''vault'' ''a'') =
     map_option (\<lambda>r. (ar_slot_updated r, ar_lamports r, ar_data r)) (row_at (db_schemas db2 ''s'') ''vault'' ''a'')"
proof -
  let ?pg = "\<lambda>_ _. Inr None :: string + string option"
  have put: "\<exists>r1 w1 d1 r2 w2 d2. demo_put x demo_db = (Inr r1, w1, d1) \<and> demo_put y d1 = (Inr r2, w2, d2)"
    if "(x, y) = (4, 5) \<or> (x, y) = (5, 4)" for x y
    using that by (auto simp: demo_put_def demo_account_write upsert_checkpoint_def Let_def)
  have seq: "block_writes ?pg id ''s'' [demo_account ''a'' x, demo_account ''a'' y] demo_db
      (snd (snd (demo_put y (snd (snd (demo_put x demo_db))))))"
    if xy: "(x, y) = (4, 5) \<or> (x, y) = (5, 4)" for x y
  proof -
    from put [OF xy] obtain r1 w1 d1 r2 w2 d2 where p: "demo_put x demo_db = (Inr r1, w1, d1)" "demo_put y d1 = (Inr r2, w2, d2)"
      by (elim exE conjE) (rule that)
    have "block_writes ?pg id ''s'' ([demo_account ''a'' x] @ [demo_account ''a'' y]) demo_db d2"
      using block_writes.put [OF block_writes.put [OF block_writes.none [of ?pg id "''s''" demo_db] p(1) [unfolded demo_put_def]]
          p(2) [unfolded demo_put_def]] by simp
    then show ?thesis using p by simp
  qed
  define db1 where "db1 = snd (snd (demo_put 5 (snd (snd (demo_put 4 demo_db)))))"
  define db2 where "db2 = snd (snd (demo_put 4 (snd (snd (demo_put 5 demo_db)))))"
  have d1: "block_writes ?pg id ''s'' [demo_account ''a'' 4, demo_account ''a'' 5] demo_db db1"
    unfolding db1_def by (rule seq) simp
  have d2: "block_writes ?pg id ''s'' [demo_account ''a'' 5, demo_account ''a'' 4] demo_db db2"
    unfolding db2_def by (rule seq) simp
  have ord: "some_order id" by (simp add: some_order_def)
  have "newest_rows (set [demo_account ''a'' 5, demo_account ''a'' 4]) (row_at (db_schemas demo_db ''s'')) (row_at (db_schemas db2 ''s'')) \<and>
    (\<forall>tn k. map_option (\<lambda>r. (ar_slot_updated r, ar_lamports r, ar_data r)) (row_at (db_schemas db2 ''s'') tn k) =
            map_option (\<lambda>r. (ar_slot_updated r, ar_lamports r, ar_data r)) (row_at (db_schemas db1 ''s'') tn k))"
    by (rule account_batches_converge [OF d2 d1 ord]) (auto simp: demo_account_def account_from_decoded_def)
  then have c: "newest_rows {demo_account ''a'' 5, demo_account ''a'' 4} (row_at (Some demo_ps)) (row_at (db_schemas db2 ''s''))"
    "map_option (\<lambda>r. (ar_slot_updated r, ar_lamports r, ar_data r)) (row_at (db_schemas db2 ''s'') ''vault'' ''a'') =
     map_option (\<lambda>r. (ar_slot_updated r, ar_lamports r, ar_data r)) (row_at (db_schemas db1 ''s'') ''vault'' ''a'')"
    by (simp_all add: demo_db_def)
  have "states_for {demo_account ''a'' 5, demo_account ''a'' 4} ''vault'' ''a'' = {demo_account ''a'' 5, demo_account ''a'' 4}"
    by (auto simp: states_for_def demo_account_def account_from_decoded_def demo_vault_table)
  then have "newest_row {demo_account ''a'' 5, demo_account ''a'' 4} None (row_at (db_schemas db2 ''s'') ''vault'' ''a'')"
    using c(1) unfolding newest_rows_def by (metis demo_row)
  then have "\<exists>r. row_at (db_schemas db2 ''s'') ''vault'' ''a'' = Some r \<and> ar_slot_updated r = 5"
    by (auto simp: newest_row_def state_row_def demo_account_def account_from_decoded_def split: option.splits)
  then show ?thesis using db1_def db2_def c(2) by auto
qed

end
