(* ===== verification/Idl_Manager.thy ===== *)
theory Idl_Manager
  imports Solarix_Types
begin

text \<open>
  The IDL manager (\<open>src/idl/mod.rs\<close>, \<open>src/idl/fetch.rs\<close>): the cache of parsed IDLs with their
  hashes and raw texts, manual upload, the fetch cascade from the chain to the bundled files,
  and the reading of the on-chain account.

  What the module calls and does not define is the record \<open>idl_env\<close>: serde's text and typed
  parsers and its printer, SHA-256, base64, zlib, the public-key parser and the address
  derivation, one HTTP request, and the file system. Errors of that code are texts.
\<close>

section \<open>Errors and entries\<close>

datatype idl_error =
    FetchFailed string string
  | ParseFailed string
  | NotFound string
  | UnsupportedFormat string
  | DecompressionFailed string

fun show_idl_error :: "idl_error \<Rightarrow> string" where
  "show_idl_error (FetchFailed program_id reason) =
     ''failed to fetch IDL for '' @ program_id @ '': '' @ reason"
| "show_idl_error (ParseFailed s) = ''failed to parse IDL: '' @ s"
| "show_idl_error (NotFound s) = ''IDL not found: '' @ s"
| "show_idl_error (UnsupportedFormat s) = ''unsupported IDL format: '' @ s"
| "show_idl_error (DecompressionFailed s) = ''IDL decompression failed: '' @ s"

datatype idl_source = OnChain | Bundled | Manual

fun idl_source_as_str :: "idl_source \<Rightarrow> string" where
  "idl_source_as_str OnChain = ''onchain''"
| "idl_source_as_str Bundled = ''bundled''"
| "idl_source_as_str Manual = ''manual''"

record cached_idl =
  ce_idl :: idl
  ce_hash :: string
  ce_source :: idl_source
  ce_raw_json :: string

datatype file_error = FileNotFound | FileOther string

text \<open>An HTTP answer: the status and the body, parsed as JSON or the parse error.\<close>

type_synonym http_answer = "nat \<times> (string + json)"

record idl_env =
  env_from_str :: "string \<Rightarrow> string + json"
  env_from_value :: "json \<Rightarrow> string + idl"
  env_to_string :: "json \<Rightarrow> string"
  env_sha256 :: "bytes \<Rightarrow> bytes"
  env_base64 :: "string \<Rightarrow> string + bytes"
  env_inflate :: "bytes \<Rightarrow> nat \<Rightarrow> string + string"
  env_parse_pubkey :: "string \<Rightarrow> string + bytes"
  env_idl_address :: "bytes \<Rightarrow> string + string"
  env_post :: "string \<Rightarrow> json \<Rightarrow> string + http_answer"
  env_show_status :: "nat \<Rightarrow> string"
  env_read_file :: "string \<Rightarrow> file_error + string"

record idl_manager =
  im_cache :: "string \<rightharpoonup> cached_idl"
  im_rpc_url :: string
  im_bundled_idls_path :: "string option"

definition idl_manager_new :: "string \<Rightarrow> idl_manager" where
  "idl_manager_new rpc_url = \<lparr> im_cache = Map.empty, im_rpc_url = rpc_url, im_bundled_idls_path = Some ''idls'' \<rparr>"

section \<open>Validation and hashing\<close>

definition validate_idl :: "json \<Rightarrow> idl_error + unit" where
  "validate_idl v =
     (case Option.bind (json_get ''metadata'' v) (json_get ''spec'') of
        Some spec \<Rightarrow> if is_string spec then Inr ()
                     else Inl (UnsupportedFormat ''metadata.spec must be a string'')
      | None \<Rightarrow> Inl (UnsupportedFormat
          (''missing metadata.spec field '' @ [char_of (226 :: nat), char_of (128 :: nat), char_of (148 :: nat)] @
           '' only Anchor IDL v0.30+ is supported'')))"

text \<open>\<open>collect::<BTreeMap<_, _>>()\<close>.\<close>

definition btree_collect :: "(string \<times> json) list \<Rightarrow> (string \<times> json) list" where
  "btree_collect kvs = fold (\<lambda>(k, v). map_insert k v) kvs []"

primrec canonicalize_json :: "json \<Rightarrow> json" where
  "canonicalize_json JNull = JNull"
| "canonicalize_json (JBool b) = JBool b"
| "canonicalize_json (JInt i) = JInt i"
| "canonicalize_json (JFloat w) = JFloat w"
| "canonicalize_json (JStr s) = JStr s"
| "canonicalize_json (JArr vs) = JArr (map canonicalize_json vs)"
| "canonicalize_json (JObj kvs) = JObj (btree_collect (map (map_prod id canonicalize_json) kvs))"

definition compute_idl_hash :: "idl_env \<Rightarrow> string \<Rightarrow> string" where
  "compute_idl_hash env idl_json =
     (let normalized = (case env_from_str env idl_json of
                          Inr v \<Rightarrow> env_to_string env (canonicalize_json v)
                        | Inl _ \<Rightarrow> idl_json)
      in concat (map hex2 (env_sha256 env (as_bytes normalized))))"

section \<open>Reading the chain and the bundled files\<close>

text \<open>\<open>rpc_url_host\<close>: the part after the scheme and the credentials, up to the path.\<close>

fun split_once_str :: "string \<Rightarrow> string \<Rightarrow> (string \<times> string) option" where
  "split_once_str pat [] = None"
| "split_once_str pat (c # cs) =
     (if prefix pat (c # cs) then Some ([], drop (length pat) (c # cs))
      else map_option (\<lambda>(a, b). (c # a, b)) (split_once_str pat cs))"

definition rpc_url_host :: "string \<Rightarrow> string" where
  "rpc_url_host rpc_url =
     (let after_scheme = (case split_once_str ''://'' rpc_url of Some (_, r) \<Rightarrow> r | None \<Rightarrow> rpc_url);
          without_creds = (case split_once CHR ''@'' after_scheme of Some (_, r) \<Rightarrow> r | None \<Rightarrow> after_scheme)
      in takeWhile (\<lambda>c. c \<noteq> CHR ''/'' \<and> c \<noteq> CHR ''?'' \<and> c \<noteq> CHR ''#'') without_creds)"

definition MAX_IDL_SIZE :: nat where
  "MAX_IDL_SIZE = 16 * 1024 * 1024"

definition decompress_idl_data :: "idl_env \<Rightarrow> bytes \<Rightarrow> idl_error + string" where
  "decompress_idl_data env account_data =
     (if length account_data < 44 then
        Inl (DecompressionFailed (''account data too short: '' @ show_nat (length account_data) @
          '' bytes, need at least 44''))
      else
        let data_len = le_val (take 4 (drop 40 account_data))
        in case checked_add 44 data_len of
             None \<Rightarrow> Inl (DecompressionFailed (''data_len overflow: '' @ show_nat data_len))
           | Some payload_end \<Rightarrow>
               if length account_data < payload_end then
                 Inl (DecompressionFailed (''account data truncated: have '' @ show_nat (length account_data) @
                   '' bytes, need '' @ show_nat payload_end @ '' (data_len='' @ show_nat data_len @ '')''))
               else
                 (case env_inflate env (take (payload_end - 44) (drop 44 account_data)) MAX_IDL_SIZE of
                    Inl e \<Rightarrow> Inl (DecompressionFailed e)
                  | Inr idl_json \<Rightarrow>
                      if MAX_IDL_SIZE \<le> length idl_json then
                        Inl (DecompressionFailed (''decompressed IDL exceeds maximum size of '' @
                          show_nat MAX_IDL_SIZE @ '' bytes''))
                      else Inr idl_json))"

definition json_obj :: "(string \<times> json) list \<Rightarrow> json" where
  "json_obj kvs = JObj (btree_collect kvs)"

definition rpc_body :: "string \<Rightarrow> json \<Rightarrow> json" where
  "rpc_body m params =
     json_obj [(''jsonrpc'', JStr ''2.0''), (''id'', JInt 1), (''method'', JStr m), (''params'', params)]"

definition is_success_status :: "nat \<Rightarrow> bool" where
  "is_success_status s = (200 \<le> s \<and> s < 300)"

text \<open>The checks between the parsed answer and the base64 text of the account.\<close>

definition account_data_of :: "idl_env \<Rightarrow> string \<Rightarrow> json \<Rightarrow> idl_error + string" where
  "account_data_of env program_id response_json =
     bindR (case json_get ''error'' response_json of
              Some e \<Rightarrow> if is_null e then Inr ()
                        else Inl (FetchFailed program_id (''RPC error: '' @ env_to_string env e))
            | None \<Rightarrow> Inr ()) (\<lambda>_.
     bindR (ok_orR (FetchFailed program_id ''malformed RPC response: missing 'result' field'')
              (json_get ''result'' response_json)) (\<lambda>result.
     bindR (ok_orR (NotFound (''on-chain IDL account not found for program '' @ program_id))
              (case json_get ''value'' result of
                 Some v \<Rightarrow> if is_null v then None else Some v
               | None \<Rightarrow> None)) (\<lambda>v.
     ok_orR (FetchFailed program_id ''missing or invalid data field in account info'')
       (Option.bind (json_get ''data'' v) (\<lambda>d.
        Option.bind (as_array d) (\<lambda>arr.
        Option.bind (if arr = [] then None else Some (hd arr)) as_str))))))"

definition fetch_idl_from_chain :: "idl_env \<Rightarrow> string \<Rightarrow> string \<Rightarrow> idl_error + string" where
  "fetch_idl_from_chain env rpc_url program_id =
     (let fail = FetchFailed program_id
      in bindR (map_errR (\<lambda>e. fail (''invalid program ID: '' @ e)) (env_parse_pubkey env program_id)) (\<lambda>pubkey.
         bindR (map_errR (\<lambda>e. fail (''failed to derive IDL address: '' @ e)) (env_idl_address env pubkey)) (\<lambda>pda.
         bindR (map_errR fail
                  (env_post env rpc_url (rpc_body ''getAccountInfo''
                    (JArr [JStr pda, json_obj [(''encoding'', JStr ''base64''), (''commitment'', JStr ''confirmed'')]]))))
           (\<lambda>(status, body).
         if \<not> is_success_status status then Inl (fail (''RPC returned HTTP '' @ env_show_status env status))
         else
         bindR (map_errR (\<lambda>e. fail (''failed to parse RPC response: '' @ e)) body) (\<lambda>response_json.
         bindR (account_data_of env program_id response_json) (\<lambda>data_b64.
         bindR (map_errR (\<lambda>e. fail (''base64 decode failed: '' @ e)) (env_base64 env data_b64)) (\<lambda>account_data.
           decompress_idl_data env account_data)))))))"

definition contains_dotdot :: "string \<Rightarrow> bool" where
  "contains_dotdot s = (split_once_str ''..'' s \<noteq> None)"

text \<open>\<open>Path::join\<close> of a relative component.\<close>

definition path_join :: "string \<Rightarrow> string \<Rightarrow> string" where
  "path_join dir name = (if dir = [] \<or> last dir = CHR ''/'' then dir @ name else dir @ ''/'' @ name)"

text \<open>The path that is read, when the program id passes the check.\<close>

definition bundled_file :: "string option \<Rightarrow> string \<Rightarrow> string option" where
  "bundled_file bundled_path program_id =
     (if CHR ''/'' \<in> set program_id \<or> CHR 0x5C \<in> set program_id \<or> contains_dotdot program_id then None
      else Some (path_join (case bundled_path of Some d \<Rightarrow> d | None \<Rightarrow> ''idls'') (program_id @ ''.json'')))"

definition fetch_idl_from_bundled :: "idl_env \<Rightarrow> string option \<Rightarrow> string \<Rightarrow> idl_error + string" where
  "fetch_idl_from_bundled env bundled_path program_id =
     (case bundled_file bundled_path program_id of
        None \<Rightarrow> Inl (NotFound (''invalid program ID for bundled lookup: '' @ program_id))
      | Some file_path \<Rightarrow>
          (case env_read_file env file_path of
             Inr contents \<Rightarrow> Inr contents
           | Inl FileNotFound \<Rightarrow>
               Inl (NotFound (''IDL not found for program '' @ program_id @ ''. Upload manually via POST /api/programs''))
           | Inl (FileOther e) \<Rightarrow> Inl (FetchFailed program_id (''failed to read bundled IDL file: '' @ e))))"

section \<open>The cache\<close>

definition fetch_idl_standalone ::
  "idl_env \<Rightarrow> string \<Rightarrow> string option \<Rightarrow> string \<Rightarrow> idl_error + string \<times> idl_source" where
  "fetch_idl_standalone env rpc_url bundled_path pid =
     (case fetch_idl_from_chain env rpc_url pid of
        Inr js \<Rightarrow> Inr (js, OnChain)
      | Inl (NotFound _) \<Rightarrow>
          bindR (fetch_idl_from_bundled env bundled_path pid) (\<lambda>js. Inr (js, Bundled))
      | Inl e \<Rightarrow>
          (case fetch_idl_from_bundled env bundled_path pid of
             Inr js \<Rightarrow> Inr (js, Bundled)
           | Inl _ \<Rightarrow> Inl e))"

definition fetch_params :: "idl_manager \<Rightarrow> string \<times> string option" where
  "fetch_params m = (im_rpc_url m, im_bundled_idls_path m)"

definition insert_fetched_idl ::
  "idl_env \<Rightarrow> idl_manager \<Rightarrow> string \<Rightarrow> string \<Rightarrow> idl_source \<Rightarrow> idl_error + idl \<times> idl_manager" where
  "insert_fetched_idl env m program_id idl_json source =
     bindR (map_errR ParseFailed (env_from_str env idl_json)) (\<lambda>raw_value.
     bindR (validate_idl raw_value) (\<lambda>_.
     let hash = compute_idl_hash env idl_json
     in bindR (map_errR ParseFailed (env_from_value env raw_value)) (\<lambda>i.
          Inr (i, m\<lparr> im_cache := (im_cache m)(program_id \<mapsto>
            \<lparr> ce_idl = i, ce_hash = hash, ce_source = source, ce_raw_json = idl_json \<rparr>) \<rparr>))))"

definition upload_idl :: "idl_env \<Rightarrow> idl_manager \<Rightarrow> string \<Rightarrow> string \<Rightarrow> idl_error + idl \<times> idl_manager" where
  "upload_idl env m program_id idl_json =
     bindR (map_errR ParseFailed (env_from_str env idl_json)) (\<lambda>raw_value.
     bindR (validate_idl raw_value) (\<lambda>_.
     let hash = compute_idl_hash env idl_json
     in bindR (map_errR ParseFailed (env_from_value env raw_value)) (\<lambda>i.
          Inr (i, m\<lparr> im_cache := (im_cache m)(program_id \<mapsto>
            \<lparr> ce_idl = i, ce_hash = hash, ce_source = Manual, ce_raw_json = idl_json \<rparr>) \<rparr>))))"

definition get_idl :: "idl_env \<Rightarrow> idl_manager \<Rightarrow> string \<Rightarrow> idl_error + idl \<times> idl_manager" where
  "get_idl env m program_id =
     (case im_cache m program_id of
        Some c \<Rightarrow> Inr (ce_idl c, m)
      | None \<Rightarrow>
          bindR (case fetch_idl_from_chain env (im_rpc_url m) program_id of
                   Inr js \<Rightarrow> Inr (js, OnChain)
                 | Inl (NotFound _) \<Rightarrow>
                     bindR (fetch_idl_from_bundled env (im_bundled_idls_path m) program_id)
                       (\<lambda>js. Inr (js, Bundled))
                 | Inl e \<Rightarrow>
                     (case fetch_idl_from_bundled env (im_bundled_idls_path m) program_id of
                        Inr js \<Rightarrow> Inr (js, Bundled)
                      | Inl _ \<Rightarrow> Inl e)) (\<lambda>(idl_json, source).
          bindR (map_errR ParseFailed (env_from_str env idl_json)) (\<lambda>raw_value.
          bindR (validate_idl raw_value) (\<lambda>_.
          let hash = compute_idl_hash env idl_json
          in bindR (map_errR ParseFailed (env_from_value env raw_value)) (\<lambda>i.
               Inr (i, m\<lparr> im_cache := (im_cache m)(program_id \<mapsto>
                 \<lparr> ce_idl = i, ce_hash = hash, ce_source = source, ce_raw_json = idl_json \<rparr>) \<rparr>))))))"

definition get_cached :: "idl_manager \<Rightarrow> string \<Rightarrow> idl option" where
  "get_cached m program_id = map_option ce_idl (im_cache m program_id)"

definition get_cached_entry :: "idl_manager \<Rightarrow> string \<Rightarrow> cached_idl option" where
  "get_cached_entry m program_id = im_cache m program_id"

definition remove_cached :: "idl_manager \<Rightarrow> string \<Rightarrow> idl_manager" where
  "remove_cached m program_id = m\<lparr> im_cache := (im_cache m)(program_id := None) \<rparr>"

end
