(* ===== verification/Idl_Correct.thy ===== *)
theory Idl_Correct
  imports Idl_Manager "HOL-Library.Multiset"
begin

text \<open>
  Correctness of the IDL manager: what every cache entry satisfies after any sequence of
  operations, that the hash does not depend on the order of object keys, that an on-chain IDL
  account reads back, and that the bundled lookup never leaves its directory.
\<close>

section \<open>Canonical JSON\<close>

lemma fold_insert_sorted: "keys_sorted obj \<Longrightarrow> keys_sorted (fold (\<lambda>(k, v). map_insert k v) kvs obj)"
  by (induction kvs arbitrary: obj) (auto simp: keys_sorted_map_insert)

lemma fold_insert_map_of:
  "map_of (fold (\<lambda>(k, v). map_insert k v) kvs obj) = map_of obj ++ map_of (rev kvs)"
  by (induction kvs arbitrary: obj) (auto simp: map_of_map_insert map_add_upd_left)

lemma btree_collect_sorted: "keys_sorted (btree_collect kvs)"
  by (simp add: btree_collect_def fold_insert_sorted)

lemma map_of_btree_collect: "map_of (btree_collect kvs) = map_of (rev kvs)"
  by (simp add: btree_collect_def fold_insert_map_of)

lemma map_of_rev_distinct: "distinct (map fst kvs) \<Longrightarrow> map_of (rev kvs) = map_of kvs"
  by (rule map_of_inject_set [THEN iffD2]) (simp_all flip: rev_map)

lemma btree_collect_perm:
  assumes "mset kvs = mset kvs'" and "distinct (map fst kvs)"
  shows "btree_collect kvs = btree_collect kvs'"
proof (rule keys_sorted_unique [OF btree_collect_sorted btree_collect_sorted])
  have d: "distinct (map fst kvs')" using assms by (metis mset_eq_imp_distinct_iff mset_map)
  have "map_of kvs = map_of kvs'"
    using assms d by (intro map_of_inject_set [THEN iffD2]) (auto dest: mset_eq_setD)
  then show "map_of (btree_collect kvs) = map_of (btree_collect kvs')"
    using assms(2) d by (simp add: map_of_btree_collect map_of_rev_distinct)
qed

lemma btree_collect_id: "keys_sorted kvs \<Longrightarrow> btree_collect kvs = kvs"
proof (rule keys_sorted_unique [OF btree_collect_sorted])
  assume s: "keys_sorted kvs"
  then show "map_of (btree_collect kvs) = map_of kvs"
    using keys_sorted_distinct [OF s] by (simp add: map_of_btree_collect map_of_rev_distinct)
qed

lemma canonicalize_json_id: "json_wf v \<Longrightarrow> canonicalize_json v = v"
proof (induction v)
  case (JArr vs)
  then show ?case by (auto simp: list_all_iff intro: map_idI)
next
  case (JObj kvs)
  have "map (map_prod id canonicalize_json) kvs = kvs"
    using JObj by (intro map_idI) (auto simp: list_all_iff)
  then show ?case using JObj.prems by (simp add: btree_collect_id)
qed simp_all

text \<open>Two values that differ only in the order of the keys of their objects.\<close>

inductive same_json :: "json \<Rightarrow> json \<Rightarrow> bool" where
  same_refl: "same_json v v"
| same_arr: "list_all2 same_json vs ws \<Longrightarrow> same_json (JArr vs) (JArr ws)"
| same_obj: "distinct (map fst kvs) \<Longrightarrow> mset kvs = mset kvs' \<Longrightarrow>
    list_all2 (\<lambda>p q. fst p = fst q \<and> same_json (snd p) (snd q)) kvs' lws \<Longrightarrow>
    same_json (JObj kvs) (JObj lws)"

lemma canonicalize_same: "same_json v w \<Longrightarrow> canonicalize_json v = canonicalize_json w"
proof (induction rule: same_json.induct)
  case (same_arr vs ws)
  then have "map canonicalize_json vs = map canonicalize_json ws"
    by (auto simp: list_all2_conv_all_nth intro: nth_equalityI)
  then show ?case by simp
next
  case (same_obj kvs kvs' lws)
  have "map (map_prod id canonicalize_json) kvs' = map (map_prod id canonicalize_json) lws"
    using same_obj(3) by (auto simp: list_all2_conv_all_nth prod_eq_iff intro: nth_equalityI)
  moreover have "btree_collect (map (map_prod id canonicalize_json) kvs) =
      btree_collect (map (map_prod id canonicalize_json) kvs')"
    using same_obj(1,2) by (intro btree_collect_perm) (simp_all add: o_def)
  ultimately show ?case by simp
qed simp

text \<open>C25. The IDL hash does not depend on key order: two texts that parse to values differing only in
  the order of object keys, at any depth, have the same hash.\<close>

theorem compute_idl_hash_key_order:
  assumes "env_from_str env s = Inr v" and "env_from_str env t = Inr w" and "same_json v w"
  shows "compute_idl_hash env s = compute_idl_hash env t"
  using assms canonicalize_same [OF assms(3)] by (simp add: compute_idl_hash_def)

definition demo_env :: idl_env where
  "demo_env = \<lparr> env_from_str = (\<lambda>s. if s = ''ab'' then Inr (JObj [(''a'', JNull), (''b'', JInt 1)])
                                   else if s = ''ba'' then Inr (JObj [(''b'', JInt 1), (''a'', JNull)])
                                   else if s = ''idl'' then Inr (JObj [(''metadata'', JObj [(''spec'', JStr ''0.1.0'')])])
                                   else Inl ''expected value''),
     env_from_value = (\<lambda>v. Inr \<lparr> idl_address = [], idl_metadata_name = ''demo'', idl_metadata_version = [],
                          idl_instructions = [], idl_accounts = [], idl_types = [] \<rparr>),
     env_to_string = (\<lambda>v. case v of JObj kvs \<Rightarrow> concat (map fst kvs) | _ \<Rightarrow> ''null''),
     env_sha256 = id, env_base64 = (\<lambda>s. Inr (as_bytes s)), env_inflate = (\<lambda>bs n. Inr (of_bytes bs)),
     env_parse_pubkey = (\<lambda>s. Inr (as_bytes s)), env_idl_address = (\<lambda>bs. Inr (of_bytes bs)),
     env_post = (\<lambda>_ _. Inl ''offline''), env_show_status = show_nat, env_read_file = (\<lambda>_. Inl FileNotFound) \<rparr>"

theorem compute_idl_hash_key_order_witness:
  "compute_idl_hash demo_env ''ab'' = compute_idl_hash demo_env ''ba''"
proof (rule compute_idl_hash_key_order)
  show "env_from_str demo_env ''ab'' = Inr (JObj [(''a'', JNull), (''b'', JInt 1)])"
    "env_from_str demo_env ''ba'' = Inr (JObj [(''b'', JInt 1), (''a'', JNull)])"
    by (simp_all add: demo_env_def)
  show "same_json (JObj [(''a'', JNull), (''b'', JInt 1)]) (JObj [(''b'', JInt 1), (''a'', JNull)])"
    by (rule same_obj [where kvs' = "[(''b'', JInt 1), (''a'', JNull)]"]) (auto intro: same_refl)
qed

section \<open>The cache\<close>

text \<open>What a cache entry has to do with its raw text.\<close>

definition entry_ok :: "idl_env \<Rightarrow> cached_idl \<Rightarrow> bool" where
  "entry_ok env c \<longleftrightarrow> ce_hash c = compute_idl_hash env (ce_raw_json c) \<and>
     (\<exists>v. env_from_str env (ce_raw_json c) = Inr v \<and> validate_idl v = Inr () \<and>
          env_from_value env v = Inr (ce_idl c))"

definition cache_ok :: "idl_env \<Rightarrow> idl_manager \<Rightarrow> bool" where
  "cache_ok env m \<longleftrightarrow> (\<forall>p c. im_cache m p = Some c \<longrightarrow> entry_ok env c)"

text \<open>The operations that change the cache, in any order.\<close>

inductive idl_step :: "idl_env \<Rightarrow> idl_manager \<Rightarrow> idl_manager \<Rightarrow> bool" for env where
  step_get: "get_idl env m p = Inr (i, m') \<Longrightarrow> idl_step env m m'"
| step_upload: "upload_idl env m p js = Inr (i, m') \<Longrightarrow> idl_step env m m'"
| step_insert: "insert_fetched_idl env m p js src = Inr (i, m') \<Longrightarrow> idl_step env m m'"
| step_remove: "idl_step env m (remove_cached m p)"

lemma upload_idl_insert: "upload_idl env m p js = insert_fetched_idl env m p js Manual"
  by (simp add: upload_idl_def insert_fetched_idl_def)

lemma get_idl_insert:
  "get_idl env m p = (case im_cache m p of Some c \<Rightarrow> Inr (ce_idl c, m)
     | None \<Rightarrow> bindR (fetch_idl_standalone env (im_rpc_url m) (im_bundled_idls_path m) p)
         (\<lambda>(js, src). insert_fetched_idl env m p js src))"
  by (cases "im_cache m p")
    (simp_all add: get_idl_def fetch_idl_standalone_def [abs_def] insert_fetched_idl_def [abs_def])

lemma insert_fetched_idl_Inr:
  "insert_fetched_idl env m p js src = Inr (i, m') \<Longrightarrow>
   \<exists>c. m' = m\<lparr> im_cache := (im_cache m)(p \<mapsto> c) \<rparr> \<and> entry_ok env c \<and> ce_idl c = i \<and> ce_raw_json c = js \<and> ce_source c = src"
  by (auto simp: insert_fetched_idl_def resR Let_def entry_ok_def)

lemma insert_fetched_idl_ok: "insert_fetched_idl env m p js src = Inr (i, m') \<Longrightarrow> cache_ok env m \<Longrightarrow> cache_ok env m'"
  by (drule insert_fetched_idl_Inr) (auto simp: cache_ok_def split: if_splits)

lemma idl_step_ok: "idl_step env m m' \<Longrightarrow> cache_ok env m \<Longrightarrow> cache_ok env m'"
proof (induction rule: idl_step.induct)
  case (step_get m p i m')
  then show ?case by (auto simp: get_idl_insert resR insert_fetched_idl_ok split: option.splits)
next
  case (step_upload m p js i m')
  then show ?case by (auto simp: upload_idl_insert insert_fetched_idl_ok)
next
  case (step_insert m p js src i m')
  then show ?case by (rule insert_fetched_idl_ok)
next
  case (step_remove m p)
  then show ?case by (auto simp: cache_ok_def remove_cached_def)
qed

text \<open>C20. Hash stability: after any sequence of fetches, uploads, insertions and removals, every cached
  entry's hash is the hash of its raw text, and its IDL is what that text parses to, in the
  accepted format; so persisting the raw text keeps \<open>compute_idl_hash(idl_json) = idl_hash\<close>.\<close>

theorem idl_cache_faithful:
  assumes "(idl_step env)\<^sup>*\<^sup>* (idl_manager_new url) m" and "get_cached_entry m p = Some c"
  shows "ce_hash c = compute_idl_hash env (ce_raw_json c) \<and>
    (\<exists>v. env_from_str env (ce_raw_json c) = Inr v \<and> validate_idl v = Inr () \<and>
         env_from_value env v = Inr (ce_idl c))"
proof -
  have "cache_ok env m"
    using assms(1)
  proof (induction rule: rtranclp_induct)
    case base
    show ?case by (simp add: cache_ok_def idl_manager_new_def)
  next
    case (step y z)
    then show ?case by (blast intro: idl_step_ok)
  qed
  then show ?thesis using assms(2) by (auto simp: cache_ok_def entry_ok_def get_cached_entry_def)
qed

lemma demo_upload:
  "\<exists>m i. upload_idl demo_env (idl_manager_new ''url'') ''P'' ''idl'' = Inr (i, m) \<and>
     get_cached_entry m ''P'' = Some \<lparr> ce_idl = i, ce_hash = compute_idl_hash demo_env ''idl'', ce_source = Manual,
       ce_raw_json = ''idl'' \<rparr>"
  by (simp add: upload_idl_def validate_idl_def demo_env_def json_get_def is_string_def get_cached_entry_def)

theorem idl_cache_faithful_witness:
  "\<exists>m c. (idl_step demo_env)\<^sup>*\<^sup>* (idl_manager_new ''url'') m \<and> get_cached_entry m ''P'' = Some c \<and>
    (\<exists>v. env_from_str demo_env (ce_raw_json c) = Inr v \<and> env_from_value demo_env v = Inr (ce_idl c))"
proof -
  from demo_upload obtain m i where m: "upload_idl demo_env (idl_manager_new ''url'') ''P'' ''idl'' = Inr (i, m)"
    and c: "get_cached_entry m ''P'' = Some \<lparr> ce_idl = i, ce_hash = compute_idl_hash demo_env ''idl'',
      ce_source = Manual, ce_raw_json = ''idl'' \<rparr>" by blast
  have "(idl_step demo_env)\<^sup>*\<^sup>* (idl_manager_new ''url'') m" using m by (blast intro: step_upload)
  with idl_cache_faithful [OF this c] c show ?thesis by blast
qed

section \<open>The on-chain account and the bundled files\<close>

text \<open>An on-chain IDL account reads back: a discriminator and authority of 40 bytes, the
  little-endian length, and that many compressed bytes, with anything after them, give the
  decompressed text whenever it is under the 16 MiB limit.\<close>

theorem decompress_idl_roundtrip:
  assumes "length hdr = 40" and "length packed < 2 ^ 32"
    and "env_inflate env packed MAX_IDL_SIZE = Inr js" and "length js < MAX_IDL_SIZE"
  shows "decompress_idl_data env (hdr @ le_bytes 4 (length packed) @ packed @ rest) = Inr js"
proof -
  let ?d = "hdr @ le_bytes 4 (length packed) @ packed @ rest"
  have "take 4 (drop 40 ?d) = le_bytes 4 (length packed)" using assms(1) by simp
  then have len: "le_val (take 4 (drop 40 ?d)) = length packed" using assms(2) by (simp add: le_bytesR)
  have "drop 44 ?d = packed @ rest"
    using assms(1) drop_append [of 44 "hdr @ le_bytes 4 (length packed)" "packed @ rest"] by simp
  then show ?thesis using assms len
    by (simp add: decompress_idl_data_def Let_def checked_add_def usize_bound_def)
qed

theorem decompress_idl_roundtrip_witness:
  "decompress_idl_data demo_env (replicate 40 7 @ le_bytes 4 (length (as_bytes ''{}'')) @ as_bytes ''{}'' @ [1, 2]) =
     Inr ''{}''"
proof (rule decompress_idl_roundtrip)
  show "env_inflate demo_env (as_bytes ''{}'') MAX_IDL_SIZE = Inr ''{}''"
    by (simp add: demo_env_def)
qed (simp_all add: MAX_IDL_SIZE_def as_bytes_def)

text \<open>The bundled lookup stays in its directory: whatever the program id is, its result depends
  only on files directly under the configured directory (no separator in their names): two file
  systems that agree on those give the same result.\<close>

theorem bundled_lookup_confined:
  assumes "\<And>name. CHR ''/'' \<notin> set name \<Longrightarrow> CHR 0x5C \<notin> set name \<Longrightarrow>
      files (path_join dir name) = files' (path_join dir name)"
  shows "fetch_idl_from_bundled (env\<lparr> env_read_file := files \<rparr>) (Some dir) program_id =
         fetch_idl_from_bundled (env\<lparr> env_read_file := files' \<rparr>) (Some dir) program_id"
  using assms [of "program_id @ ''.json''"]
  by (auto simp: fetch_idl_from_bundled_def bundled_file_def)

theorem bundled_lookup_confined_witness:
  "fetch_idl_from_bundled (demo_env\<lparr> env_read_file := (\<lambda>p. Inl FileNotFound) \<rparr>) (Some ''idls'') ''../secret'' =
   fetch_idl_from_bundled (demo_env\<lparr> env_read_file := (\<lambda>p. if p = ''idls/../secret.json'' then Inr ''{}'' else Inl FileNotFound) \<rparr>)
     (Some ''idls'') ''../secret''"
proof (rule bundled_lookup_confined)
  fix name :: string
  assume "CHR ''/'' \<notin> set name"
  then show "(\<lambda>p. Inl FileNotFound) (path_join ''idls'' name) =
      (\<lambda>p. if p = ''idls/../secret.json'' then Inr ''{}'' else Inl FileNotFound) (path_join ''idls'' name)"
    by (auto simp: path_join_def)
qed

end
