(* ===== verification/Rpc.thy ===== *)
theory Rpc
  imports Decoder Idl_Manager Schema
begin

text \<open>
  The RPC client (\<open>src/pipeline/rpc.rs\<close>), the error type of the pipeline
  (\<open>src/pipeline/mod.rs\<close>) and the runtime counters (\<open>src/runtime_stats.rs\<close>).

  The network is \<open>rpc_attempts\<close>: for a request body, the answers of the node to the successive
  attempts that the retry policy allows (the first one, and one more for every delay that still
  fits the time budget); the policy itself, the rate limiter and the clock are third-party code.
  The serde derives of the raw response structs, base58 and base64 are the other fields of
  \<open>rpc_env\<close>.
\<close>

section \<open>Errors\<close>

fun show_decode_error :: "decode_error \<Rightarrow> string" where
  "show_decode_error (UnknownDiscriminator s) = ''unknown discriminator: '' @ s"
| "show_decode_error (DeserializationFailed s) = ''deserialization failed: '' @ s"
| "show_decode_error (IdlNotLoaded s) = ''IDL not loaded for program: '' @ s"
| "show_decode_error (UnsupportedType s) = ''unsupported type: '' @ s"

datatype pipeline_error =
    RpcFailed string
  | WebSocketDisconnect string
  | RateLimited
  | Decode decode_error
  | Storage storage_error
  | Idl idl_error
  | SlotSkipped string
  | Fatal string

fun show_pipeline_error :: "pipeline_error \<Rightarrow> string" where
  "show_pipeline_error (RpcFailed s) = ''RPC call failed: '' @ s"
| "show_pipeline_error (WebSocketDisconnect s) = ''WebSocket disconnected: '' @ s"
| "show_pipeline_error RateLimited = ''rate limited''"
| "show_pipeline_error (Decode e) = ''decode error: '' @ show_decode_error e"
| "show_pipeline_error (Storage e) = ''storage error: '' @ show_storage_error e"
| "show_pipeline_error (Idl e) = ''IDL error: '' @ show_idl_error e"
| "show_pipeline_error (SlotSkipped s) = ''slot skipped: '' @ s"
| "show_pipeline_error (Fatal s) = ''fatal: '' @ s"

definition is_retryable :: "pipeline_error \<Rightarrow> bool" where
  "is_retryable e = (case e of RpcFailed _ \<Rightarrow> True | WebSocketDisconnect _ \<Rightarrow> True | RateLimited \<Rightarrow> True
     | Idl (FetchFailed _ _) \<Rightarrow> True | _ \<Rightarrow> False)"

section \<open>Counters\<close>

record runtime_stats =
  rs_rpc_retries :: u64
  rs_decode_failures :: u64

definition runtime_stats_new :: runtime_stats where
  "runtime_stats_new = \<lparr> rs_rpc_retries = 0, rs_decode_failures = 0 \<rparr>"

definition incr_rpc_retry :: "runtime_stats \<Rightarrow> runtime_stats" where
  "incr_rpc_retry s = s\<lparr> rs_rpc_retries := rs_rpc_retries s + 1 \<rparr>"

definition incr_decode_failure :: "runtime_stats \<Rightarrow> runtime_stats" where
  "incr_decode_failure s = s\<lparr> rs_decode_failures := rs_decode_failures s + 1 \<rparr>"

section \<open>Response types\<close>

definition MAX_GET_BLOCKS_RANGE :: u64 where
  "MAX_GET_BLOCKS_RANGE = 500000"

definition MAX_MULTIPLE_ACCOUNTS_BATCH :: nat where
  "MAX_MULTIPLE_ACCOUNTS_BATCH = 100"

definition SKIPPED_SLOT_ERROR_CODE :: int where
  "SKIPPED_SLOT_ERROR_CODE = - 32009"

record rpc_instruction =
  ri_program_id_index :: u8
  ri_data :: bytes
  ri_accounts :: "u8 list"

record rpc_inner_group =
  rg_index :: u8
  rg_instructions :: "rpc_instruction list"

record rpc_transaction =
  rt_signature :: string
  rt_slot :: u64
  rt_success :: bool
  rt_account_keys :: "string list"
  rt_instructions :: "rpc_instruction list"
  rt_inner_instructions :: "rpc_inner_group list"

record rpc_block =
  rb_slot :: u64
  rb_block_time :: "int option"
  rb_transactions :: "rpc_transaction list"

record rpc_account_info =
  rai_pubkey :: string
  rai_data :: bytes
  rai_lamports :: u64
  rai_owner :: string

record json_rpc_error =
  jre_code :: int
  jre_message :: string

record json_rpc_response =
  jrr_result :: "json option"
  jrr_error :: "json_rpc_error option"

record raw_instruction =
  raw_program_id_index :: u8
  raw_data :: string
  raw_accounts :: "u8 list"

record raw_inner_group =
  raw_index :: u8
  raw_group_instructions :: "raw_instruction list"

record raw_loaded_addresses =
  raw_writable :: "string list"
  raw_readonly :: "string list"

record raw_meta =
  raw_err :: "json option"
  raw_inner_instructions :: "raw_inner_group list option"
  raw_loaded :: "raw_loaded_addresses option"

record raw_message =
  raw_account_keys :: "string list"
  raw_instructions :: "raw_instruction list"

record raw_payload =
  raw_msg :: raw_message
  raw_signatures :: "string list"

record raw_block_tx =
  raw_transaction :: raw_payload
  raw_meta :: "raw_meta option"

record raw_block =
  raw_block_time :: "int option"
  raw_transactions :: "raw_block_tx list option"

record raw_get_tx =
  rgt_slot :: u64
  rgt_transaction :: raw_payload
  rgt_meta :: "raw_meta option"
  rgt_block_time :: "int option"

record raw_account_info =
  rac_data :: "string list"
  rac_lamports :: u64
  rac_owner :: string

datatype http_failure = HttpTimeout | HttpConnect | HttpOther

datatype http_result = HttpErr http_failure string | HttpResp nat "string + json_rpc_response"

record rpc_env =
  rpc_attempts :: "json \<Rightarrow> http_result \<times> http_result list"
  re_show_status :: "nat \<Rightarrow> string"
  re_block :: "json \<Rightarrow> string + raw_block"
  re_get_tx :: "json \<Rightarrow> string + raw_get_tx"
  re_slots :: "json \<Rightarrow> string + u64 list"
  re_slot :: "json \<Rightarrow> string + u64"
  re_pubkeys :: "json \<Rightarrow> string + string list"
  re_accounts :: "json \<Rightarrow> string + raw_account_info option list"
  re_bs58_decode :: "string \<Rightarrow> string + bytes"
  re_base64_decode :: "string \<Rightarrow> string + bytes"

section \<open>One request\<close>

definition classify_rpc_error :: "json_rpc_error \<Rightarrow> pipeline_error" where
  "classify_rpc_error err =
     (let code = jre_code err; msg = jre_message err
      in if code = SKIPPED_SLOT_ERROR_CODE then SlotSkipped msg
         else if code = - 32007 \<or> code = - 32010 then SlotSkipped msg
         else if code = - 32005 then RpcFailed (''node behind: '' @ msg)
         else if - 32602 \<le> code \<and> code \<le> - 32600 then
           Fatal (''RPC protocol error '' @ show_int code @ '': '' @ msg)
         else RpcFailed (''RPC error '' @ show_int code @ '': '' @ msg))"

definition send_rpc_request_optional :: "rpc_env \<Rightarrow> http_result \<Rightarrow> pipeline_error + json option" where
  "send_rpc_request_optional env answer =
     (case answer of
        HttpErr HttpTimeout e \<Rightarrow> Inl (RpcFailed (''timeout: '' @ e))
      | HttpErr HttpConnect e \<Rightarrow> Inl (RpcFailed (''connection failed: '' @ e))
      | HttpErr HttpOther e \<Rightarrow> Inl (RpcFailed (''request failed: '' @ e))
      | HttpResp status body \<Rightarrow>
          if status = 429 then Inl RateLimited
          else if \<not> is_success_status status then
            if 400 \<le> status \<and> status < 500 then Inl (Fatal (''HTTP '' @ re_show_status env status))
            else Inl (RpcFailed (''HTTP '' @ re_show_status env status))
          else
            bindR (map_errR (\<lambda>e. RpcFailed (''response parse failed: '' @ e)) body) (\<lambda>resp.
              case jrr_error resp of
                Some err \<Rightarrow> Inl (classify_rpc_error err)
              | None \<Rightarrow> Inr (jrr_result resp)))"

definition send_rpc_request :: "rpc_env \<Rightarrow> http_result \<Rightarrow> pipeline_error + json" where
  "send_rpc_request env answer =
     (case answer of
        HttpErr HttpTimeout e \<Rightarrow> Inl (RpcFailed (''timeout: '' @ e))
      | HttpErr HttpConnect e \<Rightarrow> Inl (RpcFailed (''connection failed: '' @ e))
      | HttpErr HttpOther e \<Rightarrow> Inl (RpcFailed (''request failed: '' @ e))
      | HttpResp status body \<Rightarrow>
          if status = 429 then Inl RateLimited
          else if \<not> is_success_status status then
            if 400 \<le> status \<and> status < 500 then Inl (Fatal (''HTTP '' @ re_show_status env status))
            else Inl (RpcFailed (''HTTP '' @ re_show_status env status))
          else
            bindR (map_errR (\<lambda>e. RpcFailed (''response parse failed: '' @ e)) body) (\<lambda>resp.
              case jrr_error resp of
                Some err \<Rightarrow> Inl (classify_rpc_error err)
              | None \<Rightarrow> ok_orR (RpcFailed ''null result without error'') (jrr_result resp)))"

section \<open>Retries\<close>

text \<open>
  The call as \<open>.retry(...).when(is_retryable).notify(...)\<close> configures it, by what backon documents of
  these combinators: an error that \<open>when\<close> accepts is notified and tried again while the backoff has
  a delay left, any other error or a success is returned, and so is the last error once the total
  delay is used up. How many attempts the delays allow is part of the environment: the list of
  attempts. The closure given to \<open>notify\<close> bumps the counter.
\<close>

fun retry_call ::
  "('r \<Rightarrow> pipeline_error + 'a) \<Rightarrow> 'r \<Rightarrow> 'r list \<Rightarrow> runtime_stats \<Rightarrow> (pipeline_error + 'a) \<times> runtime_stats" where
  "retry_call f a [] st = (f a, st)"
| "retry_call f a (b # bs) st =
     (case f a of
        Inr v \<Rightarrow> (Inr v, st)
      | Inl e \<Rightarrow> if is_retryable e then retry_call f b bs (incr_rpc_retry st) else (Inl e, st))"

definition rpc_request :: "rpc_env \<Rightarrow> string \<Rightarrow> json \<Rightarrow> runtime_stats \<Rightarrow> (pipeline_error + json) \<times> runtime_stats" where
  "rpc_request env m params st =
     (let (a, as) = rpc_attempts env (rpc_body m params) in retry_call (send_rpc_request env) a as st)"

definition rpc_request_optional ::
  "rpc_env \<Rightarrow> string \<Rightarrow> json \<Rightarrow> runtime_stats \<Rightarrow> (pipeline_error + json option) \<times> runtime_stats" where
  "rpc_request_optional env m params st =
     (let (a, as) = rpc_attempts env (rpc_body m params) in retry_call (send_rpc_request_optional env) a as st)"

section \<open>Parsing\<close>

definition parse_raw_instruction :: "rpc_env \<Rightarrow> raw_instruction \<Rightarrow> pipeline_error + rpc_instruction" where
  "parse_raw_instruction env raw =
     bindR (map_errR (\<lambda>e. RpcFailed (''base58 decode failed: '' @ e)) (re_bs58_decode env (raw_data raw))) (\<lambda>data.
       Inr \<lparr> ri_program_id_index = raw_program_id_index raw, ri_data = data, ri_accounts = raw_accounts raw \<rparr>)"

definition parse_raw_inner_instruction_group ::
  "rpc_env \<Rightarrow> raw_inner_group \<Rightarrow> pipeline_error + rpc_inner_group" where
  "parse_raw_inner_instruction_group env raw =
     bindR (collectR (parse_raw_instruction env) (raw_group_instructions raw)) (\<lambda>ixs.
       Inr \<lparr> rg_index = raw_index raw, rg_instructions = ixs \<rparr>)"

definition decode_base64_account_data :: "rpc_env \<Rightarrow> string list \<Rightarrow> pipeline_error + bytes" where
  "decode_base64_account_data env data =
     bindR (ok_orR (RpcFailed ''empty account data array'') (case data of [] \<Rightarrow> None | e # _ \<Rightarrow> Some e)) (\<lambda>encoded.
       map_errR (\<lambda>e. RpcFailed (''base64 decode failed: '' @ e)) (re_base64_decode env encoded))"

text \<open>The parts of a transaction that blocks and single transactions share.\<close>

definition tx_success :: "raw_meta option \<Rightarrow> bool" where
  "tx_success m = (case m of Some x \<Rightarrow> raw_err x = None | None \<Rightarrow> True)"

definition tx_inner :: "rpc_env \<Rightarrow> raw_meta option \<Rightarrow> pipeline_error + rpc_inner_group list" where
  "tx_inner env m =
     (case Option.bind m raw_inner_instructions of
        Some groups \<Rightarrow> collectR (parse_raw_inner_instruction_group env) groups
      | None \<Rightarrow> Inr [])"

definition tx_account_keys :: "raw_payload \<Rightarrow> raw_meta option \<Rightarrow> string list" where
  "tx_account_keys p m =
     raw_account_keys (raw_msg p) @
     (case Option.bind m raw_loaded of Some l \<Rightarrow> raw_writable l @ raw_readonly l | None \<Rightarrow> [])"

definition parse_block_tx :: "rpc_env \<Rightarrow> u64 \<Rightarrow> raw_block_tx \<Rightarrow> pipeline_error + rpc_transaction" where
  "parse_block_tx env slot raw_tx =
     (let p = raw_transaction raw_tx; m = raw_meta raw_tx
      in bindR (collectR (parse_raw_instruction env) (raw_instructions (raw_msg p))) (\<lambda>ixs.
         bindR (tx_inner env m) (\<lambda>inner.
           Inr \<lparr> rt_signature = (case raw_signatures p of [] \<Rightarrow> [] | s # _ \<Rightarrow> s), rt_slot = slot,
                 rt_success = tx_success m, rt_account_keys = tx_account_keys p m,
                 rt_instructions = ixs, rt_inner_instructions = inner \<rparr>)))"

fun parse_block_txs ::
  "rpc_env \<Rightarrow> u64 \<Rightarrow> bool \<Rightarrow> raw_block_tx list \<Rightarrow> pipeline_error + rpc_transaction list" where
  "parse_block_txs env slot index_failed_txs [] = Inr []"
| "parse_block_txs env slot index_failed_txs (raw_tx # rest) =
     (if \<not> index_failed_txs \<and> \<not> tx_success (raw_meta raw_tx)
      then parse_block_txs env slot index_failed_txs rest
      else bindR (parse_block_tx env slot raw_tx) (\<lambda>t.
           bindR (parse_block_txs env slot index_failed_txs rest) (\<lambda>ts. Inr (t # ts))))"

definition parse_block :: "rpc_env \<Rightarrow> u64 \<Rightarrow> json \<Rightarrow> bool \<Rightarrow> pipeline_error + rpc_block" where
  "parse_block env slot v index_failed_txs =
     bindR (map_errR (\<lambda>e. RpcFailed (''block parse failed: '' @ e)) (re_block env v)) (\<lambda>raw.
     bindR (parse_block_txs env slot index_failed_txs
              (case raw_transactions raw of Some txs \<Rightarrow> txs | None \<Rightarrow> [])) (\<lambda>txs.
       Inr \<lparr> rb_slot = slot, rb_block_time = raw_block_time raw, rb_transactions = txs \<rparr>))"

section \<open>Chunks and batches\<close>

text \<open>
  The loop of the two chunk functions. It ends because the next start is above the current one:
  a chunk that stops short of the end stops below the largest \<open>u64\<close>.
\<close>

lemma saturating_add_le: "a \<le> saturating_add a b"
proof -
  have "unat a \<le> 2 ^ 64 - 1" by simp
  then show ?thesis by (simp add: word_le_nat_alt unat_saturating_add)
qed

lemma saturating_add_1: "a < b \<Longrightarrow> unat (saturating_add a 1) = Suc (unat a)"
proof -
  assume "a < b"
  then have "Suc (unat a) \<le> unat b" by (simp add: word_less_nat_alt)
  also have "unat b \<le> 2 ^ 64 - 1" by simp
  finally show ?thesis by (simp add: unat_saturating_add)
qed

function chunks_from :: "u64 \<Rightarrow> u64 \<Rightarrow> u64 \<Rightarrow> (u64 \<times> u64) list" where
  "chunks_from sz current end_slot =
     (if current \<le> end_slot then
        let chunk_end = min (saturating_add current (sz - 1)) end_slot
        in (current, chunk_end) #
           (if end_slot \<le> chunk_end then [] else chunks_from sz (saturating_add chunk_end 1) end_slot)
      else [])"
  by pat_completeness auto
termination
proof (relation "measure (\<lambda>(sz, c, e). Suc (unat e) - unat c)")
  fix sz c e x :: u64
  assume "c \<le> e" and x: "x = min (saturating_add c (sz - 1)) e" and "\<not> e \<le> x"
  then have "x < e" "c \<le> x" using saturating_add_le [of c "sz - 1"] by (auto simp: not_le)
  then show "((sz, saturating_add x 1, e), sz, c, e) \<in> measure (\<lambda>(sz, c, e). Suc (unat e) - unat c)"
    using saturating_add_1 [of x e] by (simp add: word_le_nat_alt word_less_nat_alt)
qed simp

declare chunks_from.simps [simp del]

definition compute_block_chunks :: "u64 \<Rightarrow> u64 \<Rightarrow> (u64 \<times> u64) list" where
  "compute_block_chunks start_slot end_slot =
     (if end_slot < start_slot then [] else chunks_from MAX_GET_BLOCKS_RANGE start_slot end_slot)"

definition batch_pubkeys :: "string list \<Rightarrow> (string list \<times> nat) list" where
  "batch_pubkeys pubkeys =
     map (\<lambda>(i, chunk). (chunk, i * MAX_MULTIPLE_ACCOUNTS_BATCH))
       (enumerate 0 (list_chunks MAX_MULTIPLE_ACCOUNTS_BATCH pubkeys))"

section \<open>The client's operations\<close>

definition finalized :: "(string \<times> json) list \<Rightarrow> json" where
  "finalized opts = json_obj (opts @ [(''commitment'', JStr ''finalized'')])"

definition get_transaction ::
  "rpc_env \<Rightarrow> string \<Rightarrow> runtime_stats \<Rightarrow> (pipeline_error + rpc_transaction option) \<times> runtime_stats" where
  "get_transaction env sig st =
     (let (r, st') = rpc_request_optional env ''getTransaction''
            (JArr [JStr sig, finalized [(''encoding'', JStr ''json''), (''maxSupportedTransactionVersion'', JInt 0)]]) st
      in (bindR r (\<lambda>maybe_value.
            case maybe_value of
              None \<Rightarrow> Inr None
            | Some v \<Rightarrow>
                bindR (map_errR (\<lambda>e. RpcFailed (''getTransaction parse failed: '' @ e)) (re_get_tx env v)) (\<lambda>raw.
                let p = rgt_transaction raw; m = rgt_meta raw
                in case raw_signatures p of
                     [] \<Rightarrow> Inl (RpcFailed ''getTransaction: transaction has no signatures'')
                   | s # _ \<Rightarrow>
                       bindR (collectR (parse_raw_instruction env) (raw_instructions (raw_msg p))) (\<lambda>ixs.
                       bindR (tx_inner env m) (\<lambda>inner.
                         Inr (Some \<lparr> rt_signature = s, rt_slot = rgt_slot raw, rt_success = tx_success m,
                                     rt_account_keys = tx_account_keys p m, rt_instructions = ixs,
                                     rt_inner_instructions = inner \<rparr>))))), st'))"

fun get_blocks_loop ::
  "rpc_env \<Rightarrow> (u64 \<times> u64) list \<Rightarrow> runtime_stats \<Rightarrow> (pipeline_error + u64 list) \<times> runtime_stats" where
  "get_blocks_loop env [] st = (Inr [], st)"
| "get_blocks_loop env ((chunk_start, chunk_end) # chunks) st =
     (let (r, st1) = rpc_request env ''getBlocks''
            (JArr [JInt (uint chunk_start), JInt (uint chunk_end), finalized []]) st
      in case bindR r (\<lambda>v. map_errR (\<lambda>e. RpcFailed (''getBlocks response parse failed: '' @ e)) (re_slots env v)) of
           Inl e \<Rightarrow> (Inl e, st1)
         | Inr slots \<Rightarrow>
             (let (r2, st2) = get_blocks_loop env chunks st1
              in (bindR r2 (\<lambda>more. Inr (slots @ more)), st2)))"

definition get_blocks ::
  "rpc_env \<Rightarrow> u64 \<Rightarrow> u64 \<Rightarrow> runtime_stats \<Rightarrow> (pipeline_error + u64 list) \<times> runtime_stats" where
  "get_blocks env start_slot end_slot st = get_blocks_loop env (compute_block_chunks start_slot end_slot) st"

definition get_block ::
  "rpc_env \<Rightarrow> bool \<Rightarrow> u64 \<Rightarrow> runtime_stats \<Rightarrow> (pipeline_error + rpc_block option) \<times> runtime_stats" where
  "get_block env index_failed_txs slot st =
     (let (r, st') = rpc_request env ''getBlock''
            (JArr [JInt (uint slot), finalized [(''encoding'', JStr ''json''), (''transactionDetails'', JStr ''full''),
              (''maxSupportedTransactionVersion'', JInt 0)]]) st
      in (case r of
            Inr v \<Rightarrow> bindR (parse_block env slot v index_failed_txs) (\<lambda>b. Inr (Some b))
          | Inl (SlotSkipped _) \<Rightarrow> Inr None
          | Inl e \<Rightarrow> Inl e, st'))"

definition get_slot :: "rpc_env \<Rightarrow> runtime_stats \<Rightarrow> (pipeline_error + u64) \<times> runtime_stats" where
  "get_slot env st =
     (let (r, st') = rpc_request env ''getSlot'' (JArr [finalized []]) st
      in (bindR r (\<lambda>v. map_errR (\<lambda>e. RpcFailed (''getSlot response parse failed: '' @ e)) (re_slot env v)), st'))"

definition get_program_accounts ::
  "rpc_env \<Rightarrow> string \<Rightarrow> runtime_stats \<Rightarrow> (pipeline_error + string list) \<times> runtime_stats" where
  "get_program_accounts env program_id st =
     (let (r, st') = rpc_request env ''getProgramAccounts''
            (JArr [JStr program_id, finalized [(''encoding'', JStr ''base64''),
              (''dataSlice'', json_obj [(''offset'', JInt 0), (''length'', JInt 0)])]]) st
      in (bindR r (\<lambda>v. map_errR (\<lambda>e. RpcFailed (''getProgramAccounts response parse failed: '' @ e))
                          (re_pubkeys env v)), st'))"

text \<open>The entries of one batch: the i-th answer is for the key at \<open>batch_start + i\<close> of all keys.\<close>

fun batch_accounts ::
  "rpc_env \<Rightarrow> string list \<Rightarrow> nat \<Rightarrow> nat \<Rightarrow> raw_account_info option list \<Rightarrow>
   pipeline_error + rpc_account_info list" where
  "batch_accounts env pubkeys batch_start i [] = Inr []"
| "batch_accounts env pubkeys batch_start i (None # rest) = batch_accounts env pubkeys batch_start (Suc i) rest"
| "batch_accounts env pubkeys batch_start i (Some raw # rest) =
     bindR (decode_base64_account_data env (rac_data raw)) (\<lambda>data.
     bindR (batch_accounts env pubkeys batch_start (Suc i) rest) (\<lambda>more.
       Inr (\<lparr> rai_pubkey = pubkeys ! (batch_start + i), rai_data = data, rai_lamports = rac_lamports raw,
              rai_owner = rac_owner raw \<rparr> # more)))"

fun get_accounts_loop ::
  "rpc_env \<Rightarrow> string list \<Rightarrow> (string list \<times> nat) list \<Rightarrow> runtime_stats \<Rightarrow>
   (pipeline_error + rpc_account_info list) \<times> runtime_stats" where
  "get_accounts_loop env pubkeys [] st = (Inr [], st)"
| "get_accounts_loop env pubkeys ((batch_keys, batch_start) # batches) st =
     (let (r, st1) = rpc_request env ''getMultipleAccounts''
            (JArr [JArr (map JStr batch_keys), finalized [(''encoding'', JStr ''base64'')]]) st
      in case bindR r (\<lambda>v.
                bindR (map_errR (\<lambda>e. RpcFailed (''getMultipleAccounts response parse failed: '' @ e))
                         (re_accounts env v)) (\<lambda>vals.
                if length batch_keys < length vals then
                  Inl (RpcFailed (''getMultipleAccounts returned '' @ show_nat (length vals) @
                    '' entries for '' @ show_nat (length batch_keys) @ '' keys''))
                else batch_accounts env pubkeys batch_start 0 vals)) of
           Inl e \<Rightarrow> (Inl e, st1)
         | Inr infos \<Rightarrow>
             (let (r2, st2) = get_accounts_loop env pubkeys batches st1
              in (bindR r2 (\<lambda>more. Inr (infos @ more)), st2)))"

definition get_multiple_accounts ::
  "rpc_env \<Rightarrow> string list \<Rightarrow> runtime_stats \<Rightarrow> (pipeline_error + rpc_account_info list) \<times> runtime_stats" where
  "get_multiple_accounts env pubkeys st = get_accounts_loop env pubkeys (batch_pubkeys pubkeys) st"

section \<open>Laws of the chunks\<close>

lemma unat_chunk_end:
  "0 < sz \<Longrightarrow> unat (saturating_add c (sz - 1)) = min (unat c + unat sz - 1) (2 ^ 64 - 1)"
proof -
  assume "0 < sz"
  then have "unat (sz - 1) = unat sz - 1" by (simp add: unat_minus_one word_neq_0_conv)
  moreover have "0 < unat sz" using \<open>0 < sz\<close> by (simp add: word_less_nat_alt)
  ultimately show ?thesis by (simp add: unat_saturating_add)
qed

lemma slots_of_append:
  "a \<le> x \<Longrightarrow> x < b \<Longrightarrow> slots_of (a, x) @ slots_of (saturating_add x 1, b) = slots_of (a, b)"
  using saturating_add_1 [of x b] upt_add_eq_append [of "unat a" "Suc (unat x)" "unat b - unat x"]
  by (simp add: slots_of_def word_le_nat_alt word_less_nat_alt)

lemma chunks_from_cover: "concat (map slots_of (chunks_from sz a b)) = slots_of (a, b)"
proof (induction sz a b rule: chunks_from.induct)
  case (1 sz a b)
  show ?case
  proof (cases "a \<le> b")
    case True
    let ?e = "min (saturating_add a (sz - 1)) b"
    have ae: "a \<le> ?e" using True saturating_add_le [of a "sz - 1"] by simp
    show ?thesis
    proof (cases "b \<le> ?e")
      case be: True
      then have "?e = b" by (meson min.cobounded2 order_antisym)
      then show ?thesis using True be by (subst chunks_from.simps) (simp add: Let_def)
    next
      case False
      have "concat (map slots_of (chunks_from sz (saturating_add ?e 1) b)) = slots_of (saturating_add ?e 1, b)"
        using "1.IH" [OF True refl False] .
      then show ?thesis using True False ae slots_of_append [of a ?e b]
        by (subst chunks_from.simps) (auto simp: Let_def not_le)
    qed
  next
    case False
    then show ?thesis by (subst chunks_from.simps) (simp add: slots_of_def word_le_nat_alt)
  qed
qed

lemma chunks_from_size:
  "(c, d) \<in> set (chunks_from sz a b) \<Longrightarrow> 0 < sz \<Longrightarrow> c \<le> d \<and> unat d - unat c < unat sz"
proof (induction sz a b rule: chunks_from.induct)
  case (1 sz a b)
  let ?e = "min (saturating_add a (sz - 1)) b"
  have "0 < unat sz" using "1.prems"(2) by (simp add: word_less_nat_alt)
  moreover have "unat ?e \<le> unat (saturating_add a (sz - 1))" by (simp flip: word_le_nat_alt)
  ultimately have e: "unat ?e - unat a < unat sz"
    using unat_chunk_end [OF "1.prems"(2), of a] by linarith
  consider (first) "a \<le> b" "c = a" "d = ?e"
    | (rest) "a \<le> b" "\<not> b \<le> ?e" "(c, d) \<in> set (chunks_from sz (saturating_add ?e 1) b)"
    using "1.prems"(1) by (subst (asm) chunks_from.simps) (auto simp: Let_def split: if_splits)
  then show ?case
  proof cases
    case first
    then show ?thesis using e saturating_add_le [of a "sz - 1"] by simp
  next
    case rest
    from "1.IH" [OF rest(1) refl rest(2) rest(3) "1.prems"(2)] show ?thesis .
  qed
qed

interpretation block_chunks: slot_chunker compute_block_chunks MAX_GET_BLOCKS_RANGE
proof
  fix a b c d :: u64
  show "concat (map slots_of (compute_block_chunks a b)) = slots_of (a, b)"
    by (simp add: compute_block_chunks_def chunks_from_cover slots_of_def word_less_nat_alt)
  show "0 < MAX_GET_BLOCKS_RANGE \<Longrightarrow> (c, d) \<in> set (compute_block_chunks a b) \<Longrightarrow>
      c \<le> d \<and> unat d - unat c < unat MAX_GET_BLOCKS_RANGE"
    by (auto simp: compute_block_chunks_def dest: chunks_from_size split: if_splits)
qed

end
