(* ===== verification/Rpc_Correct.thy ===== *)
theory Rpc_Correct
  imports Rpc
begin

text \<open>
  Correctness of the RPC client: the retry loop, the chunked \<open>getBlocks\<close> and the batched
  \<open>getMultipleAccounts\<close>. What the node answers is a hypothesis over the requests the client
  really sends.
\<close>

section \<open>Retries\<close>

definition transient :: "('r \<Rightarrow> pipeline_error + 'a) \<Rightarrow> 'r \<Rightarrow> bool" where
  "transient f a = (case f a of Inr _ \<Rightarrow> False | Inl e \<Rightarrow> is_retryable e)"

text \<open>The retry loop returns the answer of the first attempt that is not a transient failure when the
  budget reaches it, the last transient error otherwise, and counts one retry for each attempt it
  gave up.\<close>

lemma retry_call_spec:
  "let k = min (length (takeWhile (transient f) (a # as))) (length as)
   in retry_call f a as st =
        (f ((a # as) ! k), st\<lparr> rs_rpc_retries := rs_rpc_retries st + of_nat k \<rparr>)"
proof (induction as arbitrary: a st)
  case (Cons b bs)
  show ?case
  proof (cases "transient f a")
    case True
    then obtain e where "f a = Inl e" "is_retryable e" by (auto simp: transient_def split: sum.splits)
    then show ?thesis using True Cons.IH [of b "incr_rpc_retry st"]
      by (simp add: Let_def incr_rpc_retry_def)
  next
    case False
    then show ?thesis by (auto simp: transient_def Let_def split: sum.splits)
  qed
qed simp

section \<open>Blocks in chunks\<close>

definition get_blocks_params :: "u64 \<Rightarrow> u64 \<Rightarrow> json" where
  "get_blocks_params c d = JArr [JInt (uint c), JInt (uint d), finalized []]"

lemma get_blocks_loop_complete:
  assumes "\<And>c d st. (c, d) \<in> set chunks \<Longrightarrow>
      \<exists>v. fst (rpc_request env ''getBlocks'' (get_blocks_params c d) st) = Inr v \<and>
          re_slots env v = Inr (map of_nat (filter produced (slots_of (c, d))))"
  shows "fst (get_blocks_loop env chunks st) = Inr (map of_nat (filter produced (concat (map slots_of chunks))))"
  using assms
proof (induction chunks arbitrary: st)
  case (Cons ch chunks)
  obtain c d where ch: "ch = (c, d)" by (cases ch)
  obtain r st1 where r: "rpc_request env ''getBlocks'' (get_blocks_params c d) st = (r, st1)"
    by (cases "rpc_request env ''getBlocks'' (get_blocks_params c d) st")
  from Cons.prems [of c d st] ch r obtain v where
    v: "r = Inr v" "re_slots env v = Inr (map of_nat (filter produced (slots_of (c, d))))" by auto
  have "fst (get_blocks_loop env chunks st1) = Inr (map of_nat (filter produced (concat (map slots_of chunks))))"
    using Cons by simp
  then show ?case using ch r v by (simp add: get_blocks_params_def case_prod_beta)
qed simp

definition serves_slots :: "rpc_env \<Rightarrow> (nat \<Rightarrow> bool) \<Rightarrow> bool" where
  "serves_slots env produced \<longleftrightarrow> (\<forall>c d st. c \<le> d \<longrightarrow> unat d - unat c < 500000 \<longrightarrow>
     (\<exists>v. fst (rpc_request env ''getBlocks'' (get_blocks_params c d) st) = Inr v \<and>
          re_slots env v = Inr (map of_nat (filter produced (slots_of (c, d))))))"

lemma get_blocks_served:
  assumes "serves_slots env produced"
  shows "fst (get_blocks env a b st) = Inr (map of_nat (filter produced (slots_of (a, b))))"
proof -
  have pos: "0 < MAX_GET_BLOCKS_RANGE" and rng: "unat MAX_GET_BLOCKS_RANGE = 500000"
    by (simp_all add: MAX_GET_BLOCKS_RANGE_def)
  have "\<exists>v. fst (rpc_request env ''getBlocks'' (get_blocks_params c d) st) = Inr v \<and>
      re_slots env v = Inr (map of_nat (filter produced (slots_of (c, d))))"
    if "(c, d) \<in> set (compute_block_chunks a b)" for c d st
    using assms block_chunks.chunks_size [OF pos that] rng by (simp add: serves_slots_def)
  from get_blocks_loop_complete [OF this] show ?thesis
    using block_chunks.chunks_cover [OF pos, of a b] by (simp add: get_blocks_def)
qed

text \<open>C18. \<open>get_blocks\<close> over any range, however far above the node's limit of 500000 slots: when the node
  answers each request within the limit with the produced slots of that request's range, the
  client returns exactly the produced slots of the whole range, in order, none twice.\<close>

theorem get_blocks_complete:
  assumes "\<And>c d st. c \<le> d \<Longrightarrow> unat d - unat c < 500000 \<Longrightarrow>
      \<exists>v. fst (rpc_request env ''getBlocks'' (get_blocks_params c d) st) = Inr v \<and>
          re_slots env v = Inr (map of_nat (filter produced (slots_of (c, d))))"
  shows "fst (get_blocks env a b st) = Inr (map of_nat (filter produced (slots_of (a, b))))"
  using get_blocks_served [of env produced a b st] assms by (simp add: serves_slots_def)

text \<open>A node with the slots 3 and 5.\<close>

definition demo_rpc :: rpc_env where
  "demo_rpc = \<lparr>
     rpc_attempts = (\<lambda>body. (HttpErr HttpTimeout ''t'',
       [HttpResp 200 (Inr \<lparr> jrr_result = json_get ''params'' body, jrr_error = None \<rparr>)])),
     re_show_status = show_nat, re_block = (\<lambda>_. Inl ''no''), re_get_tx = (\<lambda>_. Inl ''no''),
     re_slots = (\<lambda>v. case v of
         JArr [JInt c, JInt d, _] \<Rightarrow> Inr (map of_nat (filter (\<lambda>s. s = 3 \<or> s = 5) [nat c ..< Suc (nat d)]))
       | _ \<Rightarrow> Inl ''no''),
     re_slot = (\<lambda>_. Inr 9), re_pubkeys = (\<lambda>_. Inr []),
     re_accounts = (\<lambda>v. case v of
         JArr [JArr ks, _] \<Rightarrow> Inr (map (\<lambda>k. if k = JStr ''b'' then None
            else Some \<lparr> rac_data = [''xy''], rac_lamports = 1, rac_owner = ''o'' \<rparr>) ks)
       | _ \<Rightarrow> Inl ''no''),
     re_bs58_decode = (\<lambda>s. Inr (as_bytes s)), re_base64_decode = (\<lambda>s. Inr (as_bytes s)) \<rparr>"

lemma demo_rpc_request: "fst (rpc_request demo_rpc m params st) = Inr params"
proof -
  have "json_get ''params'' (rpc_body m params) = Some params"
    by (simp add: rpc_body_def json_obj_def btree_collect_def json_get_def)
  then show ?thesis
    by (simp add: rpc_request_def demo_rpc_def send_rpc_request_def is_retryable_def is_success_status_def)
qed

theorem get_blocks_complete_witness:
  "fst (get_blocks demo_rpc 2 6 runtime_stats_new) = Inr [3, 5]"
proof -
  have "fst (get_blocks demo_rpc 2 6 runtime_stats_new) =
      Inr (map of_nat (filter (\<lambda>s. s = 3 \<or> s = 5) (slots_of (2, 6))))"
  proof (rule get_blocks_complete)
    fix c d :: u64 and st
    have "re_slots demo_rpc (get_blocks_params c d) =
        Inr (map of_nat (filter (\<lambda>s. s = 3 \<or> s = 5) (slots_of (c, d))))"
      by (simp add: demo_rpc_def get_blocks_params_def slots_of_def)
    then show "\<exists>v. fst (rpc_request demo_rpc ''getBlocks'' (get_blocks_params c d) st) = Inr v \<and>
        re_slots demo_rpc v = Inr (map of_nat (filter (\<lambda>s. s = 3 \<or> s = 5) (slots_of (c, d))))"
      by (simp add: demo_rpc_request)
  qed
  also have "filter (\<lambda>s. s = 3 \<or> s = 5) (slots_of (2, 6)) = [3, 5 :: nat]"
    by (simp add: slots_of_def upt_rec)
  finally show ?thesis by simp
qed

section \<open>Accounts in batches\<close>

text \<open>The accounts of the keys, in order, for a node that has \<open>look k\<close> under the key \<open>k\<close>.\<close>

definition accounts_of ::
  "(raw_account_info \<Rightarrow> bytes) \<Rightarrow> (string \<Rightarrow> raw_account_info option) \<Rightarrow> string list \<Rightarrow> rpc_account_info list" where
  "accounts_of dec look ks = concat (map (\<lambda>k. case look k of None \<Rightarrow> []
     | Some raw \<Rightarrow> [\<lparr> rai_pubkey = k, rai_data = dec raw, rai_lamports = rac_lamports raw, rai_owner = rac_owner raw \<rparr>]) ks)"

definition get_accounts_params :: "string list \<Rightarrow> json" where
  "get_accounts_params ks = JArr [JArr (map JStr ks), finalized [(''encoding'', JStr ''base64'')]]"

lemma batch_accounts_complete:
  assumes "\<And>k raw. look k = Some raw \<Longrightarrow> decode_base64_account_data env (rac_data raw) = Inr (dec raw)"
    and "\<And>j. j < length ks \<Longrightarrow> pubkeys ! (start + i + j) = ks ! j"
  shows "batch_accounts env pubkeys start i (map look ks) = Inr (accounts_of dec look ks)"
  using assms(2)
proof (induction ks arbitrary: i)
  case Nil
  then show ?case by (simp add: accounts_of_def)
next
  case (Cons k ks)
  have k: "pubkeys ! (start + i) = k" using Cons.prems [of 0] by simp
  have "batch_accounts env pubkeys start (Suc i) (map look ks) = Inr (accounts_of dec look ks)"
    using Cons.prems [of "Suc j" for j] by (intro Cons.IH) simp
  then show ?case using k assms(1) by (cases "look k") (simp_all add: accounts_of_def)
qed

lemma get_accounts_loop_complete:
  assumes dec: "\<And>k raw. look k = Some raw \<Longrightarrow> decode_base64_account_data env (rac_data raw) = Inr (dec raw)"
    and node: "\<And>ks st. length ks \<le> 100 \<Longrightarrow>
      \<exists>v. fst (rpc_request env ''getMultipleAccounts'' (get_accounts_params ks) st) = Inr v \<and>
          re_accounts env v = Inr (map look ks)"
    and "pubkeys = pre @ ps" and "ps \<noteq> [] \<Longrightarrow> length pre = n * 100"
  shows "fst (get_accounts_loop env pubkeys
           (map (\<lambda>(i, c). (c, i * 100)) (enumerate n (list_chunks 100 ps))) st) = Inr (accounts_of dec look ps)"
  using assms(3,4)
proof (induction "100 :: nat" ps arbitrary: pre n st rule: list_chunks.induct)
  case 1
  then show ?case by (simp add: accounts_of_def)
next
  case (2 x xs)
  let ?ks = "take 100 (x # xs)" and ?rest = "drop 100 (x # xs)"
  obtain r st1 where r: "rpc_request env ''getMultipleAccounts'' (get_accounts_params ?ks) st = (r, st1)"
    by (cases "rpc_request env ''getMultipleAccounts'' (get_accounts_params ?ks) st")
  have "length ?ks \<le> 100" by simp
  from node [OF this, of st] r obtain v where v: "r = Inr v" "re_accounts env v = Inr (map look ?ks)" by auto
  have "batch_accounts env pubkeys (n * 100) 0 (map look ?ks) = Inr (accounts_of dec look ?ks)"
    by (rule batch_accounts_complete [OF dec]) (use "2.prems" in \<open>simp_all add: nth_append del: take_Cons_numeral\<close>)
  moreover have "fst (get_accounts_loop env pubkeys
      (map (\<lambda>(i, c). (c, i * 100)) (enumerate (Suc n) (list_chunks 100 ?rest))) st1) = Inr (accounts_of dec look ?rest)"
  proof -
    have m: "max 100 1 = (100 :: nat)" by simp
    show ?thesis
      by (rule "2.hyps" [unfolded m, of "pre @ ?ks"]) (use "2.prems" in simp_all)
  qed
  moreover have "accounts_of dec look (x # xs) = accounts_of dec look ?ks @ accounts_of dec look ?rest"
    unfolding accounts_of_def by (metis append_take_drop_id concat_append map_append)
  ultimately show ?case using r v by (simp add: get_accounts_params_def case_prod_beta)
qed

text \<open>C24. Accounts are fetched completely: whatever the number of keys, when the node answers every request
  of at most 100 keys with one entry per key, and every account it returns carries data that
  decodes, \<open>get_multiple_accounts\<close> returns every account under its own key, in the order of the keys,
  and leaves out exactly the keys without an account. The source cuts the keys into batches and
  pairs each answer with its batch, so an off-by-one at a batch border would pair data with a
  wrong key.\<close>

theorem get_multiple_accounts_complete:
  assumes "\<And>k raw. look k = Some raw \<Longrightarrow> decode_base64_account_data env (rac_data raw) = Inr (dec raw)"
    and "\<And>ks st. length ks \<le> 100 \<Longrightarrow>
      \<exists>v. fst (rpc_request env ''getMultipleAccounts'' (get_accounts_params ks) st) = Inr v \<and>
          re_accounts env v = Inr (map look ks)"
  shows "fst (get_multiple_accounts env pubkeys st) = Inr (accounts_of dec look pubkeys)"
  using get_accounts_loop_complete [where pubkeys = pubkeys and pre = "[]" and ps = pubkeys and n = 0 and st = st, OF assms]
  by (simp add: get_multiple_accounts_def batch_pubkeys_def MAX_MULTIPLE_ACCOUNTS_BATCH_def)

theorem get_multiple_accounts_complete_witness:
  "fst (get_multiple_accounts demo_rpc [''a'', ''b'', ''c''] runtime_stats_new) =
     Inr [\<lparr> rai_pubkey = ''a'', rai_data = as_bytes ''xy'', rai_lamports = 1, rai_owner = ''o'' \<rparr>,
          \<lparr> rai_pubkey = ''c'', rai_data = as_bytes ''xy'', rai_lamports = 1, rai_owner = ''o'' \<rparr>]"
proof -
  define look where "look = (\<lambda>k. if k = ''b'' then None
      else Some \<lparr> rac_data = [''xy''], rac_lamports = 1, rac_owner = ''o'' \<rparr>)"
  have "fst (get_multiple_accounts demo_rpc [''a'', ''b'', ''c''] runtime_stats_new) =
      Inr (accounts_of (\<lambda>_. as_bytes ''xy'') look [''a'', ''b'', ''c''])"
  proof (rule get_multiple_accounts_complete)
    show "look k = Some raw \<Longrightarrow> decode_base64_account_data demo_rpc (rac_data raw) = Inr (as_bytes ''xy'')" for k raw
      by (auto simp: look_def demo_rpc_def decode_base64_account_data_def split: if_splits)
    have "re_accounts demo_rpc (get_accounts_params ks) = Inr (map look ks)" for ks
      by (simp add: demo_rpc_def get_accounts_params_def look_def)
    then show "\<exists>v. fst (rpc_request demo_rpc ''getMultipleAccounts'' (get_accounts_params ks) st) = Inr v \<and>
        re_accounts demo_rpc v = Inr (map look ks)" for ks st
      by (simp add: demo_rpc_request)
  qed
  then show ?thesis by (simp add: accounts_of_def look_def)
qed

end
