(* ===== verification/Ws_Stream.thy ===== *)
theory Ws_Stream
  imports Rpc
begin

text \<open>
  The WebSocket stream (\<open>src/pipeline/ws.rs\<close>): the bounded deduplication set, the parsing of
  notifications with the slot cursor, the subscription handshake that buffers early frames, the
  heartbeat, and \<open>next\<close>.

  The socket is the list of what it delivers, each item with the time at which it is handled:
  a frame, a transport error, the end of the stream, or the expiry of the deadline.
  A list that runs out means the call is still waiting (for \<open>subscribe\<close>, that its 30 second
  budget expires). \<open>ws_env\<close> holds serde's derives for the two envelope types and the printer of a
  JSON value. Times are seconds; \<open>instant_max\<close> is the largest \<open>Instant\<close>.
\<close>

definition WS_HANDSHAKE_TIMEOUT :: nat where
  "WS_HANDSHAKE_TIMEOUT = 30"

definition MAX_SIGNATURE_LEN :: nat where
  "MAX_SIGNATURE_LEN = 128"

definition FALLBACK_DEADLINE :: nat where
  "FALLBACK_DEADLINE = 60"

record stream_event =
  se_signature :: string
  se_slot :: u64
  se_error :: "json option"

section \<open>Deduplication\<close>

record dedup_set =
  dd_seen :: "string set"
  dd_order :: "string list"
  dd_max_size :: nat

definition dedup_new :: "nat \<Rightarrow> dedup_set" where
  "dedup_new max_size = \<lparr> dd_seen = {}, dd_order = [], dd_max_size = max_size \<rparr>"

definition dedup_insert :: "dedup_set \<Rightarrow> string \<Rightarrow> bool \<times> dedup_set" where
  "dedup_insert d sig =
     (if sig \<in> dd_seen d then (False, d)
      else
        let d1 = (if dd_max_size d \<le> card (dd_seen d) then
                    (case dd_order d of
                       oldest # rest \<Rightarrow> d\<lparr> dd_order := rest, dd_seen := dd_seen d - {oldest} \<rparr>
                     | [] \<Rightarrow> d)
                  else d)
        in (True, d1\<lparr> dd_seen := insert sig (dd_seen d1), dd_order := dd_order d1 @ [sig] \<rparr>))"

definition dedup_contains :: "dedup_set \<Rightarrow> string \<Rightarrow> bool" where
  "dedup_contains d sig = (sig \<in> dd_seen d)"

definition dedup_len :: "dedup_set \<Rightarrow> nat" where
  "dedup_len d = card (dd_seen d)"

section \<open>Notifications\<close>

record ws_envelope =
  wv_method :: "string option"
  wv_result :: "json option"
  wv_error :: "json_rpc_error option"

record logs_notification =
  ln_signature :: string
  ln_err :: "json option"
  ln_slot :: u64

record ws_env =
  we_envelope :: "string \<Rightarrow> string + ws_envelope"
  we_notification :: "string \<Rightarrow> string + logs_notification"
  we_to_string :: "json \<Rightarrow> string"

definition parse_logs_notification ::
  "ws_env \<Rightarrow> string \<Rightarrow> dedup_set \<Rightarrow> u64 option \<Rightarrow>
   (pipeline_error + stream_event option) \<times> dedup_set \<times> u64 option" where
  "parse_logs_notification env text dedup last_seen_slot =
     (let early = (case we_envelope env text of
                     Inl _ \<Rightarrow> None
                   | Inr envelope \<Rightarrow>
                       (case wv_error envelope of
                          Some e \<Rightarrow> Some (Inl (WebSocketDisconnect (''server-pushed error: '' @ jre_message e @
                                      '' (code '' @ show_int (jre_code e) @ '')'')))
                        | None \<Rightarrow> if wv_method envelope \<noteq> Some ''logsNotification'' then Some (Inr None) else None))
      in case early of
           Some r \<Rightarrow> (r, dedup, last_seen_slot)
         | None \<Rightarrow>
             (case we_notification env text of
                Inl _ \<Rightarrow> (Inr None, dedup, last_seen_slot)
              | Inr n \<Rightarrow>
                  if MAX_SIGNATURE_LEN < length (ln_signature n) then (Inr None, dedup, last_seen_slot)
                  else
                    let last' = (if (case last_seen_slot of None \<Rightarrow> True | Some s \<Rightarrow> s < ln_slot n)
                                 then Some (ln_slot n) else last_seen_slot);
                        (fresh, dedup') = dedup_insert dedup (ln_signature n)
                    in if \<not> fresh then (Inr None, dedup', last')
                       else (Inr (Some \<lparr> se_signature = ln_signature n, se_slot = ln_slot n, se_error = ln_err n \<rparr>),
                             dedup', last')))"

section \<open>The stream\<close>

record ws_stream =
  ws_url :: string
  ws_connected :: bool
  ws_subscription_id :: "u64 option"
  ws_dedup :: dedup_set
  ws_last_seen_slot :: "u64 option"
  ws_ping_interval :: nat
  ws_pong_timeout :: nat
  ws_last_message_time :: nat
  ws_pending_ping :: bool
  ws_last_ping_time :: nat
  ws_pending_frames :: "string list"
  ws_program_id :: "string option"

text \<open>\<open>str::trim\<close> on ASCII white space (a URL with other white space is not one).\<close>

definition trim_start :: "string \<Rightarrow> string" where
  "trim_start s = dropWhile (\<lambda>c. c \<in> {CHR '' '', CHR 0x09, CHR 0x0A, CHR 0x0B, CHR 0x0C, CHR 0x0D}) s"

definition trim :: "string \<Rightarrow> string" where
  "trim s = rev (trim_start (rev (trim_start s)))"

definition derive_ws_url :: "string \<Rightarrow> string" where
  "derive_ws_url rpc_url =
     (let trimmed = trim rpc_url; lowered = to_lowercase trimmed
      in if prefix ''wss://'' lowered \<or> prefix ''ws://'' lowered then trimmed
         else if prefix ''https://'' lowered then ''wss://'' @ drop 8 trimmed
         else if prefix ''http://'' lowered then ''ws://'' @ drop 7 trimmed
         else trimmed)"

definition ws_new :: "string option \<Rightarrow> string \<Rightarrow> nat \<Rightarrow> nat \<Rightarrow> nat \<Rightarrow> nat \<Rightarrow> ws_stream" where
  "ws_new cfg_ws_url rpc_url dedup_cache_size ping_interval pong_timeout now =
     \<lparr> ws_url = (case cfg_ws_url of Some url \<Rightarrow> url | None \<Rightarrow> derive_ws_url rpc_url),
       ws_connected = False, ws_subscription_id = None, ws_dedup = dedup_new dedup_cache_size,
       ws_last_seen_slot = None, ws_ping_interval = ping_interval, ws_pong_timeout = pong_timeout,
       ws_last_message_time = now, ws_pending_ping = False, ws_last_ping_time = now,
       ws_pending_frames = [], ws_program_id = None \<rparr>"

definition reset_session_state :: "nat \<Rightarrow> ws_stream \<Rightarrow> ws_stream" where
  "reset_session_state now s =
     s\<lparr> ws_last_message_time := now, ws_last_ping_time := now, ws_pending_ping := False,
        ws_pending_frames := [] \<rparr>"

definition next_deadline :: "nat \<Rightarrow> nat \<Rightarrow> ws_stream \<Rightarrow> nat" where
  "next_deadline instant_max now s =
     (let (base, delta) = (if ws_pending_ping s then (ws_last_ping_time s, ws_pong_timeout s)
                           else (ws_last_message_time s, ws_ping_interval s))
      in if base + delta \<le> instant_max then base + delta else now + FALLBACK_DEADLINE)"

definition unsubscribe :: "ws_stream \<Rightarrow> ws_stream" where
  "unsubscribe s = s\<lparr> ws_connected := False, ws_subscription_id := None \<rparr>"

datatype ws_frame = FText string | FPing bytes | FPong bytes | FClose | FOther

text \<open>One step of the socket; \<open>send\<close> is the result of the answer the step triggers.\<close>

datatype ws_input =
    WsFrame nat ws_frame "string option"
  | WsError string
  | WsEnd
  | WsDeadline nat "string option"

definition as_u64 :: "json \<Rightarrow> u64 option" where
  "as_u64 v = (case v of JInt i \<Rightarrow> if 0 \<le> i \<and> i < 2 ^ 64 then Some (of_int i) else None | _ \<Rightarrow> None)"

fun handshake_loop :: "ws_env \<Rightarrow> ws_input list \<Rightarrow> ws_stream \<Rightarrow> (pipeline_error + unit) \<times> ws_stream" where
  "handshake_loop env [] s =
     (Inl (WebSocketDisconnect (''WebSocket handshake timed out after '' @ show_nat WS_HANDSHAKE_TIMEOUT @ ''s'')), s)"
| "handshake_loop env (WsFrame t (FText text) sent # rest) s =
     (case we_envelope env text of
        Inl e \<Rightarrow> (Inl (WebSocketDisconnect (''failed to parse subscribe response: '' @ e)), s)
      | Inr envelope \<Rightarrow>
          if wv_method envelope = Some ''logsNotification'' then
            handshake_loop env rest (s\<lparr> ws_pending_frames := ws_pending_frames s @ [text] \<rparr>)
          else
            (case wv_error envelope of
               Some e \<Rightarrow> (Inl (WebSocketDisconnect (''logsSubscribe failed: '' @ jre_message e @
                            '' (code '' @ show_int (jre_code e) @ '')'')), s)
             | None \<Rightarrow>
                 (case wv_result envelope of
                    Some result \<Rightarrow>
                      (case as_u64 result of
                         None \<Rightarrow> (Inl (WebSocketDisconnect
                                    (''logsSubscribe returned non-u64 subscription ID: '' @ we_to_string env result)), s)
                       | Some sub_id \<Rightarrow> (Inr (), s\<lparr> ws_subscription_id := Some sub_id \<rparr>))
                  | None \<Rightarrow> handshake_loop env rest s)))"
| "handshake_loop env (WsFrame t (FPing data) sent # rest) s =
     (case sent of
        Some e \<Rightarrow> (Inl (WebSocketDisconnect (''pong send failed: '' @ e)), s)
      | None \<Rightarrow> handshake_loop env rest s)"
| "handshake_loop env (WsFrame t FClose sent # rest) s =
     (Inl (WebSocketDisconnect ''server closed connection during subscribe''), s)"
| "handshake_loop env (WsFrame t (FPong data) sent # rest) s = handshake_loop env rest s"
| "handshake_loop env (WsFrame t FOther sent # rest) s = handshake_loop env rest s"
| "handshake_loop env (WsError e # rest) s = (Inl (WebSocketDisconnect (''error during subscribe: '' @ e)), s)"
| "handshake_loop env (WsEnd # rest) s =
     (Inl (WebSocketDisconnect ''stream ended before subscription response''), s)"
| "handshake_loop env (WsDeadline t sent # rest) s = handshake_loop env rest s"

text \<open>\<open>connect\<close> and \<open>sub_sent\<close> are the errors of the connection and of the request, if any.\<close>

definition do_handshake ::
  "ws_env \<Rightarrow> string option \<Rightarrow> string option \<Rightarrow> ws_input list \<Rightarrow> ws_stream \<Rightarrow>
   (pipeline_error + unit) \<times> ws_stream" where
  "do_handshake env connect sub_sent inputs s =
     (case connect of
        Some e \<Rightarrow> (Inl (WebSocketDisconnect (''connect failed: '' @ e)), s)
      | None \<Rightarrow>
          (let s1 = s\<lparr> ws_connected := True \<rparr>
           in case sub_sent of
                Some e \<Rightarrow> (Inl (WebSocketDisconnect (''subscribe send failed: '' @ e)), s1)
              | None \<Rightarrow> handshake_loop env inputs s1))"

definition subscribe ::
  "ws_env \<Rightarrow> string option \<Rightarrow> string option \<Rightarrow> ws_input list \<Rightarrow> nat \<Rightarrow> nat \<Rightarrow> string \<Rightarrow> ws_stream \<Rightarrow>
   (pipeline_error + unit) \<times> ws_stream" where
  "subscribe env connect sub_sent inputs now now' program_id s =
     (let s1 = (reset_session_state now (unsubscribe s))\<lparr> ws_program_id := Some program_id \<rparr>;
          (r, s2) = do_handshake env connect sub_sent inputs s1
      in case r of Inl e \<Rightarrow> (Inl e, s2) | Inr _ \<Rightarrow> (Inr (), s2\<lparr> ws_last_message_time := now' \<rparr>))"

definition on_text :: "ws_env \<Rightarrow> string \<Rightarrow> ws_stream \<Rightarrow> (pipeline_error + stream_event option) \<times> ws_stream" where
  "on_text env text s =
     (let (r, dedup, last_seen) = parse_logs_notification env text (ws_dedup s) (ws_last_seen_slot s)
      in (r, s\<lparr> ws_dedup := dedup, ws_last_seen_slot := last_seen \<rparr>))"

text \<open>
  The inputs of the connected loop; \<open>None\<close> while it is still waiting.
\<close>

fun next_inputs ::
  "ws_env \<Rightarrow> ws_input list \<Rightarrow> ws_stream \<Rightarrow> (pipeline_error + stream_event) option \<times> ws_stream \<times> ws_input list" where
  "next_inputs env [] s = (if ws_connected s then (None, s, []) else (Some (Inl (WebSocketDisconnect ''not connected'')), s, []))"
| "next_inputs env (i # rest) s =
     (if \<not> ws_connected s then (Some (Inl (WebSocketDisconnect ''not connected'')), s, i # rest)
      else case i of
        WsFrame t (FText text) sent \<Rightarrow>
          (case on_text env text (s\<lparr> ws_last_message_time := t \<rparr>) of
             (Inl e, s') \<Rightarrow> (Some (Inl e), s', rest)
           | (Inr (Some event), s') \<Rightarrow> (Some (Inr event), s', rest)
           | (Inr None, s') \<Rightarrow> next_inputs env rest s')
      | WsFrame t (FPong data) sent \<Rightarrow>
          next_inputs env rest (s\<lparr> ws_last_message_time := t, ws_pending_ping := False \<rparr>)
      | WsFrame t (FPing data) sent \<Rightarrow>
          (case sent of
             Some e \<Rightarrow> (Some (Inl (WebSocketDisconnect (''pong send failed: '' @ e))),
                         s\<lparr> ws_last_message_time := t \<rparr>, rest)
           | None \<Rightarrow> next_inputs env rest (s\<lparr> ws_last_message_time := t \<rparr>))
      | WsFrame t FClose sent \<Rightarrow> (Some (Inl (WebSocketDisconnect ''server closed connection'')), s, rest)
      | WsFrame t FOther sent \<Rightarrow> next_inputs env rest s
      | WsError e \<Rightarrow> (Some (Inl (WebSocketDisconnect e)), s, rest)
      | WsEnd \<Rightarrow> (Some (Inl (WebSocketDisconnect ''stream ended'')), s, rest)
      | WsDeadline t sent \<Rightarrow>
          if ws_pending_ping s then (Some (Inl (WebSocketDisconnect ''pong timeout'')), s, rest)
          else (case sent of
                  Some e \<Rightarrow> (Some (Inl (WebSocketDisconnect (''ping send failed: '' @ e))), s, rest)
                | None \<Rightarrow> next_inputs env rest (s\<lparr> ws_pending_ping := True, ws_last_ping_time := t \<rparr>)))"

fun next_pending ::
  "ws_env \<Rightarrow> string list \<Rightarrow> ws_input list \<Rightarrow> ws_stream \<Rightarrow>
   (pipeline_error + stream_event) option \<times> ws_stream \<times> ws_input list" where
  "next_pending env [] inputs s = next_inputs env inputs (s\<lparr> ws_pending_frames := [] \<rparr>)"
| "next_pending env (text # frames) inputs s =
     (case on_text env text (s\<lparr> ws_pending_frames := frames \<rparr>) of
        (Inl e, s') \<Rightarrow> (Some (Inl e), s', inputs)
      | (Inr (Some event), s') \<Rightarrow> (Some (Inr event), s', inputs)
      | (Inr None, s') \<Rightarrow> next_pending env frames inputs s')"

definition ws_next ::
  "ws_env \<Rightarrow> ws_input list \<Rightarrow> ws_stream \<Rightarrow> (pipeline_error + stream_event) option \<times> ws_stream \<times> ws_input list" where
  "ws_next env inputs s = next_pending env (ws_pending_frames s) inputs s"

end
