(* ===== verification/Ws_Correct.thy ===== *)
theory Ws_Correct
  imports Ws_Stream
begin

text \<open>
  Correctness of the stream: the deduplication set is a sliding window over the accepted
  signatures, the slot cursor is the maximum of the notified slots, the handshake loses no
  notification, and a silent peer is detected.
\<close>

section \<open>Deduplication\<close>

fun run_dedup :: "dedup_set \<Rightarrow> string list \<Rightarrow> string list \<times> dedup_set" where
  "run_dedup d [] = ([], d)"
| "run_dedup d (s # ss) =
     (let (fresh, d1) = dedup_insert d s; (acc, d2) = run_dedup d1 ss
      in (if fresh then s # acc else acc, d2))"

abbreviation window :: "dedup_set \<Rightarrow> nat" where
  "window d \<equiv> max 1 (dd_max_size d)"

text \<open>\<open>h\<close> is what was accepted so far: the set holds its cur entries, as many as the window.\<close>

definition dedup_inv :: "string list \<Rightarrow> dedup_set \<Rightarrow> bool" where
  "dedup_inv h d \<longleftrightarrow> dd_seen d = set (dd_order d) \<and> distinct (dd_order d) \<and>
     dd_order d = drop (length h - window d) h"

lemma dedup_inv_new: "dedup_inv [] (dedup_new n)"
  by (simp add: dedup_inv_def dedup_new_def)

lemma dedup_insert_max [simp]: "dd_max_size (snd (dedup_insert d s)) = dd_max_size d"
  by (simp add: dedup_insert_def Let_def split: list.splits)

lemma dedup_insert_dup: "s \<in> dd_seen d \<Longrightarrow> dedup_insert d s = (False, d)"
  by (simp add: dedup_insert_def)

lemma dedup_insert_fresh:
  assumes inv: "dedup_inv h d" and "s \<notin> dd_seen d"
  shows "fst (dedup_insert d s)" and "dedup_inv (h @ [s]) (snd (dedup_insert d s))"
proof -
  show "fst (dedup_insert d s)" using assms(2) by (simp add: dedup_insert_def Let_def)
  let ?w = "window d" and ?o = "dd_order d"
  have o: "?o = drop (length h - ?w) h" and set: "dd_seen d = set ?o" and dist: "distinct ?o"
    using inv by (auto simp: dedup_inv_def)
  have card: "card (dd_seen d) = length ?o" using set dist by (simp add: distinct_card)
  have len: "length ?o = min ?w (length h)" using o by simp
  define o' where "o' = (if dd_max_size d \<le> length ?o then tl ?o else ?o)"
  have d': "snd (dedup_insert d s) = d\<lparr> dd_seen := insert s (set o'), dd_order := o' @ [s] \<rparr>"
    using assms(2) set card dist
    by (cases ?o) (auto simp: dedup_insert_def Let_def o'_def)
  have "o' = drop (length (h @ [s]) - ?w) h"
  proof (cases "dd_max_size d \<le> length ?o")
    case True
    then have "length h < ?w \<Longrightarrow> h = []" using len by (auto simp: max_def split: if_splits)
    then consider "h = []" | "?w \<le> length h" by linarith
    then show ?thesis
    proof cases
      case 1
      then show ?thesis using o by (simp add: o'_def)
    next
      case 2
      then have "length (h @ [s]) - ?w = Suc (length h - ?w)" by (simp add: Suc_diff_le del: max.bounded_iff)
      moreover have "o' = tl (drop (length h - ?w) h)" using True o unfolding o'_def by argo
      ultimately show ?thesis by (simp add: drop_Suc drop_tl)
    qed
  next
    case False
    then have "length h < ?w" using len by (auto simp: min_def split: if_splits)
    then show ?thesis using False o unfolding o'_def by simp
  qed
  then have "o' @ [s] = drop (length (h @ [s]) - ?w) (h @ [s])" by simp
  moreover have "distinct (o' @ [s])"
    using dist assms(2) set by (cases ?o) (auto simp: o'_def)
  ultimately show "dedup_inv (h @ [s]) (snd (dedup_insert d s))"
    unfolding dedup_inv_def d' by simp
qed

text \<open>Within \<open>w\<close> accepted entries no signature comes twice.\<close>

definition spaced :: "nat \<Rightarrow> string list \<Rightarrow> bool" where
  "spaced w h \<longleftrightarrow> (\<forall>i j. i < j \<longrightarrow> j < length h \<longrightarrow> j - i \<le> w \<longrightarrow> h ! i \<noteq> h ! j)"

lemma spaced_snoc:
  assumes "spaced w h" and "s \<notin> set (drop (length h - w) h)"
  shows "spaced w (h @ [s])"
  unfolding spaced_def
proof (intro allI impI)
  fix i j assume ij: "i < j" "j < length (h @ [s])" "j - i \<le> w"
  show "(h @ [s]) ! i \<noteq> (h @ [s]) ! j"
  proof (cases "j = length h")
    case True
    then have "h ! i \<in> set (drop (length h - w) h)"
      using ij by (auto simp: in_set_conv_nth intro!: exI [of _ "i - (length h - w)"])
    then show ?thesis using True ij assms(2) by (auto simp: nth_append)
  next
    case False
    then show ?thesis using ij assms(1) by (auto simp: spaced_def nth_append)
  qed
qed

lemma run_dedup_spaced:
  "dedup_inv h d \<Longrightarrow> spaced (window d) h \<Longrightarrow>
   spaced (window d) (h @ fst (run_dedup d ss)) \<and> set (h @ fst (run_dedup d ss)) = set h \<union> set ss \<and>
   dedup_inv (h @ fst (run_dedup d ss)) (snd (run_dedup d ss)) \<and> dd_max_size (snd (run_dedup d ss)) = dd_max_size d"
proof (induction ss arbitrary: h d)
  case (Cons s ss)
  show ?case
  proof (cases "s \<in> dd_seen d")
    case True
    then have "s \<in> set h" using Cons.prems(1) by (auto simp: dedup_inv_def dest: in_set_dropD)
    then show ?thesis using Cons.IH [OF Cons.prems] True
      by (auto simp: dedup_insert_dup case_prod_beta Let_def)
  next
    case False
    note f = dedup_insert_fresh [OF Cons.prems(1) False]
    have "spaced (window (snd (dedup_insert d s))) (h @ [s])"
      using spaced_snoc [OF Cons.prems(2), of s] False Cons.prems(1) by (simp add: dedup_inv_def)
    from Cons.IH [OF f(2) this] show ?thesis using f(1) by (auto simp: case_prod_beta Let_def)
  qed
qed simp

text \<open>C19. The bounded deduplication set, over any sequence of notified signatures: every signature is
  accepted at least once, no signature is accepted twice within a window of the configured size
  (at least one), and the set never holds more than that many entries.\<close>

theorem dedup_window:
  "let (acc, d) = run_dedup (dedup_new n) sigs
   in set acc = set sigs \<and> spaced (max 1 n) acc \<and> dedup_len d \<le> max 1 n"
proof -
  let ?acc = "fst (run_dedup (dedup_new n) sigs)" and ?d = "snd (run_dedup (dedup_new n) sigs)"
  have max: "dd_max_size (dedup_new n) = n" by (simp add: dedup_new_def)
  have "spaced (max 1 n) []" by (simp add: spaced_def)
  then have r: "spaced (max 1 n) ?acc" "set ?acc = set sigs" "dedup_inv ?acc ?d" "dd_max_size ?d = n"
    using run_dedup_spaced [OF dedup_inv_new, of n sigs] by (simp_all add: max)
  from r(3,4) have "dd_seen ?d = set (dd_order ?d)" "distinct (dd_order ?d)"
    "dd_order ?d = drop (length ?acc - max 1 n) ?acc"
    by (auto simp: dedup_inv_def)
  then have "dedup_len ?d \<le> max 1 n"
    by (simp add: dedup_len_def distinct_card)
  then show ?thesis using r by (simp add: case_prod_beta)
qed

section \<open>The slot cursor\<close>

text \<open>What the parser accepts as a notification, whatever the deduplication says of it.\<close>

definition notification_of :: "ws_env \<Rightarrow> string \<Rightarrow> logs_notification option" where
  "notification_of env text =
     (case we_envelope env text of
        Inr envelope \<Rightarrow> if wv_error envelope \<noteq> None \<or> wv_method envelope \<noteq> Some ''logsNotification'' then None
                        else (case we_notification env text of
                                Inl _ \<Rightarrow> None
                              | Inr n \<Rightarrow> if MAX_SIGNATURE_LEN < length (ln_signature n) then None else Some n)
      | Inl _ \<Rightarrow> (case we_notification env text of
                    Inl _ \<Rightarrow> None
                  | Inr n \<Rightarrow> if MAX_SIGNATURE_LEN < length (ln_signature n) then None else Some n))"

fun run_texts :: "ws_env \<Rightarrow> string list \<Rightarrow> ws_stream \<Rightarrow> stream_event list \<times> ws_stream" where
  "run_texts env [] s = ([], s)"
| "run_texts env (text # texts) s =
     (let (r, s1) = on_text env text s; (events, s2) = run_texts env texts s1
      in (case r of Inr (Some e) \<Rightarrow> e # events | _ \<Rightarrow> events, s2))"

fun max_slot :: "u64 option \<Rightarrow> u64 list \<Rightarrow> u64 option" where
  "max_slot cur [] = cur"
| "max_slot cur (x # xs) = max_slot (Some (case cur of None \<Rightarrow> x | Some y \<Rightarrow> max y x)) xs"

lemma on_text_none:
  "notification_of env text = None \<Longrightarrow>
   ws_last_seen_slot (snd (on_text env text s)) = ws_last_seen_slot s \<and>
   ws_dedup (snd (on_text env text s)) = ws_dedup s \<and> (\<forall>e. fst (on_text env text s) \<noteq> Inr (Some e))"
proof -
  assume n: "notification_of env text = None"
  have "\<exists>r. parse_logs_notification env text d c = (r, d, c) \<and> (\<forall>e. r \<noteq> Inr (Some e))" for d c
    using n by (cases "we_envelope env text"; cases "we_notification env text")
      (auto simp: parse_logs_notification_def notification_of_def Let_def split: option.splits if_splits)
  then obtain r where "parse_logs_notification env text (ws_dedup s) (ws_last_seen_slot s) = (r, ws_dedup s, ws_last_seen_slot s)"
    "\<forall>e. r \<noteq> Inr (Some e)" by blast
  then show ?thesis by (simp add: on_text_def)
qed

lemma on_text_some:
  "notification_of env text = Some n \<Longrightarrow>
   on_text env text s =
     (Inr (if ln_signature n \<in> dd_seen (ws_dedup s) then None
           else Some \<lparr> se_signature = ln_signature n, se_slot = ln_slot n, se_error = ln_err n \<rparr>),
      s\<lparr> ws_dedup := snd (dedup_insert (ws_dedup s) (ln_signature n)),
         ws_last_seen_slot := max_slot (ws_last_seen_slot s) [ln_slot n] \<rparr>)"
proof -
  assume n: "notification_of env text = Some n"
  have p: "parse_logs_notification env text d c =
      (let (fresh, d') = dedup_insert d (ln_signature n)
       in (Inr (if fresh then Some \<lparr> se_signature = ln_signature n, se_slot = ln_slot n, se_error = ln_err n \<rparr> else None),
           d', max_slot c [ln_slot n]))" for d c
    using n by (cases "we_envelope env text"; cases "we_notification env text"; cases c)
      (auto simp: parse_logs_notification_def notification_of_def Let_def case_prod_beta max_def
        split: option.splits if_splits)
  show ?thesis
    by (simp add: on_text_def p case_prod_beta Let_def dedup_insert_def)
qed

lemma max_slot_le: "cur = Some y \<Longrightarrow> \<exists>m. max_slot cur xs = Some m \<and> y \<le> m \<and> (\<forall>x\<in>set xs. x \<le> m)"
proof (induction xs arbitrary: cur y)
  case (Cons x xs)
  from Cons.IH [OF refl, of "max y x"] Cons.prems show ?case by auto
qed simp

lemma max_slot_bound: "x \<in> set xs \<Longrightarrow> \<exists>m. max_slot cur xs = Some m \<and> x \<le> m"
proof (cases xs)
  case (Cons y ys)
  moreover assume "x \<in> set xs"
  ultimately show ?thesis
    using max_slot_le [OF refl, of "case cur of None \<Rightarrow> y | Some z \<Rightarrow> max z y" ys]
    by (auto split: option.splits)
qed simp

definition noted_slots :: "ws_env \<Rightarrow> string list \<Rightarrow> u64 list" where
  "noted_slots env texts = map ln_slot (List.map_filter (notification_of env) texts)"

lemma noted_slots_simps [simp]:
  "noted_slots env [] = []"
  "noted_slots env (t # ts) =
     (case notification_of env t of None \<Rightarrow> noted_slots env ts | Some n \<Rightarrow> ln_slot n # noted_slots env ts)"
  by (simp_all add: noted_slots_def List.map_filter_def split: option.splits)

lemma max_slot_append1: "max_slot cur (x # xs) = max_slot (max_slot cur [x]) xs"
  by simp

lemma run_texts_cursor: "ws_last_seen_slot (snd (run_texts env texts s)) = max_slot (ws_last_seen_slot s) (noted_slots env texts)"
proof (induction texts arbitrary: s)
  case (Cons t texts)
  show ?case
  proof (cases "notification_of env t")
    case None
    with Cons.IH [of "snd (on_text env t s)"] on_text_none [OF None, of s] show ?thesis
      by (simp add: case_prod_beta Let_def)
  next
    case (Some n)
    with Cons.IH [of "snd (on_text env t s)"] on_text_some [OF Some, of s] show ?thesis
      by (simp add: case_prod_beta Let_def)
  qed
qed simp

lemma run_texts_events: "e \<in> set (fst (run_texts env texts s)) \<Longrightarrow> se_slot e \<in> set (noted_slots env texts)"
proof (induction texts arbitrary: s)
  case (Cons t texts)
  show ?case
  proof (cases "notification_of env t")
    case None
    then show ?thesis using Cons on_text_none [OF None, of s]
      by (auto simp: case_prod_beta Let_def split: sum.splits option.splits)
  next
    case (Some n)
    then show ?thesis using Cons on_text_some [OF Some, of s]
      by (auto simp: case_prod_beta Let_def split: if_splits)
  qed
qed simp

text \<open>Over any sequence of text frames the slot cursor of the stream is the maximum of its old value
  and of the slots of all well-formed notifications, duplicates included; so every event the stream
  hands out has a slot at or below the cursor, which is where the next catch-up resumes.\<close>

theorem ws_cursor_max:
  "let (events, s') = run_texts env texts s
   in ws_last_seen_slot s' = max_slot (ws_last_seen_slot s) (noted_slots env texts) \<and>
      list_all (\<lambda>e. case ws_last_seen_slot s' of None \<Rightarrow> False | Some c \<Rightarrow> se_slot e \<le> c) events"
proof -
  have "case max_slot (ws_last_seen_slot s) (noted_slots env texts) of None \<Rightarrow> False | Some c \<Rightarrow> se_slot e \<le> c"
    if "e \<in> set (fst (run_texts env texts s))" for e
    using max_slot_bound [OF run_texts_events [OF that], of "ws_last_seen_slot s"] by auto
  then show ?thesis by (simp add: case_prod_beta run_texts_cursor list_all_iff)
qed

section \<open>Handshake and heartbeat\<close>

definition is_notification :: "ws_env \<Rightarrow> string \<Rightarrow> bool" where
  "is_notification env text =
     (case we_envelope env text of Inl _ \<Rightarrow> False | Inr v \<Rightarrow> wv_method v = Some ''logsNotification'')"

fun notification_texts :: "ws_env \<Rightarrow> ws_input list \<Rightarrow> string list" where
  "notification_texts env [] = []"
| "notification_texts env (WsFrame t (FText text) sent # rest) =
     (if is_notification env text then text # notification_texts env rest else notification_texts env rest)"
| "notification_texts env (i # rest) = notification_texts env rest"

definition acks :: "ws_env \<Rightarrow> string \<Rightarrow> u64 \<Rightarrow> bool" where
  "acks env text sid \<longleftrightarrow> \<not> is_notification env text \<and>
     (case we_envelope env text of
        Inl _ \<Rightarrow> False
      | Inr v \<Rightarrow> wv_error v = None \<and> Option.bind (wv_result v) as_u64 = Some sid)"

definition acked_by :: "ws_env \<Rightarrow> ws_input list \<Rightarrow> ws_stream \<Rightarrow> ws_stream \<Rightarrow> bool" where
  "acked_by env inputs s s' \<longleftrightarrow>
     (\<exists>pre t text sent rest sid. inputs = pre @ WsFrame t (FText text) sent # rest \<and> acks env text sid \<and>
        s' = s\<lparr> ws_subscription_id := Some sid,
                 ws_pending_frames := ws_pending_frames s @ notification_texts env pre \<rparr>)"

lemma acked_by_skip:
  "acked_by env inputs s s' \<Longrightarrow> notification_texts env [i] = [] \<Longrightarrow> acked_by env (i # inputs) s s'"
  unfolding acked_by_def
proof (elim exE conjE)
  fix pre t "text" sent rest sid
  assume a: "notification_texts env [i] = []" "inputs = pre @ WsFrame t (FText text) sent # rest" "acks env text sid"
    "s' = s\<lparr> ws_subscription_id := Some sid, ws_pending_frames := ws_pending_frames s @ notification_texts env pre \<rparr>"
  have "notification_texts env (i # pre) = notification_texts env pre"
    using a(1) by (cases "(env, i # pre)" rule: notification_texts.cases) (auto split: if_splits)
  with a show "\<exists>pre t text sent rest sid. i # inputs = pre @ WsFrame t (FText text) sent # rest \<and> acks env text sid \<and>
        s' = s\<lparr> ws_subscription_id := Some sid, ws_pending_frames := ws_pending_frames s @ notification_texts env pre \<rparr>"
    by (intro exI [of _ "i # pre"] exI [of _ t] exI [of _ "text"] exI [of _ sent] exI [of _ rest] exI [of _ sid]) simp
qed

lemma acked_by_here:
  "acks env text sid \<Longrightarrow> acked_by env (WsFrame t (FText text) sent # rest) s (s\<lparr> ws_subscription_id := Some sid \<rparr>)"
  unfolding acked_by_def
  by (intro exI [of _ "[]"] exI [of _ t] exI [of _ "text"] exI [of _ sent] exI [of _ rest] exI [of _ sid]) simp

lemma acked_by_notification:
  assumes "acked_by env rest (s\<lparr> ws_pending_frames := ws_pending_frames s @ [text] \<rparr>) s'" and "is_notification env text"
  shows "acked_by env (WsFrame t (FText text) sent # rest) s s'"
proof -
  from assms(1) obtain pre t' text' sent' rest' sid where "rest = pre @ WsFrame t' (FText text') sent' # rest'"
    "acks env text' sid"
    "s' = s\<lparr> ws_pending_frames := (ws_pending_frames s @ [text]) @ notification_texts env pre, ws_subscription_id := Some sid \<rparr>"
    by (auto simp: acked_by_def)
  then show ?thesis using assms(2) unfolding acked_by_def
    by (intro exI [of _ "WsFrame t (FText text) sent # pre"] exI [of _ t'] exI [of _ text'] exI [of _ sent']
        exI [of _ rest'] exI [of _ sid]) simp
qed

lemma handshake_loop_acked: "handshake_loop env inputs s = (Inr (), s') \<Longrightarrow> acked_by env inputs s s'"
proof (induction env inputs s rule: handshake_loop.induct)
  case (2 env t "text" sent rest s)
  then obtain v where v: "we_envelope env text = Inr v" by (auto split: sum.splits)
  show ?case
  proof (cases "wv_method v = Some ''logsNotification''")
    case True
    then show ?thesis using 2 v by (auto simp: is_notification_def intro: acked_by_notification)
  next
    case False
    show ?thesis
    proof (cases "wv_result v")
      case None
      then show ?thesis using 2 v False
        by (auto simp: is_notification_def intro!: acked_by_skip split: option.splits)
    next
      case (Some r)
      then show ?thesis using 2 v False
        by (auto simp: is_notification_def acks_def intro!: acked_by_here split: option.splits)
    qed
  qed
qed (auto intro: acked_by_skip split: option.splits)

text \<open>C22. A successful \<open>subscribe\<close> loses no notification: the server's answer that it stopped at is a
  text frame with a numeric subscription id and no error, that id is stored, and every notification
  that arrived before it is in the buffer from which \<open>next\<close> serves first, in order and with nothing
  else in it.\<close>

theorem subscribe_buffers_notifications:
  assumes "subscribe env connect sub_sent inputs now now' pid s = (Inr (), s')"
  shows "\<exists>pre t text sent rest sid. inputs = pre @ WsFrame t (FText text) sent # rest \<and> acks env text sid \<and>
     ws_subscription_id s' = Some sid \<and> ws_pending_frames s' = notification_texts env pre \<and>
     ws_connected s' \<and> ws_program_id s' = Some pid \<and> \<not> ws_pending_ping s' \<and> ws_dedup s' = ws_dedup s \<and>
     ws_last_seen_slot s' = ws_last_seen_slot s"
proof -
  let ?s = "(reset_session_state now (unsubscribe s))\<lparr> ws_program_id := Some pid, ws_connected := True \<rparr>"
  from assms obtain s2 where "handshake_loop env inputs ?s = (Inr (), s2)" "s' = s2\<lparr> ws_last_message_time := now' \<rparr>"
    by (auto simp: subscribe_def do_handshake_def Let_def split: option.splits prod.splits sum.splits)
  moreover from this(1) obtain pre t "text" sent rest sid
    where "inputs = pre @ WsFrame t (FText text) sent # rest" "acks env text sid"
      "s2 = ?s\<lparr> ws_subscription_id := Some sid, ws_pending_frames := ws_pending_frames ?s @ notification_texts env pre \<rparr>"
    using handshake_loop_acked [of env inputs ?s s2] by (auto simp: acked_by_def)
  ultimately show ?thesis
    by (intro exI [of _ pre] exI [of _ t] exI [of _ "text"] exI [of _ sent] exI [of _ rest] exI [of _ sid])
      (simp add: reset_session_state_def unsubscribe_def)
qed

fun deadlines :: "ws_input list \<Rightarrow> nat" where
  "deadlines [] = 0"
| "deadlines (WsDeadline t sent # rest) = Suc (deadlines rest)"
| "deadlines (i # rest) = deadlines rest"

fun no_pong :: "ws_input list \<Rightarrow> bool" where
  "no_pong [] = True"
| "no_pong (WsFrame t (FPong data) sent # rest) = False"
| "no_pong (i # rest) = no_pong rest"

lemma on_text_flags [simp]:
  "ws_pending_ping (snd (on_text env text s)) = ws_pending_ping s"
  "ws_connected (snd (on_text env text s)) = ws_connected s"
  by (simp_all add: on_text_def case_prod_beta)

lemma next_inputs_pong_timeout:
  "no_pong inputs \<Longrightarrow> (if ws_pending_ping s then 1 else 2) \<le> deadlines inputs \<Longrightarrow>
   fst (next_inputs env inputs s) \<noteq> None"
proof (induction inputs arbitrary: s)
  case Nil
  then show ?case by (simp split: if_splits)
next
  case (Cons i inputs)
  show ?case
  proof (cases i)
    case (WsFrame t f sent)
    then show ?thesis
    proof (cases f)
      case (FText "text")
      obtain r s' where r: "on_text env text (s\<lparr> ws_last_message_time := t \<rparr>) = (r, s')" by fastforce
      then have "ws_pending_ping s' = ws_pending_ping s" using on_text_flags(1) [of env "text" "s\<lparr> ws_last_message_time := t \<rparr>"] by simp
      then show ?thesis using Cons.prems Cons.IH [of s'] WsFrame FText r
        by (simp split: sum.splits option.splits)
    qed (use Cons WsFrame in \<open>auto split: option.splits\<close>)
  qed (use Cons in \<open>auto split: option.splits if_splits\<close>)
qed

lemma next_pending_pong_timeout:
  "no_pong inputs \<Longrightarrow> (if ws_pending_ping s then 1 else 2) \<le> deadlines inputs \<Longrightarrow>
   fst (next_pending env frames inputs s) \<noteq> None"
proof (induction frames arbitrary: s)
  case Nil
  then show ?case using next_inputs_pong_timeout [of inputs "s\<lparr> ws_pending_frames := [] \<rparr>" env] by simp
next
  case (Cons "text" frames)
  obtain r s' where r: "on_text env text (s\<lparr> ws_pending_frames := frames \<rparr>) = (r, s')" by fastforce
  then have "ws_pending_ping s' = ws_pending_ping s" using on_text_flags(1) [of env "text" "s\<lparr> ws_pending_frames := frames \<rparr>"] by simp
  then show ?case using Cons.prems Cons.IH [of s'] r by (simp split: sum.splits option.splits)
qed

text \<open>C23. A silent peer is always detected: whatever else the socket delivers (texts, pings, unknown
  frames), when no pong comes and two deadlines expire (one, when a ping is already outstanding),
  \<open>next\<close> returns an event or an error instead of waiting on.\<close>

theorem ws_next_detects_silence:
  assumes "no_pong inputs" and "(if ws_pending_ping s then 1 else 2) \<le> deadlines inputs"
  shows "\<exists>r. fst (ws_next env inputs s) = Some r"
  using next_pending_pong_timeout [OF assms, of env "ws_pending_frames s"] by (auto simp: ws_next_def)

section \<open>A concrete session\<close>

definition demo_ws_env :: ws_env where
  "demo_ws_env = \<lparr>
     we_envelope = (\<lambda>t. if t = ''n'' then Inr \<lparr> wv_method = Some ''logsNotification'', wv_result = None, wv_error = None \<rparr>
                        else Inr \<lparr> wv_method = None, wv_result = Some (JInt 7), wv_error = None \<rparr>),
     we_notification = (\<lambda>t. if t = ''n'' then Inr \<lparr> ln_signature = ''sig'', ln_err = None, ln_slot = 5 \<rparr> else Inl ''''),
     we_to_string = (\<lambda>_. '''') \<rparr>"

definition demo_ws :: ws_stream where
  "demo_ws = ws_new None ''https://rpc'' 2 30 10 0"

lemmas demo_ws_defs = demo_ws_env_def demo_ws_def ws_new_def subscribe_def do_handshake_def reset_session_state_def
  unsubscribe_def as_u64_def

lemma demo_ws_subscribes:
  "subscribe demo_ws_env None None [WsFrame 1 (FText ''n'') None, WsFrame 2 (FText ''ok'') None] 0 3 ''P'' demo_ws =
     (Inr (), (reset_session_state 0 (unsubscribe demo_ws))\<lparr> ws_program_id := Some ''P'', ws_connected := True,
        ws_pending_frames := [''n''], ws_subscription_id := Some 7, ws_last_message_time := 3 \<rparr>)"
  by (simp add: demo_ws_defs)

theorem subscribe_buffers_notifications_witness:
  "\<exists>pre sid.
     ws_subscription_id (snd (subscribe demo_ws_env None None [WsFrame 1 (FText ''n'') None, WsFrame 2 (FText ''ok'') None]
        0 3 ''P'' demo_ws)) = Some sid \<and>
     ws_pending_frames (snd (subscribe demo_ws_env None None [WsFrame 1 (FText ''n'') None, WsFrame 2 (FText ''ok'') None]
        0 3 ''P'' demo_ws)) = notification_texts demo_ws_env pre"
  unfolding demo_ws_subscribes snd_conv using subscribe_buffers_notifications [OF demo_ws_subscribes] by blast

theorem ws_next_detects_silence_witness:
  "\<exists>r. fst (ws_next demo_ws_env [WsDeadline 30 None, WsFrame 31 (FPing []) None, WsDeadline 40 None]
             (demo_ws\<lparr> ws_connected := True \<rparr>)) = Some r"
  by (rule ws_next_detects_silence) (simp_all add: demo_ws_defs)

end
