(* ===== verification/Config.thy ===== *)
theory Config
  imports Prelude
begin

text \<open>
  The configuration (\<open>src/config.rs\<close>): the record clap fills from flags and environment, the two
  value parsers that refuse zero, and the defaults. \<open>parse_uint\<close> is Rust's \<open>str::parse\<close> on an
  unsigned integer type of \<open>w\<close> bits, with its error texts.
\<close>

section \<open>Unsigned integer parsing\<close>

fun parse_digits :: "nat \<Rightarrow> nat \<Rightarrow> string \<Rightarrow> string + nat" where
  "parse_digits w acc [] = Inr acc"
| "parse_digits w acc (c # cs) =
     (if \<not> is_digit c then Inl ''invalid digit found in string''
      else if 2 ^ w \<le> 10 * acc + digit_val c then Inl ''number too large to fit in target type''
      else parse_digits w (10 * acc + digit_val c) cs)"

definition parse_uint :: "nat \<Rightarrow> string \<Rightarrow> string + nat" where
  "parse_uint w s =
     (case s of
        [] \<Rightarrow> Inl ''cannot parse integer from empty string''
      | c # cs \<Rightarrow>
          if cs = [] \<and> (c = CHR ''+'' \<or> c = CHR ''-'') then Inl ''invalid digit found in string''
          else if c = CHR ''+'' then parse_digits w 0 cs
          else parse_digits w 0 s)"

section \<open>The configuration\<close>

definition parse_nonzero_usize :: "string \<Rightarrow> string + nat" where
  "parse_nonzero_usize s =
     bindR (parse_uint 64 s) (\<lambda>val. if val = 0 then Inl ''value must be at least 1'' else Inr val)"

definition parse_nonzero_u64 :: "string \<Rightarrow> string + u64" where
  "parse_nonzero_u64 s =
     bindR (parse_uint 64 s) (\<lambda>val.
       if (of_nat val :: u64) = 0 then Inl ''value must be at least 1'' else Inr (of_nat val))"

record config =
  cfg_rpc_url :: string
  cfg_ws_url :: "string option"
  cfg_database_url :: string
  cfg_db_pool_min :: u32
  cfg_db_pool_max :: u32
  cfg_rpc_rps :: u32
  cfg_backfill_chunk_size :: u64
  cfg_start_slot :: "u64 option"
  cfg_end_slot :: "u64 option"
  cfg_index_failed_txs :: bool
  cfg_api_host :: string
  cfg_api_port :: "16 word"
  cfg_api_default_page_size :: u32
  cfg_api_max_page_size :: u32
  cfg_channel_capacity :: nat
  cfg_checkpoint_interval_secs :: u64
  cfg_retry_initial_ms :: u64
  cfg_retry_max_ms :: u64
  cfg_retry_timeout_secs :: u64
  cfg_max_consecutive_fetch_failures :: u64
  cfg_ws_ping_interval_secs :: u64
  cfg_ws_pong_timeout_secs :: u64
  cfg_dedup_cache_size :: nat
  cfg_shutdown_drain_secs :: u64
  cfg_shutdown_db_flush_secs :: u64
  cfg_log_level :: string
  cfg_log_format :: string

definition test_default :: config where
  "test_default = \<lparr>
     cfg_rpc_url = '''', cfg_ws_url = None, cfg_database_url = '''',
     cfg_db_pool_min = 2, cfg_db_pool_max = 10, cfg_rpc_rps = 10,
     cfg_backfill_chunk_size = 50000, cfg_start_slot = None, cfg_end_slot = None,
     cfg_index_failed_txs = False, cfg_api_host = '''', cfg_api_port = 3000,
     cfg_api_default_page_size = 50, cfg_api_max_page_size = 1000,
     cfg_channel_capacity = 256, cfg_checkpoint_interval_secs = 10,
     cfg_retry_initial_ms = 500, cfg_retry_max_ms = 30000, cfg_retry_timeout_secs = 300,
     cfg_max_consecutive_fetch_failures = 100,
     cfg_ws_ping_interval_secs = 30, cfg_ws_pong_timeout_secs = 10, cfg_dedup_cache_size = 10000,
     cfg_shutdown_drain_secs = 15, cfg_shutdown_db_flush_secs = 10,
     cfg_log_level = '''', cfg_log_format = '''' \<rparr>"

end
