(* ===== verification/Transactions.thy ===== *)
theory Transactions
  imports Rpc Config
begin

text \<open>
  The pure helpers of the pipeline (\<open>src/pipeline/mod.rs\<close>): the cold start decision, the chunks
  of a backfill, and the decoding of a transaction and of a block. The decoder's cache and the
  failure counter are threaded; \<open>b58\<close> and \<open>sha256\<close> are the decoder's parameters. Log events are
  not modelled.
\<close>

section \<open>Cold start\<close>

datatype initial_state = InitBackfill u64 u64 | InitStream

definition decide_initial_state :: "u64 option \<Rightarrow> u64 \<Rightarrow> u64 option \<Rightarrow> pipeline_error + initial_state" where
  "decide_initial_state last_checkpoint_slot chain_tip config_start_slot =
     (case last_checkpoint_slot of
        None \<Rightarrow>
          (case config_start_slot of
             Some start \<Rightarrow>
               if start < chain_tip then Inr (InitBackfill start chain_tip)
               else if start \<le> saturating_add chain_tip 1 then Inr InitStream
               else Inl (Fatal (''configured start_slot ('' @ show_nat (unat start) @
                      '') is ahead of chain tip ('' @ show_nat (unat chain_tip) @
                      ''). Possible causes: wrong cluster, RPC behind, or misconfigured SOLARIX_START_SLOT.''))
           | None \<Rightarrow> Inr InitStream)
      | Some last_slot \<Rightarrow>
          if saturating_add chain_tip 1 < last_slot then
            Inl (Fatal (''checkpoint slot ('' @ show_nat (unat last_slot) @
              '') ahead of chain tip ('' @ show_nat (unat chain_tip) @
              ''). Possible causes: wrong cluster, RPC behind, or misconfiguration.''))
          else if last_slot < chain_tip then Inr (InitBackfill (last_slot + 1) chain_tip)
          else Inr InitStream)"

definition compute_backfill_chunks :: "u64 \<Rightarrow> u64 \<Rightarrow> u64 \<Rightarrow> (u64 \<times> u64) list" where
  "compute_backfill_chunks start end_slot chunk_size =
     (if end_slot < start \<or> chunk_size = 0 then [] else chunks_from chunk_size start end_slot)"

section \<open>Instructions of a transaction\<close>

definition nth_opt :: "'a list \<Rightarrow> nat \<Rightarrow> 'a option" where
  "nth_opt xs k = (if k < length xs then Some (xs ! k) else None)"

definition instruction_targets_program :: "u8 \<Rightarrow> string list \<Rightarrow> string \<Rightarrow> bool" where
  "instruction_targets_program program_id_index account_keys program_id =
     (nth_opt account_keys (unat program_id_index) = Some program_id)"

definition enrich_instruction ::
  "decoded_instruction \<Rightarrow> string \<Rightarrow> u64 \<Rightarrow> int option \<Rightarrow> u8 \<Rightarrow> u8 option \<Rightarrow> u8 list \<Rightarrow> string list \<Rightarrow>
   string \<Rightarrow> decoded_instruction" where
  "enrich_instruction di signature slot block_time instruction_index inner_index account_indices
     account_keys program_id =
     di\<lparr> di_signature := signature, di_slot := slot, di_block_time := block_time,
         di_instruction_index := instruction_index, di_inner_index := inner_index,
         di_program_id := program_id,
         di_accounts := List.map_filter (\<lambda>idx. nth_opt account_keys (unat idx)) account_indices \<rparr>"

record decode_run =
  dr_decoded :: "decoded_instruction list"
  dr_failures :: nat
  dr_attempts :: nat
  dr_decoder :: chainparser_decoder
  dr_stats :: runtime_stats

text \<open>The body of both loops: \<open>place\<close> gives the instruction and inner index of the \<open>k\<close>-th one.\<close>

fun decode_ixs ::
  "(bytes \<Rightarrow> string) \<Rightarrow> (bytes \<Rightarrow> bytes) \<Rightarrow> string \<Rightarrow> idl \<Rightarrow> rpc_transaction \<Rightarrow> (nat \<Rightarrow> u8 \<times> u8 option) \<Rightarrow>
   nat \<Rightarrow> rpc_instruction list \<Rightarrow> decode_run \<Rightarrow> decode_run" where
  "decode_ixs b58 sha256 program_id i tx place k [] run = run"
| "decode_ixs b58 sha256 program_id i tx place k (ix # ixs) run =
     decode_ixs b58 sha256 program_id i tx place (Suc k) ixs
       (if \<not> instruction_targets_program (ri_program_id_index ix) (rt_account_keys tx) program_id then run
        else
          let run1 = run\<lparr> dr_attempts := dr_attempts run + 1 \<rparr>;
              (r, dec) = decode_instruction b58 sha256 (dr_decoder run1) program_id (ri_data ix) i;
              run2 = run1\<lparr> dr_decoder := dec \<rparr>
          in case r of
               Inr di \<Rightarrow>
                 run2\<lparr> dr_decoded := dr_decoded run2 @
                   [enrich_instruction di (rt_signature tx) (rt_slot tx) None (fst (place k)) (snd (place k))
                      (ri_accounts ix) (rt_account_keys tx) program_id] \<rparr>
             | Inl e \<Rightarrow> run2\<lparr> dr_failures := dr_failures run2 + 1, dr_stats := incr_decode_failure (dr_stats run2) \<rparr>)"

fun decode_groups ::
  "(bytes \<Rightarrow> string) \<Rightarrow> (bytes \<Rightarrow> bytes) \<Rightarrow> string \<Rightarrow> idl \<Rightarrow> rpc_transaction \<Rightarrow> rpc_inner_group list \<Rightarrow>
   decode_run \<Rightarrow> decode_run" where
  "decode_groups b58 sha256 program_id i tx [] run = run"
| "decode_groups b58 sha256 program_id i tx (grp # groups) run =
     decode_groups b58 sha256 program_id i tx groups
       (decode_ixs b58 sha256 program_id i tx (\<lambda>k. (rg_index grp, Some (of_nat k))) 0 (rg_instructions grp) run)"

definition decode_transaction ::
  "(bytes \<Rightarrow> string) \<Rightarrow> (bytes \<Rightarrow> bytes) \<Rightarrow> bool \<Rightarrow> string \<Rightarrow> rpc_transaction \<Rightarrow> idl \<Rightarrow>
   chainparser_decoder \<Rightarrow> runtime_stats \<Rightarrow> decode_run" where
  "decode_transaction b58 sha256 index_failed_txs program_id tx i dec st =
     (let run = \<lparr> dr_decoded = [], dr_failures = 0, dr_attempts = 0, dr_decoder = dec, dr_stats = st \<rparr>
      in if \<not> index_failed_txs \<and> \<not> rt_success tx then run
         else decode_groups b58 sha256 program_id i tx (rt_inner_instructions tx)
                (decode_ixs b58 sha256 program_id i tx (\<lambda>k. (of_nat k, None)) 0 (rt_instructions tx) run))"

fun decode_txs ::
  "(bytes \<Rightarrow> string) \<Rightarrow> (bytes \<Rightarrow> bytes) \<Rightarrow> bool \<Rightarrow> string \<Rightarrow> int option \<Rightarrow> idl \<Rightarrow> rpc_transaction list \<Rightarrow>
   decode_run \<Rightarrow> decode_run" where
  "decode_txs b58 sha256 index_failed_txs program_id block_time i [] run = run"
| "decode_txs b58 sha256 index_failed_txs program_id block_time i (tx # txs) run =
     (let r = decode_transaction b58 sha256 index_failed_txs program_id tx i (dr_decoder run) (dr_stats run)
      in decode_txs b58 sha256 index_failed_txs program_id block_time i txs
           \<lparr> dr_decoded = dr_decoded run @ map (\<lambda>di. di\<lparr> di_block_time := block_time \<rparr>) (dr_decoded r),
             dr_failures = dr_failures run + dr_failures r, dr_attempts = dr_attempts run + dr_attempts r,
             dr_decoder = dr_decoder r, dr_stats = dr_stats r \<rparr>)"

definition decode_block ::
  "(bytes \<Rightarrow> string) \<Rightarrow> (bytes \<Rightarrow> bytes) \<Rightarrow> bool \<Rightarrow> string \<Rightarrow> rpc_block \<Rightarrow> idl \<Rightarrow>
   chainparser_decoder \<Rightarrow> runtime_stats \<Rightarrow> decode_run" where
  "decode_block b58 sha256 index_failed_txs program_id block i dec st =
     decode_txs b58 sha256 index_failed_txs program_id (rb_block_time block) i (rb_transactions block)
       \<lparr> dr_decoded = [], dr_failures = 0, dr_attempts = 0, dr_decoder = dec, dr_stats = st \<rparr>"

section \<open>Progress\<close>

record backfill_progress =
  bp_start_slot :: u64
  bp_end_slot :: u64
  bp_current_slot :: u64
  bp_blocks_processed :: u64
  bp_txs_decoded :: u64

definition progress_new :: "u64 \<Rightarrow> u64 \<Rightarrow> backfill_progress" where
  "progress_new start_slot end_slot =
     \<lparr> bp_start_slot = start_slot, bp_end_slot = end_slot, bp_current_slot = start_slot,
       bp_blocks_processed = 0, bp_txs_decoded = 0 \<rparr>"

section \<open>Laws of the chunks\<close>

interpretation backfill_chunks: slot_chunker "\<lambda>a b. compute_backfill_chunks a b sz" sz for sz
proof
  fix a b c d :: u64
  show "0 < sz \<Longrightarrow> concat (map slots_of (compute_backfill_chunks a b sz)) = slots_of (a, b)"
    by (auto simp: compute_backfill_chunks_def chunks_from_cover slots_of_def word_less_nat_alt)
  show "0 < sz \<Longrightarrow> (c, d) \<in> set (compute_backfill_chunks a b sz) \<Longrightarrow> c \<le> d \<and> unat d - unat c < unat sz"
    by (auto simp: compute_backfill_chunks_def dest: chunks_from_size split: if_splits)
qed

end
