(* ===== verification/Backfill.thy ===== *)
theory Backfill
  imports Transactions Writer
begin

text \<open>
  The backfill half of the pipeline (\<open>src/pipeline/mod.rs\<close>): the bounded channel, the writer task
  behind it, the chunk loop that feeds it, \<open>run_backfill\<close>, \<open>mini_backfill\<close> and the indexer state.

  Tasks interleave at the producer's await points only, so a run is the producer's function with
  an explicit schedule: \<open>pe_events env t\<close> is what the other tasks do while the producer waits
  for the \<open>t\<close>-th time (steps of the writer task, writes of the streaming task, the cancellation
  of the token). \<open>pe_rpc env t\<close> is the node as it answers then and \<open>pe_faults\<close>,
  \<open>pe_read_fault\<close> and \<open>pe_state_fault\<close> are the failures of the database at that time; \<open>pw_tick\<close> counts.
  Every statement about a run holds for all schedules. The join of a task that panics is not
  modelled, as nothing panics in the model.
\<close>

section \<open>State\<close>

record write_batch =
  wb_schema_name :: string
  wb_stream :: string
  wb_instructions :: "decoded_instruction list"
  wb_accounts :: "decoded_account list"
  wb_slot :: u64
  wb_signature :: "string option"

text \<open>The writer task: in its \<open>select!\<close> loop, in the drain of the cancel branch, or returned.\<close>

datatype task_state = TRunning | TDraining | TDone "pipeline_error + unit"

record mpsc =
  ch_program_id :: string
  ch_queue :: "write_batch list"
  ch_sender_dropped :: bool
  ch_task :: task_state
  ch_total_instructions :: nat
  ch_total_accounts :: nat

definition channel_new :: "string \<Rightarrow> mpsc" where
  "channel_new program_id = \<lparr> ch_program_id = program_id, ch_queue = [], ch_sender_dropped = False, ch_task = TRunning,
     ch_total_instructions = 0, ch_total_accounts = 0 \<rparr>"

datatype pipe_event =
    EvWriter
  | EvWriterCancelled
  | EvCancel
  | EvOtherWrite write_batch
  | EvOtherState string string "u64 option"

record pipe_env =
  pe_config :: config
  pe_b58 :: "bytes \<Rightarrow> string"
  pe_sha256 :: "bytes \<Rightarrow> bytes"
  pe_pg_eval :: "string \<Rightarrow> json \<Rightarrow> string + string option"
  pe_hash_order :: "string list \<Rightarrow> string list"
  pe_rpc :: "nat \<Rightarrow> rpc_env"
  pe_faults :: "nat \<Rightarrow> write_faults"
  pe_read_fault :: "nat \<Rightarrow> string option"
  pe_state_fault :: "nat \<Rightarrow> string option"
  pe_events :: "nat \<Rightarrow> pipe_event list"

record pipe =
  pw_tick :: nat
  pw_db :: database
  pw_writer :: storage_writer
  pw_decoder :: chainparser_decoder
  pw_stats :: runtime_stats
  pw_cancelled :: bool
  pw_chan :: mpsc
  pw_progress :: backfill_progress

abbreviation next_tick :: "pipe \<Rightarrow> pipe" where
  "next_tick w \<equiv> w\<lparr> pw_tick := Suc (pw_tick w) \<rparr>"

section \<open>The indexer state row\<close>

definition update_indexer_state ::
  "string option \<Rightarrow> database \<Rightarrow> string \<Rightarrow> string \<Rightarrow> u64 option \<Rightarrow> pipeline_error + database" where
  "update_indexer_state fault db program_id status last_slot =
     (case fault of
        Some e \<Rightarrow> Inl (Storage (WriteFailed (''indexer_state update failed: '' @ e)))
      | None \<Rightarrow>
          Inr (case db_indexer_state db program_id of
                 None \<Rightarrow> db
               | Some row \<Rightarrow>
                   db\<lparr> db_indexer_state := (db_indexer_state db)(program_id \<mapsto>
                     row\<lparr> st_status := status,
                          st_last_processed_slot :=
                            (case last_slot of
                               None \<Rightarrow> st_last_processed_slot row
                             | Some s \<Rightarrow> Some (max (case st_last_processed_slot row of None \<Rightarrow> 0 | Some x \<Rightarrow> x) (sint s))) \<rparr>) \<rparr>))"

text \<open>The counters are \<open>BIGINT\<close>: a sum outside its range is an error of the statement.\<close>

definition increment_indexer_counters ::
  "string option \<Rightarrow> database \<Rightarrow> string \<Rightarrow> nat \<Rightarrow> nat \<Rightarrow> pipeline_error + database" where
  "increment_indexer_counters fault db program_id instructions accounts =
     map_errR (\<lambda>e. Storage (WriteFailed (''indexer_state counter update failed: '' @ e)))
       (case fault of
          Some e \<Rightarrow> Inl e
        | None \<Rightarrow>
            (case db_indexer_state db program_id of
               None \<Rightarrow> Inr db
             | Some row \<Rightarrow>
                 let ti = st_total_instructions row + sint (of_nat instructions :: u64);
                     ta = st_total_accounts row + sint (of_nat accounts :: u64)
                 in if ti < - (2 ^ 63) \<or> 2 ^ 63 \<le> ti \<or> ta < - (2 ^ 63) \<or> 2 ^ 63 \<le> ta
                    then Inl ''error returned from database: bigint out of range''
                    else Inr (db\<lparr> db_indexer_state := (db_indexer_state db)(program_id \<mapsto>
                           row\<lparr> st_total_instructions := ti, st_total_accounts := ta \<rparr>) \<rparr>)))"

section \<open>The writer task\<close>

definition set_chan :: "mpsc \<Rightarrow> pipe \<Rightarrow> pipe" where
  "set_chan c w = w\<lparr> pw_chan := c \<rparr>"

definition write_batch_now :: "pipe_env \<Rightarrow> write_batch \<Rightarrow> pipe \<Rightarrow> (storage_error + write_result) \<times> pipe" where
  "write_batch_now env b w =
     (let (r, sw, db) = write_block (pe_faults env (pw_tick w)) (pe_pg_eval env) (pe_hash_order env)
            (wb_schema_name b) (wb_stream b) (wb_instructions b) (wb_accounts b) (wb_slot b) (wb_signature b)
            (pw_writer w) (pw_db w)
      in (r, (next_tick w)\<lparr> pw_writer := sw, pw_db := db \<rparr>))"

definition add_totals :: "write_result \<Rightarrow> mpsc \<Rightarrow> mpsc" where
  "add_totals r c = c\<lparr> ch_total_instructions := ch_total_instructions c + wr_instructions_written r,
                       ch_total_accounts := ch_total_accounts c + wr_accounts_written r \<rparr>"

text \<open>After the loop: the counters are added when there is something to add, an error is only logged.\<close>

definition writer_finish :: "pipe_env \<Rightarrow> pipe \<Rightarrow> pipe" where
  "writer_finish env w =
     (let c = pw_chan w;
          db = (if 0 < ch_total_instructions c \<or> 0 < ch_total_accounts c then
                  (case increment_indexer_counters (pe_state_fault env (pw_tick w)) (pw_db w) (ch_program_id c)
                          (ch_total_instructions c) (ch_total_accounts c) of
                     Inl e \<Rightarrow> pw_db w | Inr db' \<Rightarrow> db')
                else pw_db w)
      in (next_tick w)\<lparr> pw_db := db, pw_chan := c\<lparr> ch_queue := [], ch_task := TDone (Inr ()) \<rparr> \<rparr>)"

definition writer_recv :: "pipe_env \<Rightarrow> pipe \<Rightarrow> pipe" where
  "writer_recv env w =
     (let c = pw_chan w
      in case ch_queue c of
           b # rest \<Rightarrow>
             (case write_batch_now env b (set_chan (c\<lparr> ch_queue := rest \<rparr>) w) of
                (Inr r, w') \<Rightarrow> set_chan (add_totals r (pw_chan w')) w'
              | (Inl e, w') \<Rightarrow> set_chan ((pw_chan w')\<lparr> ch_queue := [], ch_task := TDone (Inl (Storage e)) \<rparr>) w')
         | [] \<Rightarrow> if ch_sender_dropped c then writer_finish env w else w)"

definition writer_drain :: "pipe_env \<Rightarrow> pipe \<Rightarrow> pipe" where
  "writer_drain env w =
     (let c = pw_chan w
      in case ch_queue c of
           b # rest \<Rightarrow>
             (case write_batch_now env b (set_chan (c\<lparr> ch_queue := rest \<rparr>) w) of
                (Inr r, w') \<Rightarrow> set_chan (add_totals r (pw_chan w')) w'
              | (Inl e, w') \<Rightarrow> w')
         | [] \<Rightarrow> writer_finish env w)"

definition writer_task :: "pipe_env \<Rightarrow> pipe \<Rightarrow> pipe" where
  "writer_task env w =
     (case ch_task (pw_chan w) of
        TRunning \<Rightarrow> writer_recv env w
      | TDraining \<Rightarrow> writer_drain env w
      | TDone _ \<Rightarrow> w)"

definition writer_cancelled :: "pipe \<Rightarrow> pipe" where
  "writer_cancelled w =
     (if pw_cancelled w \<and> ch_task (pw_chan w) = TRunning
      then set_chan ((pw_chan w)\<lparr> ch_task := TDraining \<rparr>) w else w)"

section \<open>Waiting\<close>

definition set_state :: "pipe_env \<Rightarrow> string \<Rightarrow> string \<Rightarrow> u64 option \<Rightarrow> pipe \<Rightarrow> (pipeline_error + unit) \<times> pipe" where
  "set_state env program_id status slot w =
     (case update_indexer_state (pe_state_fault env (pw_tick w)) (pw_db w) program_id status slot of
        Inl e \<Rightarrow> (Inl e, next_tick w)
      | Inr db \<Rightarrow> (Inr (), (next_tick w)\<lparr> pw_db := db \<rparr>))"

fun run_event :: "pipe_env \<Rightarrow> pipe_event \<Rightarrow> pipe \<Rightarrow> pipe" where
  "run_event env EvWriter w = writer_task env w"
| "run_event env EvWriterCancelled w = writer_cancelled w"
| "run_event env EvCancel w = w\<lparr> pw_cancelled := True \<rparr>"
| "run_event env (EvOtherWrite b) w = snd (write_batch_now env b w)"
| "run_event env (EvOtherState program_id status slot) w = snd (set_state env program_id status slot w)"

definition await :: "pipe_env \<Rightarrow> pipe \<Rightarrow> pipe" where
  "await env w = fold (run_event env) (pe_events env (pw_tick w)) (next_tick w)"

text \<open>
  \<open>tx.send\<close>: an error once the receiver is gone; a full channel waits until the task takes a batch.
\<close>

definition send_permit :: "pipe_env \<Rightarrow> pipe \<Rightarrow> pipe" where
  "send_permit env w =
     (let w1 = await env w
      in if length (ch_queue (pw_chan w1)) < cfg_channel_capacity (pe_config env) then w1 else writer_task env w1)"

definition chan_send :: "pipe_env \<Rightarrow> write_batch \<Rightarrow> pipe \<Rightarrow> (pipeline_error + unit) \<times> pipe" where
  "chan_send env b w =
     (let w1 = send_permit env w
      in case ch_task (pw_chan w1) of
           TDone _ \<Rightarrow> (Inl (Fatal ''writer task channel closed''), w1)
         | _ \<Rightarrow> (Inr (), set_chan ((pw_chan w1)\<lparr> ch_queue := ch_queue (pw_chan w1) @ [b] \<rparr>) w1))"

text \<open>
  Dropping the sender and joining the task: it takes the batches left, one per step, and returns.
\<close>

definition join_writer :: "pipe_env \<Rightarrow> pipe \<Rightarrow> (pipeline_error + unit) \<times> pipe" where
  "join_writer env w =
     (let w1 = await env (set_chan ((pw_chan w)\<lparr> ch_sender_dropped := True \<rparr>) w);
          w2 = ((writer_task env) ^^ Suc (length (ch_queue (pw_chan w1)))) w1
      in (case ch_task (pw_chan w2) of TDone r \<Rightarrow> r | _ \<Rightarrow> Inr (), w2))"

section \<open>Chunks\<close>

definition block_batch :: "string \<Rightarrow> string \<Rightarrow> rpc_block \<Rightarrow> decoded_instruction list \<Rightarrow> write_batch" where
  "block_batch schema_name stream_name block ixs =
     \<lparr> wb_schema_name = schema_name, wb_stream = stream_name, wb_instructions = ixs, wb_accounts = [],
       wb_slot = rb_slot block,
       wb_signature = (case rb_transactions block of [] \<Rightarrow> None | t # _ \<Rightarrow> Some (rt_signature t)) \<rparr>"

definition note_block :: "u64 \<Rightarrow> nat \<Rightarrow> backfill_progress \<Rightarrow> backfill_progress" where
  "note_block slot n p = p\<lparr> bp_current_slot := slot, bp_blocks_processed := bp_blocks_processed p + 1,
                            bp_txs_decoded := bp_txs_decoded p + of_nat n \<rparr>"

fun chunk_slots ::
  "pipe_env \<Rightarrow> string \<Rightarrow> string \<Rightarrow> idl \<Rightarrow> string \<Rightarrow> u64 list \<Rightarrow> pipe \<Rightarrow> (pipeline_error + unit) \<times> pipe" where
  "chunk_slots env program_id schema_name i stream_name [] w = (Inr (), w)"
| "chunk_slots env program_id schema_name i stream_name (slot # slots) w =
     (if pw_cancelled w then (Inr (), w)
      else
        let w1 = await env w;
            (r, st) = get_block (pe_rpc env (pw_tick w)) (cfg_index_failed_txs (pe_config env)) slot (pw_stats w1);
            w2 = w1\<lparr> pw_stats := st \<rparr>
        in case r of
             Inr (Some block) \<Rightarrow>
               (let run = decode_block (pe_b58 env) (pe_sha256 env) (cfg_index_failed_txs (pe_config env)) program_id
                            block i (pw_decoder w2) (pw_stats w2);
                    w3 = w2\<lparr> pw_decoder := dr_decoder run, pw_stats := dr_stats run \<rparr>;
                    ixs = dr_decoded run
                in if ixs = [] then
                     chunk_slots env program_id schema_name i stream_name slots
                       (w3\<lparr> pw_progress := note_block slot 0 (pw_progress w3) \<rparr>)
                   else
                     (case chan_send env (block_batch schema_name stream_name block ixs) w3 of
                        (Inl e, w4) \<Rightarrow> (Inl e, w4)
                      | (Inr _, w4) \<Rightarrow>
                          chunk_slots env program_id schema_name i stream_name slots
                            (w4\<lparr> pw_progress := note_block slot (length ixs) (pw_progress w4) \<rparr>)))
           | Inr None \<Rightarrow> chunk_slots env program_id schema_name i stream_name slots w2
           | Inl e \<Rightarrow> chunk_slots env program_id schema_name i stream_name slots w2)"

definition process_chunk ::
  "pipe_env \<Rightarrow> string \<Rightarrow> string \<Rightarrow> idl \<Rightarrow> u64 \<Rightarrow> u64 \<Rightarrow> string \<Rightarrow> pipe \<Rightarrow> (pipeline_error + unit) \<times> pipe" where
  "process_chunk env program_id schema_name i chunk_start chunk_end stream_name w =
     (let w1 = await env w;
          (r, st) = get_blocks (pe_rpc env (pw_tick w)) chunk_start chunk_end (pw_stats w1);
          w2 = w1\<lparr> pw_stats := st \<rparr>
      in case r of
           Inl e \<Rightarrow> (Inl e, w2)
         | Inr block_slots \<Rightarrow> chunk_slots env program_id schema_name i stream_name block_slots w2)"

text \<open>The loop over the chunks of both backfills; only \<open>run_backfill\<close> sets the state at a boundary.\<close>

fun run_chunks ::
  "pipe_env \<Rightarrow> string \<Rightarrow> string \<Rightarrow> idl \<Rightarrow> string \<Rightarrow> bool \<Rightarrow> (u64 \<times> u64) list \<Rightarrow> pipe \<Rightarrow>
   (pipeline_error + unit) \<times> pipe" where
  "run_chunks env program_id schema_name i stream_name heartbeat [] w = (Inr (), w)"
| "run_chunks env program_id schema_name i stream_name heartbeat ((chunk_start, chunk_end) # chunks) w =
     (if pw_cancelled w then (Inr (), w)
      else case process_chunk env program_id schema_name i chunk_start chunk_end stream_name w of
             (Inl e, w1) \<Rightarrow> (Inl e, w1)
           | (Inr _, w1) \<Rightarrow>
               run_chunks env program_id schema_name i stream_name heartbeat chunks
                 (if heartbeat then snd (set_state env program_id ''backfilling'' (Some chunk_end) (await env w1)) else w1))"

section \<open>Backfill\<close>

text \<open>Feeding a fresh channel with the chunks and joining the writer; the first error is kept.\<close>

definition backfill_chunks_through ::
  "pipe_env \<Rightarrow> string \<Rightarrow> string \<Rightarrow> idl \<Rightarrow> string \<Rightarrow> bool \<Rightarrow> u64 \<Rightarrow> u64 \<Rightarrow> pipe \<Rightarrow> (pipeline_error + unit) \<times> pipe" where
  "backfill_chunks_through env program_id schema_name i stream_name heartbeat start_slot end_slot w =
     (let chunks = compute_backfill_chunks start_slot end_slot (cfg_backfill_chunk_size (pe_config env));
          w1 = w\<lparr> pw_chan := channel_new program_id, pw_progress := progress_new start_slot end_slot \<rparr>;
          (r, w2) = run_chunks env program_id schema_name i stream_name heartbeat chunks w1;
          (rw, w3) = join_writer env w2
      in (case r of Inl e \<Rightarrow> Inl e | Inr _ \<Rightarrow> rw, w3))"

definition run_backfill ::
  "pipe_env \<Rightarrow> string \<Rightarrow> string \<Rightarrow> idl \<Rightarrow> u64 \<Rightarrow> u64 \<Rightarrow> pipe \<Rightarrow> (pipeline_error + unit) \<times> pipe" where
  "run_backfill env program_id schema_name i start_slot end_slot w =
     (let w0 = await env w
      in case read_checkpoint (pe_read_fault env (pw_tick w)) (pw_db w0) schema_name ''backfill'' of
           Inl e \<Rightarrow> (Inl (Storage e), w0)
         | Inr checkpoint \<Rightarrow>
             (let effective_start = (case checkpoint of
                     Some cp \<Rightarrow> max (saturating_add (ci_last_slot cp) 1) start_slot
                   | None \<Rightarrow> start_slot)
              in if end_slot < effective_start then (Inr (), w0)
                 else
                   (case set_state env program_id ''backfilling'' (Some effective_start) (await env w0) of
                      (Inl e, w1) \<Rightarrow> (Inl e, w1)
                    | (Inr _, w1) \<Rightarrow>
                        (let (r, w2) = backfill_chunks_through env program_id schema_name i ''backfill'' True
                                         effective_start end_slot w1
                         in case r of
                              Inr _ \<Rightarrow>
                                if \<not> pw_cancelled w2 then
                                  (case set_state env program_id ''idle'' (Some end_slot) (await env w2) of
                                     (Inl e, w3) \<Rightarrow> (Inl e, w3)
                                   | (Inr _, w3) \<Rightarrow> (Inr (), w3))
                                else (Inr (), w2)
                            | Inl e \<Rightarrow> (Inl e, snd (set_state env program_id ''failed'' None (await env w2)))))))"

definition mini_backfill ::
  "pipe_env \<Rightarrow> string \<Rightarrow> string \<Rightarrow> idl \<Rightarrow> u64 \<Rightarrow> pipe \<Rightarrow> (pipeline_error + unit) \<times> pipe" where
  "mini_backfill env program_id schema_name i disconnect_slot w =
     (let w1 = await env w;
          (r, st) = get_slot (pe_rpc env (pw_tick w)) (pw_stats w1);
          w2 = w1\<lparr> pw_stats := st \<rparr>
      in case r of
           Inl e \<Rightarrow> (Inl e, w2)
         | Inr chain_tip \<Rightarrow>
             (let gap_start = saturating_add disconnect_slot 1
              in if chain_tip < gap_start then (Inr (), w2)
                 else backfill_chunks_through env program_id schema_name i ''catchup'' False gap_start chain_tip w2))"

end
