(* ===== verification/Streaming.thy ===== *)
theory Streaming
  imports Backfill Ws_Stream
begin

text \<open>
  The streaming half of the pipeline and its entry point (\<open>src/pipeline/mod.rs\<close>): \<open>stream_events\<close>,
  \<open>run_streaming\<close> with its reconnection loop, \<open>determine_initial_state\<close>, \<open>run\<close> and the account
  snapshot.

  A connection is what its attempt to subscribe meets and what the socket then delivers.
  \<open>stream_loop\<close> is given the attempts of each reconnection that the retry policy allows. A value
  \<open>None\<close> means the task is still waiting (for the socket, or for the next attempt).
  \<open>sv_heartbeat_due\<close> says at which times the heartbeat interval has passed. In \<open>run\<close> the streaming
  task that runs beside the backfill acts through \<open>pe_events\<close>, and \<open>joined\<close> is what joining it
  gives.
\<close>

record ws_conn =
  wc_connect :: "string option"
  wc_sub_sent :: "string option"
  wc_handshake :: "ws_input list"
  wc_inputs :: "ws_input list"
  wc_now :: nat
  wc_now_after :: nat

record stream_env =
  sv_pipe :: pipe_env
  sv_ws :: ws_env
  sv_heartbeat_due :: "nat \<Rightarrow> bool"

datatype stream_interrupt = Disconnect u64 | FatalInterrupt pipeline_error

section \<open>One connection\<close>

lemma next_inputs_shrinks:
  "next_inputs env inputs s = (Some (Inr ev), s', rest) \<Longrightarrow> length rest < length inputs \<and> ws_pending_frames s' = ws_pending_frames s"
proof (induction inputs arbitrary: s)
  case Nil
  then show ?case by (simp split: if_splits)
next
  case (Cons i inputs)
  have conn: "ws_connected s" using Cons.prems by (simp split: if_splits)
  have keep: "on_text env text x = (r, y) \<Longrightarrow> ws_pending_frames y = ws_pending_frames x" for "text" x r y
    by (auto simp: on_text_def split: prod.splits)
  note ih = Cons.IH
  show ?case
  proof (cases i)
    case (WsFrame t f sent)
    then show ?thesis
    proof (cases f)
      case (FText "text")
      obtain r y where r: "on_text env text (s\<lparr> ws_last_message_time := t \<rparr>) = (r, y)" by fastforce
      from keep [OF this] have y: "ws_pending_frames y = ws_pending_frames s" by simp
      show ?thesis using Cons.prems conn WsFrame FText r y ih [of y]
        by (cases r) (auto split: option.splits)
    next
      case (FPing d)
      then show ?thesis using Cons.prems conn WsFrame ih [of "s\<lparr> ws_last_message_time := t \<rparr>"] by (cases sent) auto
    next
      case (FPong d)
      then show ?thesis using Cons.prems conn WsFrame ih [of "s\<lparr> ws_last_message_time := t, ws_pending_ping := False \<rparr>"] by auto
    next
      case FClose
      then show ?thesis using Cons.prems conn WsFrame by simp
    next
      case FOther
      then show ?thesis using Cons.prems conn WsFrame ih [of s] by auto
    qed
  next
    case (WsDeadline t sent)
    then show ?thesis using Cons.prems conn ih [of "s\<lparr> ws_pending_ping := True, ws_last_ping_time := t \<rparr>"]
      by (auto split: if_splits option.splits)
  qed (use Cons.prems conn in auto)
qed

lemma next_pending_shrinks:
  "next_pending env frames inputs s = (Some (Inr ev), s', rest) \<Longrightarrow>
   length (ws_pending_frames s') + length rest < length frames + length inputs"
proof (induction frames arbitrary: s)
  case Nil
  then show ?case using next_inputs_shrinks [of env inputs "s\<lparr> ws_pending_frames := [] \<rparr>"] by fastforce
next
  case (Cons f frames)
  obtain r y where r: "on_text env f (s\<lparr> ws_pending_frames := frames \<rparr>) = (r, y)" by fastforce
  then have y: "ws_pending_frames y = frames" by (auto simp: on_text_def split: prod.splits)
  show ?case using Cons.prems Cons.IH [of y] r y by (cases r) (auto split: option.splits)
qed

lemma ws_next_shrinks:
  "ws_next env inputs s = (Some (Inr ev), s', rest) \<Longrightarrow>
   length (ws_pending_frames s') + length rest < length (ws_pending_frames s) + length inputs"
  using next_pending_shrinks by (simp add: ws_next_def)

definition disconnect_slot :: "pipe_env \<Rightarrow> string \<Rightarrow> ws_stream \<Rightarrow> pipe \<Rightarrow> u64" where
  "disconnect_slot env schema_name s w =
     (let slot = (case ws_last_seen_slot s of None \<Rightarrow> 0 | Some x \<Rightarrow> x)
      in if slot = 0 then
           (case read_checkpoint (pe_read_fault env (pw_tick w)) (pw_db w) schema_name ''realtime'' of
              Inr (Some cp) \<Rightarrow> ci_last_slot cp
            | _ \<Rightarrow> 0)
         else slot)"

definition realtime_batch :: "string \<Rightarrow> stream_event \<Rightarrow> decoded_instruction list \<Rightarrow> write_batch" where
  "realtime_batch schema_name event ixs =
     \<lparr> wb_schema_name = schema_name, wb_stream = ''realtime'', wb_instructions = ixs, wb_accounts = [],
       wb_slot = se_slot event, wb_signature = Some (se_signature event) \<rparr>"

text \<open>
  One fetched event: decoded and written, then the heartbeat when it is due.
\<close>

definition handle_transaction ::
  "stream_env \<Rightarrow> string \<Rightarrow> string \<Rightarrow> idl \<Rightarrow> stream_event \<Rightarrow> rpc_transaction \<Rightarrow> pipe \<Rightarrow> (pipeline_error + unit) \<times> pipe" where
  "handle_transaction senv program_id schema_name i event tx w =
     (let env = sv_pipe senv;
          run = decode_transaction (pe_b58 env) (pe_sha256 env) (cfg_index_failed_txs (pe_config env)) program_id tx i
                  (pw_decoder w) (pw_stats w);
          w1 = w\<lparr> pw_decoder := dr_decoder run, pw_stats := dr_stats run \<rparr>;
          (r, w2) = (if dr_decoded run \<noteq> [] then
                       (case write_batch_now env (realtime_batch schema_name event (dr_decoded run)) (await env w1) of
                          (Inl e, w') \<Rightarrow> (Inl (Storage e), w') | (Inr _, w') \<Rightarrow> (Inr (), w'))
                     else (Inr (), w1))
      in case r of
           Inl e \<Rightarrow> (Inl e, w2)
         | Inr _ \<Rightarrow>
             (Inr (), if sv_heartbeat_due senv (pw_tick w2)
                      then snd (set_state env program_id ''streaming'' (Some (se_slot event)) (await env w2)) else w2))"

function stream_events ::
  "stream_env \<Rightarrow> string \<Rightarrow> string \<Rightarrow> idl \<Rightarrow> u64 \<Rightarrow> ws_input list \<Rightarrow> ws_stream \<Rightarrow> pipe \<Rightarrow>
   (stream_interrupt + unit) option \<times> pipe" where
  "stream_events senv program_id schema_name i consecutive_failures inputs s w =
     (if pw_cancelled w then (Some (Inr ()), w)
      else
        let env = sv_pipe senv; w1 = await env w
        in case ws_next (sv_ws senv) inputs s of
             (None, s', rest) \<Rightarrow> (None, w1)
           | (Some (Inl e), s', rest) \<Rightarrow>
               (case e of
                  WebSocketDisconnect reason \<Rightarrow> (Some (Inl (Disconnect (disconnect_slot env schema_name s' w1))), w1)
                | _ \<Rightarrow> (Some (Inl (FatalInterrupt e)), w1))
           | (Some (Inr event), s', rest) \<Rightarrow>
               if se_error event \<noteq> None \<and> \<not> cfg_index_failed_txs (pe_config env) then
                 stream_events senv program_id schema_name i consecutive_failures rest s' w1
               else
                 let w2 = await env w1;
                     (r, st) = get_transaction (pe_rpc env (pw_tick w1)) (se_signature event) (pw_stats w2);
                     w3 = w2\<lparr> pw_stats := st \<rparr>
                 in case r of
                      Inr (Some tx) \<Rightarrow>
                        (case handle_transaction senv program_id schema_name i event tx w3 of
                           (Inl e, w4) \<Rightarrow> (Some (Inl (FatalInterrupt e)), w4)
                         | (Inr _, w4) \<Rightarrow> stream_events senv program_id schema_name i 0 rest s' w4)
                    | Inr None \<Rightarrow> stream_events senv program_id schema_name i consecutive_failures rest s' w3
                    | Inl e \<Rightarrow>
                        if cfg_max_consecutive_fetch_failures (pe_config env) < consecutive_failures + 1 then
                          (Some (Inl (FatalInterrupt (Fatal (''exceeded '' @
                             show_nat (unat (cfg_max_consecutive_fetch_failures (pe_config env))) @
                             '' consecutive getTransaction failures: '' @ show_pipeline_error e)))), w3)
                        else stream_events senv program_id schema_name i (consecutive_failures + 1) rest s' w3)"
  by pat_completeness auto
termination
  by (relation "measure (\<lambda>(_, _, _, _, _, inputs, s, _). length (ws_pending_frames s) + length inputs)")
    (auto dest!: ws_next_shrinks [OF sym])

declare stream_events.simps [simp del]

section \<open>Reconnection\<close>

definition connect_stream :: "stream_env \<Rightarrow> string \<Rightarrow> ws_conn \<Rightarrow> pipeline_error + ws_stream \<times> ws_input list" where
  "connect_stream senv program_id c =
     (let cfg = pe_config (sv_pipe senv);
          s = ws_new (cfg_ws_url cfg) (cfg_rpc_url cfg) (cfg_dedup_cache_size cfg)
                (unat (cfg_ws_ping_interval_secs cfg)) (unat (cfg_ws_pong_timeout_secs cfg)) (wc_now c)
      in case subscribe (sv_ws senv) (wc_connect c) (wc_sub_sent c) (wc_handshake c) (wc_now c) (wc_now_after c) program_id s of
           (Inl e, s') \<Rightarrow> Inl e
         | (Inr _, s') \<Rightarrow> Inr (s', wc_inputs c))"

text \<open>One pass of the loop up to the disconnect: a final result, or the slot to catch up from.\<close>

definition stream_once ::
  "stream_env \<Rightarrow> string \<Rightarrow> string \<Rightarrow> idl \<Rightarrow> ws_input list \<Rightarrow> ws_stream \<Rightarrow> pipe \<Rightarrow>
   ((pipeline_error + unit) option + u64) \<times> pipe" where
  "stream_once senv program_id schema_name i inputs s w =
     (let env = sv_pipe senv
      in if pw_cancelled w then (Inl (Some (Inr ())), w)
         else case set_state env program_id ''streaming'' None (await env w) of
                (Inl e, w1) \<Rightarrow> (Inl (Some (Inl e)), w1)
              | (Inr _, w1) \<Rightarrow>
                  (case stream_events senv program_id schema_name i 0 inputs s w1 of
                     (None, w2) \<Rightarrow> (Inl None, w2)
                   | (Some (Inr _), w2) \<Rightarrow> (Inl (Some (Inr ())), w2)
                   | (Some (Inl (FatalInterrupt e)), w2) \<Rightarrow>
                       (Inl (Some (Inl e)), snd (set_state env program_id ''error'' None (await env w2)))
                   | (Some (Inl (Disconnect slot)), w2) \<Rightarrow>
                       (Inr slot, snd (set_state env program_id ''catching_up'' (Some slot) (await env w2)))))"

fun stream_loop ::
  "stream_env \<Rightarrow> string \<Rightarrow> string \<Rightarrow> idl \<Rightarrow> (ws_conn \<times> ws_conn list) list \<Rightarrow> ws_input list \<Rightarrow> ws_stream \<Rightarrow> pipe \<Rightarrow>
   (pipeline_error + unit) option \<times> pipe" where
  "stream_loop senv program_id schema_name i [] inputs s w =
     (case stream_once senv program_id schema_name i inputs s w of
        (Inl r, w1) \<Rightarrow> (r, w1) | (Inr slot, w1) \<Rightarrow> (None, w1))"
| "stream_loop senv program_id schema_name i ((c, cs) # conns) inputs s w =
     (let env = sv_pipe senv
      in case stream_once senv program_id schema_name i inputs s w of
           (Inl r, w1) \<Rightarrow> (r, w1)
         | (Inr slot, w1) \<Rightarrow>
             (case fst (retry_call (connect_stream senv program_id) c cs runtime_stats_new) of
                Inl e \<Rightarrow> (Some (Inl (Fatal (''max reconnection time exceeded: '' @ show_pipeline_error e))),
                          snd (set_state env program_id ''error'' None (await env w1)))
              | Inr (s', inputs') \<Rightarrow>
                  if 0 < slot then
                    (case mini_backfill env program_id schema_name i slot w1 of
                       (Inl e, w2) \<Rightarrow> (Some (Inl e), w2)
                     | (Inr _, w2) \<Rightarrow> stream_loop senv program_id schema_name i conns inputs' s' w2)
                  else stream_loop senv program_id schema_name i conns inputs' s' w1))"

definition run_streaming ::
  "stream_env \<Rightarrow> string \<Rightarrow> string \<Rightarrow> idl \<Rightarrow> ws_conn \<Rightarrow> (ws_conn \<times> ws_conn list) list \<Rightarrow> pipe \<Rightarrow>
   (pipeline_error + unit) option \<times> pipe" where
  "run_streaming senv program_id schema_name i first_conn conns w =
     (case connect_stream senv program_id first_conn of
        Inl e \<Rightarrow> (Some (Inl e), w)
      | Inr (s, inputs) \<Rightarrow> stream_loop senv program_id schema_name i conns inputs s w)"

section \<open>Cold start and the main entry point\<close>

definition max_slot_of :: "checkpoint_info option list \<Rightarrow> u64 option" where
  "max_slot_of cps = fold (\<lambda>s m. Some (case m of None \<Rightarrow> s | Some x \<Rightarrow> max x s)) (map ci_last_slot (List.map_filter id cps)) None"

definition determine_initial_state ::
  "pipe_env \<Rightarrow> string \<Rightarrow> pipe \<Rightarrow> (pipeline_error + initial_state) \<times> pipe" where
  "determine_initial_state env schema_name w =
     (let w1 = await env w
      in case read_checkpoint (pe_read_fault env (pw_tick w)) (pw_db w1) schema_name ''backfill'' of
           Inl e \<Rightarrow> (Inl (Storage e), w1)
         | Inr backfill_cp \<Rightarrow>
             (let w2 = await env w1
              in case read_checkpoint (pe_read_fault env (pw_tick w1)) (pw_db w2) schema_name ''realtime'' of
                   Inl e \<Rightarrow> (Inl (Storage e), w2)
                 | Inr realtime_cp \<Rightarrow>
                     (let w3 = await env w2
                      in case read_checkpoint (pe_read_fault env (pw_tick w2)) (pw_db w3) schema_name ''catchup'' of
                           Inl e \<Rightarrow> (Inl (Storage e), w3)
                         | Inr catchup_cp \<Rightarrow>
                             (let last_slot = max_slot_of [backfill_cp, realtime_cp, catchup_cp];
                                  w4 = await env w3;
                                  (r, st) = get_slot (pe_rpc env (pw_tick w3)) (pw_stats w4);
                                  w5 = w4\<lparr> pw_stats := st \<rparr>
                              in (bindR r (\<lambda>chain_tip. decide_initial_state last_slot chain_tip (cfg_start_slot (pe_config env))),
                                  w5)))))"

definition tail_backfill :: "pipe_env \<Rightarrow> string \<Rightarrow> string \<Rightarrow> idl \<Rightarrow> u64 \<Rightarrow> pipe \<Rightarrow> pipe" where
  "tail_backfill env program_id schema_name i end_slot w =
     (if pw_cancelled w then w
      else
        let w1 = await env w;
            (r, st) = get_slot (pe_rpc env (pw_tick w)) (pw_stats w1);
            w2 = w1\<lparr> pw_stats := st \<rparr>
        in case r of
             Inr tail_end \<Rightarrow>
               if end_slot < tail_end then snd (run_backfill env program_id schema_name i (end_slot + 1) tail_end w2) else w2
           | Inl e \<Rightarrow> w2)"

definition run ::
  "stream_env \<Rightarrow> string \<Rightarrow> string \<Rightarrow> idl \<Rightarrow> ws_conn \<Rightarrow> (ws_conn \<times> ws_conn list) list \<Rightarrow> (pipeline_error + unit) option \<Rightarrow>
   pipe \<Rightarrow> (pipeline_error + unit) option \<times> pipe" where
  "run senv program_id schema_name i first_conn conns joined w =
     (let env = sv_pipe senv
      in if pw_cancelled w then (Some (Inr ()), w)
         else case determine_initial_state env schema_name w of
                (Inl e, w1) \<Rightarrow> (Some (Inl e), w1)
              | (Inr InitStream, w1) \<Rightarrow> run_streaming senv program_id schema_name i first_conn conns w1
              | (Inr (InitBackfill start_slot end_slot), w1) \<Rightarrow>
                  (case run_backfill env program_id schema_name i start_slot end_slot w1 of
                     (Inr _, w2) \<Rightarrow> (joined, await env (tail_backfill env program_id schema_name i end_slot w2))
                   | (Inl e, w2) \<Rightarrow> (map_option (\<lambda>_. Inl e) joined, await env w2)))"

section \<open>Account snapshot\<close>

definition ACCOUNT_WRITE_BATCH :: nat where
  "ACCOUNT_WRITE_BATCH = 1000"

text \<open>
  The decode loop looks at the token before every account; the other tasks go on while it runs.
  \<open>None\<close> is the early return of a cancelled loop.
\<close>

fun decode_accounts ::
  "pipe_env \<Rightarrow> string \<Rightarrow> idl \<Rightarrow> u64 \<Rightarrow> rpc_account_info list \<Rightarrow> pipe \<Rightarrow> decoded_account list option \<times> pipe" where
  "decode_accounts env program_id i current_slot [] w = (Some [], w)"
| "decode_accounts env program_id i current_slot (info # infos) w =
     (let w0 = await env w
      in if pw_cancelled w0 then (None, w0)
         else
           let (r, dec) = decode_account (pe_b58 env) (pe_sha256 env) (pw_decoder w0) program_id (rai_pubkey info) (rai_data info) i;
               w1 = w0\<lparr> pw_decoder := dec \<rparr>
           in case r of
                Inr da \<Rightarrow>
                  (let (das, w2) = decode_accounts env program_id i current_slot infos w1
                   in (map_option ((#) (da\<lparr> da_slot_updated := current_slot, da_lamports := rai_lamports info \<rparr>)) das, w2))
              | Inl e \<Rightarrow> decode_accounts env program_id i current_slot infos
                            (w1\<lparr> pw_stats := incr_decode_failure (pw_stats w1) \<rparr>))"

fun write_account_batches ::
  "pipe_env \<Rightarrow> string \<Rightarrow> u64 \<Rightarrow> decoded_account list list \<Rightarrow> pipe \<Rightarrow> (pipeline_error + unit) \<times> pipe" where
  "write_account_batches env schema_name current_slot [] w = (Inr (), w)"
| "write_account_batches env schema_name current_slot (batch # batches) w =
     (case write_batch_now env \<lparr> wb_schema_name = schema_name, wb_stream = ''accounts'', wb_instructions = [],
             wb_accounts = batch, wb_slot = current_slot, wb_signature = None \<rparr> (await env w) of
        (Inl e, w1) \<Rightarrow> (Inl (Storage e), w1)
      | (Inr _, w1) \<Rightarrow> write_account_batches env schema_name current_slot batches w1)"

definition run_account_snapshot ::
  "pipe_env \<Rightarrow> string \<Rightarrow> string \<Rightarrow> idl \<Rightarrow> pipe \<Rightarrow> (pipeline_error + unit) \<times> pipe" where
  "run_account_snapshot env program_id schema_name i w =
     (let w1 = await env w;
          (r1, st1) = get_program_accounts (pe_rpc env (pw_tick w)) program_id (pw_stats w1);
          w2 = w1\<lparr> pw_stats := st1 \<rparr>
      in case r1 of
           Inl e \<Rightarrow> (Inl e, w2)
         | Inr pubkeys \<Rightarrow>
             if pubkeys = [] then (Inr (), w2)
             else
               let w3 = await env w2;
                   (r2, st2) = get_slot (pe_rpc env (pw_tick w2)) (pw_stats w3);
                   w4 = w3\<lparr> pw_stats := st2 \<rparr>
               in case r2 of
                    Inl e \<Rightarrow> (Inl e, w4)
                  | Inr current_slot \<Rightarrow>
                      (let w5 = await env w4;
                           (r3, st3) = get_multiple_accounts (pe_rpc env (pw_tick w4)) pubkeys (pw_stats w5);
                           w6 = w5\<lparr> pw_stats := st3 \<rparr>
                       in case r3 of
                            Inl e \<Rightarrow> (Inl e, w6)
                          | Inr account_infos \<Rightarrow>
                              (case decode_accounts env program_id i current_slot account_infos w6 of
                                 (None, w7) \<Rightarrow> (Inr (), w7)
                               | (Some decoded, w7) \<Rightarrow>
                                   write_account_batches env schema_name current_slot (list_chunks ACCOUNT_WRITE_BATCH decoded) w7)))"

end
