(* ===== verification/Transactions_Correct.thy ===== *)
theory Transactions_Correct
  imports Transactions Writer_Correct
begin

text \<open>
  Correctness of the pure helpers: the cold start decision against the slots that are still
  missing, the partition of a backfill range, and the decoding of a transaction against the list
  of its instructions that target the program.
\<close>

section \<open>Cold start\<close>

text \<open>The first slot nobody has indexed yet, when there is a reference point.\<close>

definition first_missing :: "u64 option \<Rightarrow> u64 option \<Rightarrow> nat option" where
  "first_missing last_cp start =
     (case last_cp of Some l \<Rightarrow> Some (unat l + 1) | None \<Rightarrow> map_option unat start)"

lemma unat_succ: "l < (t :: u64) \<Longrightarrow> unat (l + 1) = unat l + 1"
proof -
  assume "l < t"
  then have "unat l + 1 < 18446744073709551616" using unat_u64_less [of t] unfolding word_less_nat_alt by linarith
  then show ?thesis by (simp add: unat_word_ariths)
qed

lemma ahead_iff: "saturating_add t 1 < (l :: u64) \<longleftrightarrow> unat t + 1 < unat l"
  using unat_u64_le [of l] unfolding word_less_nat_alt unat_saturating_add min_def
  by (simp del: unat_u64_le unat_u64_less)

text \<open>C32. The cold start decision against the slots still missing: without a reference point it streams;
  otherwise it fails exactly when the checkpoint (or the configured start) is more than one slot
  ahead of the chain tip, it backfills exactly the slots from the first missing one to the tip
  when there are any, and streams when there are none. The one exception is a configured start
  equal to the tip, which streams although the slot of the tip is missing.\<close>

theorem decide_initial_state_spec:
  "case first_missing last_cp start of
     None \<Rightarrow> decide_initial_state last_cp tip start = Inr InitStream
   | Some f \<Rightarrow>
       let ref_slot = (case last_cp of Some l \<Rightarrow> unat l | None \<Rightarrow> f)
       in case decide_initial_state last_cp tip start of
            Inl e \<Rightarrow> unat tip + 1 < ref_slot \<and> (\<exists>msg. e = Fatal msg)
          | Inr (InitBackfill a b) \<Rightarrow> f \<le> unat tip \<and> slots_of (a, b) = [f..<Suc (unat tip)]
          | Inr InitStream \<Rightarrow> ref_slot \<le> unat tip + 1 \<and> (unat tip < f \<or> last_cp = None \<and> f = unat tip)"
proof (cases last_cp)
  case None
  have le: "start \<le> saturating_add tip 1 \<longleftrightarrow> unat start \<le> unat tip + 1" for start
    using ahead_iff [of tip start] by (metis linorder_not_less)
  from None show ?thesis
    by (auto simp: first_missing_def decide_initial_state_def slots_of_def le not_less
        word_less_nat_alt Let_def split: option.splits)
next
  case (Some l)
  consider (ahead) "saturating_add tip 1 < l" | (behind) "l < tip" | (level) "\<not> saturating_add tip 1 < l" "\<not> l < tip"
    by blast
  then show ?thesis
  proof cases
    case ahead
    then show ?thesis using Some by (simp add: first_missing_def decide_initial_state_def ahead_iff Let_def)
  next
    case behind
    then have "\<not> saturating_add tip 1 < l" unfolding ahead_iff by (simp add: word_less_nat_alt)
    with behind show ?thesis using Some
      by (simp add: first_missing_def decide_initial_state_def unat_succ slots_of_def Let_def word_less_nat_alt)
  next
    case level
    then have "unat l \<le> unat tip + 1" unfolding ahead_iff by simp
    with level show ?thesis using Some
      by (simp add: first_missing_def decide_initial_state_def ahead_iff Let_def word_less_nat_alt)
  qed
qed

text \<open>A backfill range is cut into chunks that cover every slot of it exactly once, in order, each of
  at most the configured size, which must not be zero.\<close>

theorem backfill_chunks_partition:
  assumes "0 < chunk_size"
  shows "concat (map slots_of (compute_backfill_chunks a b chunk_size)) = slots_of (a, b) \<and>
    (\<forall>(c, d) \<in> set (compute_backfill_chunks a b chunk_size). c \<le> d \<and> unat d - unat c < unat chunk_size)"
  using backfill_chunks.chunks_cover [OF assms] backfill_chunks.chunks_size [OF assms] by auto

theorem backfill_chunks_partition_witness:
  "concat (map slots_of (compute_backfill_chunks 10 25 10)) = slots_of (10, 25)"
  using backfill_chunks_partition [of 10 10 25] by simp

section \<open>Decoding a transaction\<close>

definition cache_ok :: "chainparser_decoder \<Rightarrow> idl \<Rightarrow> bool" where
  "cache_ok dec i \<longleftrightarrow> registry_cache dec (idl_address i) \<in> {None, Some (registry_from_idl i)}"

lemma cache_ok_new [simp]: "cache_ok chainparser_new i"
  by (simp add: cache_ok_def chainparser_new_def)

lemma get_or_build_registry_ok:
  "cache_ok dec i \<Longrightarrow> fst (get_or_build_registry dec i) = registry_from_idl i \<and>
   cache_ok (snd (get_or_build_registry dec i)) i"
  by (auto simp: cache_ok_def get_or_build_registry_def Let_def split: option.splits)

text \<open>What an instruction's data decodes to, whatever the cache holds.\<close>

definition decodes_to :: "(bytes \<Rightarrow> string) \<Rightarrow> (bytes \<Rightarrow> bytes) \<Rightarrow> string \<Rightarrow> idl \<Rightarrow> bytes \<Rightarrow> decode_error + decoded_instruction" where
  "decodes_to b58 sha256 program_id i data = fst (decode_instruction b58 sha256 chainparser_new program_id data i)"

lemma decode_instruction_ok:
  assumes "cache_ok dec i"
  shows "fst (decode_instruction b58 sha256 dec p data i) = decodes_to b58 sha256 p i data \<and>
    cache_ok (snd (decode_instruction b58 sha256 dec p data i)) i"
proof -
  obtain reg dec' where r: "get_or_build_registry dec i = (reg, dec')" by fastforce
  obtain reg2 dec2 where r2: "get_or_build_registry chainparser_new i = (reg2, dec2)" by fastforce
  have "reg = registry_from_idl i" "cache_ok dec' i" "reg2 = registry_from_idl i"
    using get_or_build_registry_ok [OF assms] get_or_build_registry_ok [OF cache_ok_new, of i] r r2 by auto
  then show ?thesis using assms
    by (simp add: decodes_to_def decode_instruction_def r r2 split: sum.splits)
qed

text \<open>All instructions of a transaction with their indices, outer ones first.\<close>

type_synonym placed = "u8 \<times> u8 option \<times> rpc_instruction"

definition tx_places :: "rpc_transaction \<Rightarrow> placed list" where
  "tx_places tx =
     map (\<lambda>(k, ix). (of_nat k, None, ix)) (enumerate 0 (rt_instructions tx)) @
     concat (map (\<lambda>g. map (\<lambda>(k, ix). (rg_index g, Some (of_nat k), ix)) (enumerate 0 (rg_instructions g)))
       (rt_inner_instructions tx))"

definition targeted :: "string \<Rightarrow> rpc_transaction \<Rightarrow> placed \<Rightarrow> bool" where
  "targeted program_id tx = (\<lambda>(a, b, ix). nth_opt (rt_account_keys tx) (unat (ri_program_id_index ix)) = Some program_id)"

definition decoded_at ::
  "(bytes \<Rightarrow> string) \<Rightarrow> (bytes \<Rightarrow> bytes) \<Rightarrow> string \<Rightarrow> idl \<Rightarrow> rpc_transaction \<Rightarrow> placed \<Rightarrow> decoded_instruction option" where
  "decoded_at b58 sha256 program_id i tx = (\<lambda>(a, b, ix).
     case decodes_to b58 sha256 program_id i (ri_data ix) of
       Inl _ \<Rightarrow> None
     | Inr di \<Rightarrow> Some (enrich_instruction di (rt_signature tx) (rt_slot tx) None a b (ri_accounts ix)
                        (rt_account_keys tx) program_id))"

text \<open>\<open>run'\<close> is \<open>run\<close> after the instructions \<open>ps\<close>.\<close>

definition decoded_through ::
  "(bytes \<Rightarrow> string) \<Rightarrow> (bytes \<Rightarrow> bytes) \<Rightarrow> string \<Rightarrow> idl \<Rightarrow> rpc_transaction \<Rightarrow> placed list \<Rightarrow> decode_run \<Rightarrow> decode_run \<Rightarrow> bool" where
  "decoded_through b58 sha256 program_id i tx ps run run' \<longleftrightarrow>
     (let ts = filter (targeted program_id tx) ps; ds = List.map_filter (decoded_at b58 sha256 program_id i tx) ts
      in dr_decoded run' = dr_decoded run @ ds \<and> dr_attempts run' = dr_attempts run + length ts \<and>
         dr_failures run' + length ds = dr_failures run + length ts \<and>
         rs_decode_failures (dr_stats run') = rs_decode_failures (dr_stats run) + of_nat (length ts - length ds) \<and>
         cache_ok (dr_decoder run') i)"

lemma map_filter_length: "length (List.map_filter f xs) \<le> length xs"
  by (simp add: List.map_filter_def)

lemma decoded_through_append:
  "decoded_through b58 sha256 p i tx ps run run1 \<Longrightarrow> decoded_through b58 sha256 p i tx qs run1 run2 \<Longrightarrow>
   decoded_through b58 sha256 p i tx (ps @ qs) run run2"
  using map_filter_length [of "decoded_at b58 sha256 p i tx" "filter (targeted p tx) ps"]
    map_filter_length [of "decoded_at b58 sha256 p i tx" "filter (targeted p tx) qs"]
  by (simp add: decoded_through_def Let_def List.map_filter_def of_nat_diff)

lemma decoded_through_nil: "cache_ok (dr_decoder run) i \<Longrightarrow> decoded_through b58 sha256 p i tx [] run run"
  by (simp add: decoded_through_def List.map_filter_def)

lemma decode_ixs_through:
  "cache_ok (dr_decoder run) i \<Longrightarrow>
   decoded_through b58 sha256 p i tx (map (\<lambda>(k, ix). (fst (place k), snd (place k), ix)) (enumerate k ixs)) run
     (decode_ixs b58 sha256 p i tx place k ixs run)"
proof (induction ixs arbitrary: k run)
  case Nil
  then show ?case by (simp add: decoded_through_nil)
next
  case (Cons ix ixs)
  let ?hit = "instruction_targets_program (ri_program_id_index ix) (rt_account_keys tx) p"
  obtain r dec where d: "decode_instruction b58 sha256 (dr_decoder run) p (ri_data ix) i = (r, dec)" by fastforce
  with decode_instruction_ok [OF Cons.prems, of b58 sha256 p "ri_data ix"]
  have r: "decodes_to b58 sha256 p i (ri_data ix) = r" and ok: "cache_ok dec i" by auto
  define run1 where "run1 = (if \<not> ?hit then run else
      let run1 = run\<lparr> dr_attempts := dr_attempts run + 1 \<rparr>; run2 = run1\<lparr> dr_decoder := dec \<rparr>
      in case r of
           Inr di \<Rightarrow> run2\<lparr> dr_decoded := dr_decoded run2 @ [enrich_instruction di (rt_signature tx) (rt_slot tx) None
             (fst (place k)) (snd (place k)) (ri_accounts ix) (rt_account_keys tx) p] \<rparr>
         | Inl e \<Rightarrow> run2\<lparr> dr_failures := dr_failures run2 + 1, dr_stats := incr_decode_failure (dr_stats run2) \<rparr>)"
  have step: "decode_ixs b58 sha256 p i tx place k (ix # ixs) run = decode_ixs b58 sha256 p i tx place (Suc k) ixs run1"
    by (simp add: run1_def d Let_def)
  have one: "decoded_through b58 sha256 p i tx [(fst (place k), snd (place k), ix)] run run1"
    using Cons.prems ok r
    by (auto simp: decoded_through_def run1_def targeted_def instruction_targets_program_def decoded_at_def
        List.map_filter_def incr_decode_failure_def Let_def split: sum.splits)
  then have "cache_ok (dr_decoder run1) i" by (simp add: decoded_through_def Let_def)
  from decoded_through_append [OF one Cons.IH [OF this, of "Suc k"]] show ?case unfolding step by simp
qed

lemma decode_groups_through:
  "cache_ok (dr_decoder run) i \<Longrightarrow>
   decoded_through b58 sha256 p i tx
     (concat (map (\<lambda>g. map (\<lambda>(k, ix). (rg_index g, Some (of_nat k), ix)) (enumerate 0 (rg_instructions g))) groups)) run
     (decode_groups b58 sha256 p i tx groups run)"
proof (induction groups arbitrary: run)
  case Nil
  then show ?case by (simp add: decoded_through_nil)
next
  case (Cons g groups)
  let ?run = "decode_ixs b58 sha256 p i tx (\<lambda>k. (rg_index g, Some (of_nat k))) 0 (rg_instructions g) run"
  have one: "decoded_through b58 sha256 p i tx
      (map (\<lambda>(k, ix). (rg_index g, Some (of_nat k), ix)) (enumerate 0 (rg_instructions g))) run ?run"
    using decode_ixs_through [OF Cons.prems, where place = "\<lambda>k. (rg_index g, Some (of_nat k))" and k = 0] by simp
  then have "cache_ok (dr_decoder ?run) i" by (simp add: decoded_through_def Let_def)
  from decoded_through_append [OF one Cons.IH [OF this]] show ?case by simp
qed

text \<open>The instructions a transaction contributes.\<close>

definition tx_decoded ::
  "(bytes \<Rightarrow> string) \<Rightarrow> (bytes \<Rightarrow> bytes) \<Rightarrow> bool \<Rightarrow> string \<Rightarrow> rpc_transaction \<Rightarrow> idl \<Rightarrow> decoded_instruction list" where
  "tx_decoded b58 sha256 index_failed p tx i =
     (if \<not> index_failed \<and> \<not> rt_success tx then []
      else List.map_filter (decoded_at b58 sha256 p i tx) (filter (targeted p tx) (tx_places tx)))"

lemma decode_transaction_through:
  assumes "cache_ok dec i"
  shows "let r = decode_transaction b58 sha256 index_failed p tx i dec st;
      tried = (if \<not> index_failed \<and> \<not> rt_success tx then [] else filter (targeted p tx) (tx_places tx))
    in dr_decoded r = tx_decoded b58 sha256 index_failed p tx i \<and> dr_attempts r = length tried \<and>
       dr_failures r + length (dr_decoded r) = dr_attempts r \<and>
       rs_decode_failures (dr_stats r) = rs_decode_failures st + of_nat (dr_failures r) \<and> cache_ok (dr_decoder r) i"
proof (cases "\<not> index_failed \<and> \<not> rt_success tx")
  case True
  then show ?thesis using assms by (simp add: decode_transaction_def tx_decoded_def)
next
  case False
  let ?run0 = "\<lparr> dr_decoded = [], dr_failures = 0, dr_attempts = 0, dr_decoder = dec, dr_stats = st \<rparr>"
  let ?run1 = "decode_ixs b58 sha256 p i tx (\<lambda>k. (of_nat k, None)) 0 (rt_instructions tx) ?run0"
  have one: "decoded_through b58 sha256 p i tx (map (\<lambda>(k, ix). (of_nat k, None, ix)) (enumerate 0 (rt_instructions tx))) ?run0 ?run1"
    using decode_ixs_through [of ?run0 i, where place = "\<lambda>k. (of_nat k, None)" and k = 0] assms by simp
  then have "cache_ok (dr_decoder ?run1) i" by (simp add: decoded_through_def Let_def)
  from decoded_through_append [OF one decode_groups_through [OF this]]
  have t: "decoded_through b58 sha256 p i tx (tx_places tx) ?run0 (decode_transaction b58 sha256 index_failed p tx i dec st)"
    using False by (simp add: decode_transaction_def tx_places_def Let_def if_not_P)
  then have "dr_failures (decode_transaction b58 sha256 index_failed p tx i dec st) =
      length (filter (targeted p tx) (tx_places tx)) -
      length (List.map_filter (decoded_at b58 sha256 p i tx) (filter (targeted p tx) (tx_places tx)))"
    unfolding decoded_through_def Let_def by simp (metis add_diff_cancel_right')
  with t show ?thesis unfolding if_not_P [OF False] Let_def decoded_through_def tx_decoded_def by simp
qed

text \<open>C17. Decoding a transaction, with any cache that agrees with the IDL: the result is, in order, exactly
  the instructions (outer and inner) whose program index resolves to the program and whose data
  decodes, each enriched with the transaction's context; every other targeted instruction is
  counted as one failure, in the result and in the process counter, and nothing else is
  attempted. A failed transaction contributes nothing unless failed ones are indexed.\<close>

theorem decode_transaction_spec:
  assumes "registry_cache dec (idl_address i) \<in> {None, Some (registry_from_idl i)}"
  shows "let r = decode_transaction b58 sha256 index_failed p tx i dec st;
      tried = (if \<not> index_failed \<and> \<not> rt_success tx then [] else filter (targeted p tx) (tx_places tx))
    in dr_decoded r = List.map_filter (decoded_at b58 sha256 p i tx) tried \<and>
       dr_attempts r = length tried \<and> dr_attempts r = length (dr_decoded r) + dr_failures r \<and>
       rs_decode_failures (dr_stats r) = rs_decode_failures st + of_nat (dr_failures r)"
  using decode_transaction_through [of dec i b58 sha256 index_failed p tx st] assms
  by (auto simp: cache_ok_def tx_decoded_def Let_def List.map_filter_def)

section \<open>Keys of a transaction's instructions\<close>

definition place_key :: "placed \<Rightarrow> int \<times> int" where
  "place_key = (\<lambda>(a, b, ix). (uint a, case b of None \<Rightarrow> - 1 | Some k \<Rightarrow> uint k))"

lemma decoded_at_key: "decoded_at b58 sha256 p i tx pl = Some d \<Longrightarrow> di_key d = (rt_signature tx, place_key pl)"
  by (auto simp: decoded_at_def place_key_def ix_key_def ix_row_def enrich_instruction_def split: sum.splits option.splits prod.splits)

lemma map_filter_keys:
  "map di_key (List.map_filter (decoded_at b58 sha256 p i tx) pls) =
   map (\<lambda>pl. (rt_signature tx, place_key pl)) (filter (\<lambda>pl. decoded_at b58 sha256 p i tx pl \<noteq> None) pls)"
  by (induction pls) (auto simp: List.map_filter_def dest: decoded_at_key)

lemma of_nat_u8_inj: "j < 256 \<Longrightarrow> k < 256 \<Longrightarrow> (of_nat j :: u8) = of_nat k \<longleftrightarrow> j = k"
  by (simp add: word_of_nat_eq_iff take_bit_eq_mod)

definition tx_shape :: "rpc_transaction \<Rightarrow> bool" where
  "tx_shape tx \<longleftrightarrow> length (rt_instructions tx) \<le> 256 \<and> distinct (map rg_index (rt_inner_instructions tx)) \<and>
     (\<forall>g \<in> set (rt_inner_instructions tx). length (rg_instructions g) \<le> 256)"

lemma map_enumerate: "map (\<lambda>(k, ix). h k) (enumerate n ixs) = map h [n..<n + length ixs]"
  by (induction ixs arbitrary: n) (simp_all add: upt_conv_Cons del: upt_Suc)

lemma uint_of_nat_u8_inj: "j < 256 \<Longrightarrow> k < 256 \<Longrightarrow> uint (of_nat j :: u8) = uint (of_nat k :: u8) \<Longrightarrow> j = k"
  using of_nat_u8_inj [of j k] by (metis word_uint_eq_iff)

lemma indices_distinct:
  assumes "n \<le> 256"
  shows "distinct (map (\<lambda>k. (uint (of_nat k :: u8), c :: int)) [0..<n])"
    and "distinct (map (\<lambda>k. (c, uint (of_nat k :: u8))) [0..<n])"
  using assms by (auto simp: distinct_map inj_on_def simp del: uint_word_of_int_eq unsigned_of_nat
      intro: uint_of_nat_u8_inj)

definition group_places :: "rpc_inner_group \<Rightarrow> placed list" where
  "group_places g = map (\<lambda>(k, ix). (rg_index g, Some (of_nat k), ix)) (enumerate 0 (rg_instructions g))"

lemma map_group_places:
  "map place_key (group_places g) = map (\<lambda>(k, ix). (uint (rg_index g), uint (of_nat k :: u8))) (enumerate 0 (rg_instructions g))"
  by (auto simp: group_places_def place_key_def)

lemma group_place_keys: "x \<in> place_key ` set (group_places g) \<Longrightarrow> fst x = uint (rg_index g) \<and> 0 \<le> snd x"
  by (auto simp: group_places_def place_key_def)

lemma groups_keys_distinct:
  "distinct (map rg_index gs) \<Longrightarrow> \<forall>g \<in> set gs. length (rg_instructions g) \<le> 256 \<Longrightarrow>
   distinct (map place_key (concat (map group_places gs)))"
proof (induction gs)
  case (Cons g gs)
  have "place_key ` set (group_places g) \<inter> place_key ` set (group_places h) = {}" if "h \<in> set gs" for h
  proof -
    have "rg_index g \<noteq> rg_index h" using Cons.prems(1) that by auto
    then show ?thesis using group_place_keys by (metis disjoint_iff word_uint_eq_iff)
  qed
  moreover have "distinct (map place_key (group_places g))"
    using Cons.prems(2) by (simp add: map_group_places map_enumerate indices_distinct)
  ultimately show ?case using Cons by auto
qed simp

lemma tx_places_distinct:
  assumes "tx_shape tx"
  shows "distinct (map place_key (tx_places tx))"
proof -
  let ?outer = "map (\<lambda>(k, ix). (of_nat k, None, ix)) (enumerate 0 (rt_instructions tx)) :: placed list"
  have places: "tx_places tx = ?outer @ concat (map group_places (rt_inner_instructions tx))"
    by (simp add: tx_places_def group_places_def [abs_def])
  have "map place_key ?outer = map (\<lambda>(k, ix). (uint (of_nat k :: u8), - 1)) (enumerate 0 (rt_instructions tx))"
    by (auto simp: place_key_def)
  then have outer: "distinct (map place_key ?outer)"
    using assms by (simp add: tx_shape_def map_enumerate indices_distinct)
  have neg: "snd x = - 1" if "x \<in> place_key ` set ?outer" for x
    using that by (auto simp: place_key_def)
  have pos: "0 \<le> snd x" if "x \<in> place_key ` set (concat (map group_places (rt_inner_instructions tx)))" for x
  proof -
    from that obtain g where "x \<in> place_key ` set (group_places g)" unfolding set_concat set_map by blast
    then show ?thesis by (simp add: group_place_keys)
  qed
  have "place_key ` set ?outer \<inter> place_key ` set (concat (map group_places (rt_inner_instructions tx))) = {}"
  proof (rule ccontr)
    assume "\<not> ?thesis"
    then obtain x where "x \<in> place_key ` set ?outer" "x \<in> place_key ` set (concat (map group_places (rt_inner_instructions tx)))"
      by blast
    from neg [OF this(1)] pos [OF this(2)] show False by linarith
  qed
  moreover have "distinct (map place_key (concat (map group_places (rt_inner_instructions tx))))"
    using assms by (simp add: groups_keys_distinct tx_shape_def)
  ultimately show ?thesis using outer by (simp only: places map_append distinct_append set_map simp_thms)
qed

text \<open>No instruction of a transaction is lost to the table's unique key: with at most 256 instructions,
  at most 256 inner ones per group and one group per outer instruction, the decoded instructions
  have pairwise different keys, so a one-byte index never wraps onto another.\<close>

theorem transaction_keys_distinct:
  assumes "tx_shape tx" and "cache_ok dec i"
  shows "distinct (map di_key (dr_decoded (decode_transaction b58 sha256 index_failed p tx i dec st)))"
proof -
  have "distinct (map place_key (filter Q (tx_places tx)))" for Q
    using tx_places_distinct [OF assms(1)] by (rule distinct_map_filter)
  then have "distinct (map (\<lambda>pl. (rt_signature tx, place_key pl)) (filter Q (tx_places tx)))" for Q
    by (auto simp: distinct_map inj_on_def)
  then have "distinct (map di_key (tx_decoded b58 sha256 index_failed p tx i))"
    by (simp add: tx_decoded_def map_filter_keys)
  then show ?thesis using decode_transaction_through [OF assms(2), of b58 sha256 index_failed p tx st]
    by (simp add: Let_def)
qed

section \<open>Blocks\<close>

definition block_decoded ::
  "(bytes \<Rightarrow> string) \<Rightarrow> (bytes \<Rightarrow> bytes) \<Rightarrow> bool \<Rightarrow> string \<Rightarrow> rpc_block \<Rightarrow> idl \<Rightarrow> decoded_instruction list" where
  "block_decoded b58 sha256 index_failed p block i =
     concat (map (\<lambda>tx. map (\<lambda>di. di\<lparr> di_block_time := rb_block_time block \<rparr>) (tx_decoded b58 sha256 index_failed p tx i))
       (rb_transactions block))"

lemma decode_txs_decoded:
  "cache_ok (dr_decoder run) i \<Longrightarrow>
   dr_decoded (decode_txs b58 sha256 index_failed p bt i txs run) =
     dr_decoded run @ concat (map (\<lambda>tx. map (\<lambda>di. di\<lparr> di_block_time := bt \<rparr>) (tx_decoded b58 sha256 index_failed p tx i)) txs) \<and>
   cache_ok (dr_decoder (decode_txs b58 sha256 index_failed p bt i txs run)) i"
proof (induction txs arbitrary: run)
  case (Cons tx txs)
  from decode_transaction_through [OF Cons.prems, of b58 sha256 index_failed p tx "dr_stats run"]
  show ?case using Cons.IH by (simp add: Let_def)
qed simp

lemma decode_block_decoded:
  assumes "cache_ok dec i"
  shows "dr_decoded (decode_block b58 sha256 index_failed p block i dec st) = block_decoded b58 sha256 index_failed p block i"
    and "cache_ok (dr_decoder (decode_block b58 sha256 index_failed p block i dec st)) i"
  using decode_txs_decoded [of "\<lparr> dr_decoded = [], dr_failures = 0, dr_attempts = 0, dr_decoder = dec, dr_stats = st \<rparr>" i] assms
  by (simp_all add: decode_block_def block_decoded_def)

section \<open>A concrete transaction\<close>

definition demo_idl_empty :: idl where
  "demo_idl_empty = \<lparr> idl_address = ''P'', idl_metadata_name = ''demo'', idl_metadata_version = ''0.1.0'',
     idl_instructions = [\<lparr> ix_name = ''tick'', ix_discriminator = [7], ix_args = [] \<rparr>], idl_accounts = [], idl_types = [] \<rparr>"

definition demo_tx :: rpc_transaction where
  "demo_tx = \<lparr> rt_signature = ''S'', rt_slot = 9, rt_success = True, rt_account_keys = [''A'', ''P''],
     rt_instructions = [\<lparr> ri_program_id_index = 1, ri_data = [7], ri_accounts = [0] \<rparr>,
                        \<lparr> ri_program_id_index = 0, ri_data = [7], ri_accounts = [] \<rparr>],
     rt_inner_instructions = [\<lparr> rg_index = 1, rg_instructions = [\<lparr> ri_program_id_index = 1, ri_data = [8], ri_accounts = [] \<rparr>] \<rparr>] \<rparr>"

theorem decode_transaction_spec_witness:
  "dr_attempts (decode_transaction (\<lambda>_. []) id False ''P'' demo_tx demo_idl_empty chainparser_new runtime_stats_new) =
     length (filter (targeted ''P'' demo_tx) (tx_places demo_tx))"
  using decode_transaction_spec [of chainparser_new demo_idl_empty "\<lambda>_. []" id False "''P''" demo_tx runtime_stats_new]
  by (simp add: chainparser_new_def demo_tx_def Let_def)

theorem transaction_keys_distinct_witness:
  "distinct (map di_key (dr_decoded (decode_transaction (\<lambda>_. []) id False ''P'' demo_tx demo_idl_empty chainparser_new runtime_stats_new)))"
  by (rule transaction_keys_distinct) (simp_all add: tx_shape_def demo_tx_def)

end
