(* ===== verification/Backfill_Correct.thy ===== *)
theory Backfill_Correct
  imports Backfill Transactions_Correct Rpc_Correct
begin

text \<open>
  Correctness of the backfill under every schedule: what was sent is in the table or in the
  channel, a backfill that returns has written everything it fetched, the writer task refines
  the sequential writer, the cursor of the indexer state never goes back, and the channel stays
  within its capacity.
\<close>

section \<open>Properties kept by every task\<close>

text \<open>
  A property of the shared state (database, channel, cancellation) that every event of another
  task keeps is kept while the producer waits.
\<close>

locale pipe_stable =
  fixes env :: pipe_env and P :: "pipe \<Rightarrow> bool"
  assumes shared: "P w \<Longrightarrow> pw_db w' = pw_db w \<Longrightarrow> pw_chan w' = pw_chan w \<Longrightarrow> pw_cancelled w' = pw_cancelled w \<Longrightarrow> P w'"
    and event: "P w \<Longrightarrow> P (run_event env e w)"
begin

lemma fold_events: "P w \<Longrightarrow> P (fold (run_event env) es w)"
  by (induction es arbitrary: w) (auto intro: event)

lemma await_stable: "P w \<Longrightarrow> P (await env w)"
  unfolding await_def by (rule fold_events) (erule shared, simp_all)

lemma task_stable: "P w \<Longrightarrow> P (writer_task env w)"
  using event [of w EvWriter] by simp

lemma permit_stable: "P w \<Longrightarrow> P (send_permit env w)"
  by (simp add: send_permit_def Let_def task_stable await_stable)

lemma task_pow_stable: "P w \<Longrightarrow> P ((writer_task env ^^ n) w)"
  by (induction n) (auto intro: task_stable)

lemma set_state_stable: "P w \<Longrightarrow> P (snd (set_state env pid status slot w))"
  using event [of w "EvOtherState pid status slot"] by simp

end

section \<open>Writes\<close>

definition db_keys :: "string \<Rightarrow> database \<Rightarrow> (string \<times> int \<times> int) set" where
  "db_keys sn db = (case db_schemas db sn of None \<Rightarrow> {} | Some ps \<Rightarrow> ix_key ` set (ps_instructions ps))"

definition batch_keys :: "string \<Rightarrow> write_batch \<Rightarrow> (string \<times> int \<times> int) set" where
  "batch_keys sn b = (if wb_schema_name b = sn then di_key ` set (wb_instructions b) else {})"

definition queue_keys :: "string \<Rightarrow> write_batch list \<Rightarrow> (string \<times> int \<times> int) set" where
  "queue_keys sn q = (\<Union>b \<in> set q. batch_keys sn b)"

lemma queue_keys_simps [simp]:
  "queue_keys sn [] = {}" "queue_keys sn (b # q) = batch_keys sn b \<union> queue_keys sn q"
  "queue_keys sn (q @ q') = queue_keys sn q \<union> queue_keys sn q'"
  by (auto simp: queue_keys_def)

lemma db_keys_schemas: "db_schemas db' = db_schemas db \<Longrightarrow> db_keys sn db' = db_keys sn db"
  by (simp add: db_keys_def)

lemma write_block_keys:
  assumes "write_block fault pg ho tn stream ixs as slot sig w db = (r, w', db')"
  shows "db_keys sn db' = db_keys sn db \<union> (case r of Inl _ \<Rightarrow> {} | Inr _ \<Rightarrow> if tn = sn then di_key ` set ixs else {})"
proof (cases r)
  case (Inl e)
  then show ?thesis using write_block_Inl assms by fastforce
next
  case (Inr x)
  from write_block_Inr [OF assms [unfolded Inr]] obtain ps ps' where
    p: "db_schemas db tn = Some ps" "db' = db\<lparr> db_schemas := (db_schemas db)(tn \<mapsto> ps') \<rparr>"
    "ix_state ps' = foldl insert_ix (ix_state ps) (map ix_row ixs)" by blast
  have "ix_key ` set (ps_instructions ps') = ix_key ` set (ps_instructions ps) \<union> ix_key ` set (map ix_row ixs)"
    using ixlog.keys_foldl [of "ix_state ps" "map ix_row ixs"] p(3) [symmetric] by (simp add: ix_state_def)
  then show ?thesis using p Inr by (auto simp: db_keys_def image_image split: option.splits)
qed

lemma write_batch_now_effect:
  assumes "write_batch_now env b w = (r, w')"
  shows "pw_chan w' = pw_chan w" "pw_cancelled w' = pw_cancelled w"
    "db_keys sn (pw_db w') = db_keys sn (pw_db w) \<union> (case r of Inl _ \<Rightarrow> {} | Inr _ \<Rightarrow> batch_keys sn b)"
    "db_indexer_state (pw_db w') = db_indexer_state (pw_db w)"
proof -
  obtain r' sw db where wb: "write_block (pe_faults env (pw_tick w)) (pe_pg_eval env) (pe_hash_order env)
            (wb_schema_name b) (wb_stream b) (wb_instructions b) (wb_accounts b) (wb_slot b) (wb_signature b)
            (pw_writer w) (pw_db w) = (r', sw, db)" by (metis prod_cases3)
  with assms have w': "r' = r" "w' = (next_tick w)\<lparr> pw_writer := sw, pw_db := db \<rparr>"
    by (simp_all add: write_batch_now_def)
  then show "pw_chan w' = pw_chan w" "pw_cancelled w' = pw_cancelled w" by simp_all
  show "db_keys sn (pw_db w') = db_keys sn (pw_db w) \<union> (case r of Inl _ \<Rightarrow> {} | Inr _ \<Rightarrow> batch_keys sn b)"
    using write_block_keys [OF wb, of sn] w' by (auto simp: batch_keys_def split: sum.splits)
  show "db_indexer_state (pw_db w') = db_indexer_state (pw_db w)"
    using wb w' write_block_Inl [of "pe_faults env (pw_tick w)" "pe_pg_eval env" "pe_hash_order env"]
      write_block_Inr [of "pe_faults env (pw_tick w)" "pe_pg_eval env" "pe_hash_order env"]
    by (cases r) fastforce+
qed

lemma set_state_effect:
  assumes "set_state env pid status slot w = (r, w')"
  shows "pw_chan w' = pw_chan w" "pw_cancelled w' = pw_cancelled w"
    "db_schemas (pw_db w') = db_schemas (pw_db w)" "pw_decoder w' = pw_decoder w"
  using assms by (auto simp: set_state_def update_indexer_state_def split: option.splits)

lemma writer_finish_effect:
  "pw_chan (writer_finish env w) = (pw_chan w)\<lparr> ch_queue := [], ch_task := TDone (Inr ()) \<rparr>"
  "pw_cancelled (writer_finish env w) = pw_cancelled w"
  "db_schemas (pw_db (writer_finish env w)) = db_schemas (pw_db w)"
  by (simp_all add: writer_finish_def increment_indexer_counters_def Let_def split: option.splits sum.splits)

section \<open>Nothing sent is lost\<close>

definition chan_ok :: "pipe \<Rightarrow> bool" where
  "chan_ok w \<longleftrightarrow> (ch_task (pw_chan w) = TDraining \<longrightarrow> pw_cancelled w) \<and>
     (\<forall>r. ch_task (pw_chan w) = TDone r \<longrightarrow> ch_queue (pw_chan w) = [])"

definition writer_failed :: "pipe \<Rightarrow> bool" where
  "writer_failed w \<longleftrightarrow> (\<exists>e. ch_task (pw_chan w) = TDone (Inl e))"

definition covered :: "string \<Rightarrow> (string \<times> int \<times> int) set \<Rightarrow> pipe \<Rightarrow> bool" where
  "covered sn K w \<longleftrightarrow> chan_ok w \<and>
     (K \<subseteq> db_keys sn (pw_db w) \<union> queue_keys sn (ch_queue (pw_chan w)) \<or> pw_cancelled w \<or> writer_failed w)"

lemma covered_recv:
  assumes "covered sn K w" and "ch_task (pw_chan w) = TRunning"
  shows "covered sn K (writer_recv env w)"
proof (cases "ch_queue (pw_chan w)")
  case Nil
  then show ?thesis using assms
    by (auto simp: writer_recv_def covered_def chan_ok_def writer_failed_def writer_finish_effect Let_def
        db_keys_schemas [OF writer_finish_effect(3)])
next
  case (Cons b q)
  let ?w = "set_chan ((pw_chan w)\<lparr> ch_queue := q \<rparr>) w"
  obtain r w' where r: "write_batch_now env b ?w = (r, w')" by fastforce
  note eff = write_batch_now_effect(1,2,4) [OF r] write_batch_now_effect(3) [OF r, of sn]
  show ?thesis using assms Cons r eff
    by (cases r) (auto simp: writer_recv_def covered_def chan_ok_def writer_failed_def set_chan_def add_totals_def Let_def)
qed

lemma covered_drain:
  assumes "covered sn K w" and "ch_task (pw_chan w) = TDraining"
  shows "covered sn K (writer_drain env w)"
proof (cases "ch_queue (pw_chan w)")
  case Nil
  then show ?thesis using assms
    by (auto simp: writer_drain_def covered_def chan_ok_def writer_finish_effect Let_def)
next
  case (Cons b q)
  let ?w = "set_chan ((pw_chan w)\<lparr> ch_queue := q \<rparr>) w"
  obtain r w' where r: "write_batch_now env b ?w = (r, w')" by fastforce
  note eff = write_batch_now_effect(1,2,4) [OF r] write_batch_now_effect(3) [OF r, of sn]
  show ?thesis using assms Cons r eff
    by (cases r) (auto simp: writer_drain_def covered_def chan_ok_def set_chan_def add_totals_def Let_def)
qed

lemma covered_event: "covered sn K w \<Longrightarrow> covered sn K (run_event env e w)"
proof (cases e)
  case EvWriter
  assume "covered sn K w"
  then show ?thesis using EvWriter covered_recv [of sn K w env] covered_drain [of sn K w env]
    by (auto simp: writer_task_def split: task_state.splits)
next
  case EvWriterCancelled
  assume "covered sn K w"
  then show ?thesis using EvWriterCancelled
    by (auto simp: writer_cancelled_def covered_def chan_ok_def writer_failed_def set_chan_def)
next
  case EvCancel
  assume "covered sn K w"
  then show ?thesis using EvCancel by (simp add: covered_def chan_ok_def)
next
  case (EvOtherWrite b)
  obtain r w' where r: "write_batch_now env b w = (r, w')" by fastforce
  assume "covered sn K w"
  then show ?thesis using EvOtherWrite r write_batch_now_effect(1,2,4) [OF r] write_batch_now_effect(3) [OF r, of sn]
    by (auto simp: covered_def chan_ok_def writer_failed_def)
next
  case (EvOtherState pid status slot)
  obtain r w' where r: "set_state env pid status slot w = (r, w')" by fastforce
  assume "covered sn K w"
  then show ?thesis using EvOtherState r set_state_effect [OF r] db_keys_schemas [of "pw_db w'" "pw_db w" sn]
    by (simp add: covered_def chan_ok_def writer_failed_def)
qed

interpretation cov: pipe_stable env "covered sn K" for env sn K
proof
  fix w w' :: pipe
  assume "covered sn K w" "pw_db w' = pw_db w" "pw_chan w' = pw_chan w" "pw_cancelled w' = pw_cancelled w"
  then show "covered sn K w'" by (simp add: covered_def chan_ok_def writer_failed_def)
qed (rule covered_event)

lemma cancelled_event: "pw_cancelled w \<Longrightarrow> pw_cancelled (run_event env e w)"
  by (cases e) (auto simp: writer_task_def writer_recv_def writer_drain_def writer_finish_def writer_cancelled_def
      write_batch_now_def set_chan_def set_state_def Let_def split: task_state.splits list.splits sum.splits prod.splits)

lemma event_keeps_keys: "db_keys sn (pw_db w) \<subseteq> db_keys sn (pw_db (run_event env e w))"
proof -
  have wb: "db_keys sn (pw_db v) \<subseteq> db_keys sn (pw_db v')" if "write_batch_now env b v = (r, v')" for b v r v'
    using write_batch_now_effect(3) [OF that, of sn] by auto
  have fin: "db_keys sn (pw_db (writer_finish env v)) = db_keys sn (pw_db v)" for v
    by (rule db_keys_schemas) (rule writer_finish_effect)
  have "db_keys sn (pw_db (snd (set_state env pid status slot v))) = db_keys sn (pw_db v)" for pid status slot v
    using set_state_effect(3) [of env pid status slot v] by (intro db_keys_schemas) (metis prod.collapse)
  moreover have "db_keys sn (pw_db v) \<subseteq> db_keys sn (pw_db (writer_recv env v))" for v
    by (cases "ch_queue (pw_chan v)") (auto simp: writer_recv_def set_chan_def fin Let_def dest!: wb split: prod.splits sum.splits)
  moreover have "db_keys sn (pw_db v) \<subseteq> db_keys sn (pw_db (writer_drain env v))" for v
    by (cases "ch_queue (pw_chan v)") (auto simp: writer_drain_def set_chan_def fin Let_def dest!: wb split: prod.splits sum.splits)
  moreover have "db_keys sn (pw_db v) \<subseteq> db_keys sn (pw_db (snd (write_batch_now env b v)))" for b v
    using wb [of b v] by (metis prod.collapse)
  ultimately show ?thesis
    by (cases e) (auto simp: writer_task_def writer_cancelled_def set_chan_def split: task_state.splits)
qed

interpretation kept: pipe_stable env "\<lambda>w. K \<subseteq> db_keys sn (pw_db w)" for env sn K
  by unfold_locales (simp, meson event_keeps_keys subset_trans)

section \<open>The producer\<close>

lemma covered_weaken: "covered sn K w \<Longrightarrow> K' \<subseteq> K \<Longrightarrow> covered sn K' w"
  by (auto simp: covered_def)

lemma covered_send:
  assumes "covered sn K w" and "chan_send env b w = (Inr u, w')"
  shows "covered sn (K \<union> batch_keys sn b) w'"
proof -
  let ?w2 = "send_permit env w"
  have c2: "covered sn K ?w2" using assms(1) by (rule cov.permit_stable)
  have "w' = set_chan ((pw_chan ?w2)\<lparr> ch_queue := ch_queue (pw_chan ?w2) @ [b] \<rparr>) ?w2"
    and "\<forall>r. ch_task (pw_chan ?w2) \<noteq> TDone r"
    using assms(2) by (auto simp: chan_send_def Let_def split: task_state.splits)
  then show ?thesis using c2 by (auto simp: covered_def chan_ok_def writer_failed_def set_chan_def)
qed

lemma decoder_event [simp]: "pw_decoder (run_event env e w) = pw_decoder w"
  by (cases e) (auto simp: writer_task_def writer_recv_def writer_drain_def writer_finish_def writer_cancelled_def
      write_batch_now_def set_chan_def set_state_def Let_def split: task_state.splits list.splits sum.splits prod.splits)

lemma decoder_task [simp]: "pw_decoder (writer_task env w) = pw_decoder w"
  using decoder_event [of env EvWriter w] by simp

lemma decoder_await [simp]: "pw_decoder (await env w) = pw_decoder w"
proof -
  have "pw_decoder (fold (run_event env) es w) = pw_decoder w" for es w
    by (induction es arbitrary: w) simp_all
  then show ?thesis by (simp add: await_def)
qed

lemma decoder_send: "chan_send env b w = (r, w') \<Longrightarrow> pw_decoder w' = pw_decoder w"
  by (auto simp: chan_send_def send_permit_def set_chan_def Let_def split: task_state.splits if_splits)

definition decoded_keys :: "pipe_env \<Rightarrow> string \<Rightarrow> idl \<Rightarrow> rpc_block option \<Rightarrow> (string \<times> int \<times> int) set" where
  "decoded_keys env p i block = (case block of None \<Rightarrow> {} | Some b \<Rightarrow>
     di_key ` set (block_decoded (pe_b58 env) (pe_sha256 env) (cfg_index_failed_txs (pe_config env)) p b i))"

lemma block_batch_keys [simp]: "batch_keys sn (block_batch sn stream block ixs) = di_key ` set ixs"
  by (simp add: batch_keys_def block_batch_def)

text \<open>\<open>w'\<close> accounts for the keys \<open>N\<close> on top of what \<open>w\<close> accounted for.\<close>

definition accounts_for :: "string \<Rightarrow> idl \<Rightarrow> (string \<times> int \<times> int) set \<Rightarrow> pipe \<Rightarrow> pipe \<Rightarrow> bool" where
  "accounts_for sn i N w w' \<longleftrightarrow>
     (cache_ok (pw_decoder w) i \<longrightarrow> cache_ok (pw_decoder w') i \<and> (\<forall>K. covered sn K w \<longrightarrow> covered sn (K \<union> N) w'))"

lemma accounts_for_trans: "accounts_for sn i N w w1 \<Longrightarrow> accounts_for sn i N' w1 w2 \<Longrightarrow> accounts_for sn i (N \<union> N') w w2"
  unfolding accounts_for_def by (metis Un_assoc)

lemma accounts_for_await: "accounts_for sn i {} w (await env w)"
  by (simp add: accounts_for_def cov.await_stable)

lemma accounts_for_quiet:
  "pw_db w' = pw_db w \<Longrightarrow> pw_chan w' = pw_chan w \<Longrightarrow> pw_cancelled w' = pw_cancelled w \<Longrightarrow>
   (cache_ok (pw_decoder w) i \<Longrightarrow> cache_ok (pw_decoder w') i) \<Longrightarrow> accounts_for sn i {} w w'"
  by (auto simp: accounts_for_def covered_def chan_ok_def writer_failed_def)

lemma accounts_for_cancelled: "pw_cancelled w \<Longrightarrow> accounts_for sn i N w w"
  by (auto simp: accounts_for_def covered_def)

lemma accounts_for_send: "chan_send env b w = (Inr u, w') \<Longrightarrow> accounts_for sn i (batch_keys sn b) w w'"
  by (simp add: accounts_for_def decoder_send covered_send)

lemma chunk_slots_accounts:
  assumes "\<And>s st t. s \<in> set slots \<Longrightarrow> fst (get_block (pe_rpc env t) (cfg_index_failed_txs (pe_config env)) s st) = Inr (blk s)"
    and "cache_ok (pw_decoder w) i" and "chunk_slots env p sn i stream slots w = (Inr u, w')"
  shows "accounts_for sn i (\<Union>s \<in> set slots. decoded_keys env p i (blk s)) w w'"
  using assms
proof (induction slots arbitrary: w)
  case Nil
  then show ?case by (simp add: accounts_for_quiet)
next
  case (Cons s slots)
  show ?case
  proof (cases "pw_cancelled w")
    case True
    then show ?thesis using Cons.prems(3) by (simp add: accounts_for_cancelled)
  next
    case False
    let ?w1 = "await env w"
    obtain r st where gb: "get_block (pe_rpc env (pw_tick w)) (cfg_index_failed_txs (pe_config env)) s (pw_stats ?w1) = (r, st)"
      by fastforce
    with Cons.prems(1) [of s] have r: "r = Inr (blk s)" by (metis fst_conv list.set_intros(1))
    let ?w2 = "?w1\<lparr> pw_stats := st \<rparr>"
    have IH: "cache_ok (pw_decoder v) i \<Longrightarrow> chunk_slots env p sn i stream slots v = (Inr u, w') \<Longrightarrow>
        accounts_for sn i (\<Union>s \<in> set slots. decoded_keys env p i (blk s)) v w'" for v
      using Cons.IH [of v] Cons.prems(1) by simp
    have a2: "accounts_for sn i {} w ?w2"
      using accounts_for_trans [OF accounts_for_await accounts_for_quiet, of ?w2 env w i sn] by simp
    show ?thesis
    proof (cases "blk s")
      case None
      with Cons.prems False gb r have "chunk_slots env p sn i stream slots ?w2 = (Inr u, w')" by simp
      from accounts_for_trans [OF a2 IH [OF _ this]] Cons.prems(2) None show ?thesis by (simp add: decoded_keys_def)
    next
      case (Some b)
      define run where "run = decode_block (pe_b58 env) (pe_sha256 env) (cfg_index_failed_txs (pe_config env)) p b i
          (pw_decoder w) st"
      let ?w3 = "?w2\<lparr> pw_decoder := dr_decoder run, pw_stats := dr_stats run \<rparr>"
      have run: "cache_ok (dr_decoder run) i" "di_key ` set (dr_decoded run) = decoded_keys env p i (blk s)"
        using decode_block_decoded [of "pw_decoder w" i] Cons.prems(2) by (simp_all add: run_def decoded_keys_def Some)
      have "accounts_for sn i {} ?w2 ?w3" by (rule accounts_for_quiet) (simp_all add: run)
      from accounts_for_trans [OF a2 this] have a3: "accounts_for sn i {} w ?w3" by simp
      show ?thesis
      proof (cases "dr_decoded run = []")
        case True
        let ?w4 = "?w3\<lparr> pw_progress := note_block s 0 (pw_progress ?w3) \<rparr>"
        from Cons.prems(3) False gb r Some True have "chunk_slots env p sn i stream slots ?w4 = (Inr u, w')"
          by (simp add: run_def [symmetric] Let_def)
        moreover have "accounts_for sn i {} ?w3 ?w4" by (rule accounts_for_quiet) simp_all
        ultimately have "accounts_for sn i (\<Union>s \<in> set slots. decoded_keys env p i (blk s)) w w'"
          using accounts_for_trans [OF a3 accounts_for_trans] IH [of ?w4] run(1) by fastforce
        then show ?thesis using run(2) True by simp
      next
        case nonempty: False
        let ?batch = "block_batch sn stream b (dr_decoded run)"
        from Cons.prems(3) False gb r Some nonempty obtain w4 where
          w4: "chan_send env ?batch ?w3 = (Inr (), w4)"
            "chunk_slots env p sn i stream slots
               (w4\<lparr> pw_progress := note_block s (length (dr_decoded run)) (pw_progress w4) \<rparr>) = (Inr u, w')"
          by (auto simp: run_def [symmetric] Let_def split: prod.splits sum.splits)
        let ?w5 = "w4\<lparr> pw_progress := note_block s (length (dr_decoded run)) (pw_progress w4) \<rparr>"
        have "accounts_for sn i {} w4 ?w5" by (rule accounts_for_quiet) simp_all
        from accounts_for_trans [OF accounts_for_trans [OF a3 accounts_for_send [OF w4(1)]] this]
        have a5: "accounts_for sn i (decoded_keys env p i (blk s)) w ?w5" by (simp add: run(2))
        have "cache_ok (pw_decoder ?w5) i" using decoder_send [OF w4(1)] run(1) by simp
        from accounts_for_trans [OF a5 IH [OF this w4(2)]] show ?thesis by simp
      qed
    qed
  qed
qed

section \<open>The writer task ends\<close>

interpretation dropped: pipe_stable env "\<lambda>w. ch_sender_dropped (pw_chan w)" for env
proof
  fix w :: pipe and e
  assume d: "ch_sender_dropped (pw_chan w)"
  have wb: "ch_sender_dropped (pw_chan (snd (write_batch_now env b v))) = ch_sender_dropped (pw_chan v)" for b v
    using write_batch_now_effect(1) [of env b v] by (metis prod.collapse)
  have ss: "pw_chan (snd (set_state env pid status slot v)) = pw_chan v" for pid status slot v
    using set_state_effect(1) [of env pid status slot v] by (metis prod.collapse)
  have wb': "write_batch_now env b v = (r, v') \<Longrightarrow> ch_sender_dropped (pw_chan v') = ch_sender_dropped (pw_chan v)" for b v r v'
    using wb [of b v] by simp
  show "ch_sender_dropped (pw_chan (run_event env e w))"
    using d by (cases e) (auto simp: wb ss writer_task_def writer_recv_def writer_drain_def writer_finish_effect
        writer_cancelled_def set_chan_def add_totals_def Let_def dest!: wb'
        split: task_state.splits list.splits prod.splits sum.splits)
qed simp

lemma writer_task_consumes:
  assumes "ch_sender_dropped (pw_chan w)" and "ch_queue (pw_chan w) = b # q"
    and "ch_task (pw_chan w) = TDone r \<Longrightarrow> False"
  shows "(\<exists>r. ch_task (pw_chan (writer_task env w)) = TDone r) \<or>
    ch_queue (pw_chan (writer_task env w)) = q \<and> ch_sender_dropped (pw_chan (writer_task env w))"
proof -
  let ?w = "set_chan ((pw_chan w)\<lparr> ch_queue := q \<rparr>) w"
  obtain x w' where x: "write_batch_now env b ?w = (x, w')" by fastforce
  then have "pw_chan w' = (pw_chan w)\<lparr> ch_queue := q \<rparr>"
    using write_batch_now_effect(1) [OF x] by (simp add: set_chan_def)
  then show ?thesis using assms x
    by (cases "ch_task (pw_chan w)"; cases x)
      (auto simp: writer_task_def writer_recv_def writer_drain_def set_chan_def add_totals_def Let_def)
qed

lemma writer_task_done: "ch_task (pw_chan w) = TDone r \<Longrightarrow> (writer_task env ^^ n) w = w"
  by (induction n) (simp_all add: writer_task_def)

lemma writer_task_ends:
  "ch_sender_dropped (pw_chan w) \<Longrightarrow> \<exists>r. ch_task (pw_chan ((writer_task env ^^ Suc (length (ch_queue (pw_chan w)))) w)) = TDone r"
proof (induction "ch_queue (pw_chan w)" arbitrary: w)
  case Nil
  then show ?case
    by (cases "ch_task (pw_chan w)")
      (simp_all add: writer_task_def writer_recv_def writer_drain_def writer_finish_effect flip: Nil(1))
next
  case (Cons b q)
  let ?v = "writer_task env w"
  show ?case
  proof (cases "\<exists>r. ch_task (pw_chan ?v) = TDone r")
    case True
    then show ?thesis using writer_task_done [of ?v] by (metis funpow_simps_right(2) comp_apply)
  next
    case False
    then have "\<forall>r. ch_task (pw_chan w) \<noteq> TDone r" by (auto simp: writer_task_def)
    with writer_task_consumes [OF Cons.prems Cons.hyps(2) [symmetric], where env = env] False
    have v: "ch_queue (pw_chan ?v) = q" "ch_sender_dropped (pw_chan ?v)" by auto
    from Cons.hyps(1) [OF v(1) [symmetric] v(2)] v(1) show ?thesis
      by (simp add: Cons.hyps(2) [symmetric] funpow_swap1)
  qed
qed

lemma join_writer_covered:
  assumes "covered sn K w" and "join_writer env w = (r, w')"
  shows "covered sn K w'" and "ch_task (pw_chan w') = TDone r"
proof -
  let ?v = "await env (set_chan ((pw_chan w)\<lparr> ch_sender_dropped := True \<rparr>) w)"
  have w': "w' = (writer_task env ^^ Suc (length (ch_queue (pw_chan ?v)))) ?v"
    and r: "r = (case ch_task (pw_chan w') of TDone r \<Rightarrow> r | _ \<Rightarrow> Inr ())"
    using assms(2) by (auto simp: join_writer_def Let_def)
  have "covered sn K (set_chan ((pw_chan w)\<lparr> ch_sender_dropped := True \<rparr>) w)"
    using assms(1) by (auto simp: covered_def chan_ok_def writer_failed_def set_chan_def)
  then show "covered sn K w'" unfolding w' by (intro cov.task_pow_stable cov.await_stable)
  have "ch_sender_dropped (pw_chan ?v)" by (rule dropped.await_stable) (simp add: set_chan_def)
  then show "ch_task (pw_chan w') = TDone r" using writer_task_ends [of ?v env] r w' by auto
qed

text \<open>The writer task always ends and the join always returns: when the sender is dropped, whatever
  the other tasks do meanwhile and whatever the database refuses, the task returns after at most
  one step per batch left in the channel and one more.\<close>

theorem writer_task_terminates:
  "\<exists>r. ch_task (pw_chan (snd (join_writer env w))) = TDone r \<and> fst (join_writer env w) = r"
proof -
  let ?v = "await env (set_chan ((pw_chan w)\<lparr> ch_sender_dropped := True \<rparr>) w)"
  have "ch_sender_dropped (pw_chan ?v)" by (rule dropped.await_stable) (simp add: set_chan_def)
  from writer_task_ends [OF this, of env] show ?thesis by (auto simp: join_writer_def Let_def)
qed

section \<open>A backfill that returns has written everything\<close>

text \<open>The node lists the produced slots and serves a stable block for each, whenever it is asked.\<close>

definition honest_node :: "pipe_env \<Rightarrow> (nat \<Rightarrow> bool) \<Rightarrow> (nat \<Rightarrow> rpc_block option) \<Rightarrow> bool" where
  "honest_node env produced blk \<longleftrightarrow> (\<forall>t. serves_slots (pe_rpc env t) produced \<and>
     (\<forall>s st. produced s \<longrightarrow> s < 2 ^ 64 \<longrightarrow>
        fst (get_block (pe_rpc env t) (cfg_index_failed_txs (pe_config env)) (of_nat s) st) = Inr (blk s)))"

definition slot_keys ::
  "pipe_env \<Rightarrow> string \<Rightarrow> idl \<Rightarrow> (nat \<Rightarrow> bool) \<Rightarrow> (nat \<Rightarrow> rpc_block option) \<Rightarrow> nat list \<Rightarrow> (string \<times> int \<times> int) set" where
  "slot_keys env p i produced blk slots = (\<Union>s \<in> {s \<in> set slots. produced s}. decoded_keys env p i (blk s))"

lemma slots_of_bound: "s \<in> set (slots_of c) \<Longrightarrow> s < 2 ^ 64"
  using unat_u64_le [of "snd c"] by (auto simp: slots_of_def simp del: unat_u64_le unat_u64_less)

lemma unat_of_nat_slot: "s < 2 ^ 64 \<Longrightarrow> unat (of_nat s :: u64) = s"
  by (simp add: unat_of_nat)

lemma process_chunk_accounts:
  assumes "honest_node env produced blk" and "cache_ok (pw_decoder w) i"
    and "process_chunk env p sn i a b stream w = (Inr u, w')"
  shows "accounts_for sn i (slot_keys env p i produced blk (slots_of (a, b))) w w'"
proof -
  let ?w1 = "await env w"
  obtain r st where g: "get_blocks (pe_rpc env (pw_tick w)) a b (pw_stats ?w1) = (r, st)" by fastforce
  let ?slots = "map of_nat (filter produced (slots_of (a, b))) :: u64 list"
  from assms(1) have "serves_slots (pe_rpc env (pw_tick w)) produced" by (simp add: honest_node_def)
  from get_blocks_served [OF this, of a b "pw_stats ?w1"] g have r: "r = Inr ?slots" by simp
  have cs: "chunk_slots env p sn i stream ?slots (?w1\<lparr> pw_stats := st \<rparr>) = (Inr u, w')"
    using assms(3) g r by (simp add: process_chunk_def)
  have "accounts_for sn i (\<Union>s \<in> set ?slots. decoded_keys env p i ((blk \<circ> unat) s)) (?w1\<lparr> pw_stats := st \<rparr>) w'"
  proof (rule chunk_slots_accounts [OF _ _ cs])
    fix s :: u64 and st t
    assume "s \<in> set ?slots"
    then show "fst (get_block (pe_rpc env t) (cfg_index_failed_txs (pe_config env)) s st) = Inr ((blk \<circ> unat) s)"
      using assms(1) slots_of_bound [of _ "(a, b)"] by (auto simp: honest_node_def unat_of_nat_slot)
  qed (simp add: assms(2))
  moreover have "(\<Union>s \<in> set ?slots. decoded_keys env p i ((blk \<circ> unat) s)) = slot_keys env p i produced blk (slots_of (a, b))"
    using slots_of_bound [of _ "(a, b)"] by (auto simp: slot_keys_def unat_of_nat_slot)
  moreover have "accounts_for sn i {} w (?w1\<lparr> pw_stats := st \<rparr>)"
    using accounts_for_trans [OF accounts_for_await accounts_for_quiet, of "?w1\<lparr> pw_stats := st \<rparr>" env w i sn] by simp
  ultimately show ?thesis using accounts_for_trans by fastforce
qed

lemma accounts_for_set_state: "accounts_for sn i {} w (snd (set_state env pid status slot w))"
  using set_state_effect(4) [of env pid status slot w "fst (set_state env pid status slot w)"]
  by (auto simp: accounts_for_def cov.set_state_stable)

lemma slot_keys_append: "slot_keys env p i produced blk (xs @ ys) = slot_keys env p i produced blk xs \<union> slot_keys env p i produced blk ys"
  by (auto simp: slot_keys_def)

lemma run_chunks_accounts:
  assumes "honest_node env produced blk" and "cache_ok (pw_decoder w) i"
    and "run_chunks env p sn i stream hb chunks w = (Inr u, w')"
  shows "accounts_for sn i (slot_keys env p i produced blk (concat (map slots_of chunks))) w w'"
  using assms(2,3)
proof (induction chunks arbitrary: w)
  case Nil
  then show ?case by (simp add: accounts_for_quiet slot_keys_def)
next
  case (Cons ch chunks)
  obtain a b where ch: "ch = (a, b)" by (cases ch)
  show ?case
  proof (cases "pw_cancelled w")
    case True
    then show ?thesis using Cons.prems ch by (simp add: accounts_for_cancelled)
  next
    case False
    with Cons.prems(2) ch obtain w1 where w1: "process_chunk env p sn i a b stream w = (Inr (), w1)"
      and rest: "run_chunks env p sn i stream hb chunks
        (if hb then snd (set_state env p ''backfilling'' (Some b) (await env w1)) else w1) = (Inr u, w')"
      by (auto split: prod.splits sum.splits)
    let ?w2 = "if hb then snd (set_state env p ''backfilling'' (Some b) (await env w1)) else w1"
    note a1 = process_chunk_accounts [OF assms(1) Cons.prems(1) w1]
    have a2: "accounts_for sn i {} w1 ?w2"
      using accounts_for_trans [OF accounts_for_await accounts_for_set_state, of sn i w1 env] by (simp add: accounts_for_quiet)
    from accounts_for_trans [OF a1 a2] have a12: "accounts_for sn i (slot_keys env p i produced blk (slots_of (a, b))) w ?w2" by simp
    then have "cache_ok (pw_decoder ?w2) i" using Cons.prems(1) by (simp add: accounts_for_def)
    from accounts_for_trans [OF a12 Cons.IH [OF this rest]] show ?thesis by (simp add: ch slot_keys_append)
  qed
qed

lemma backfill_through_accounts:
  assumes "honest_node env produced blk" and "cache_ok (pw_decoder w) i" and "0 < cfg_backfill_chunk_size (pe_config env)"
    and "backfill_chunks_through env p sn i stream hb a b w = (Inr u, w')" and "\<not> pw_cancelled w'"
  shows "slot_keys env p i produced blk (slots_of (a, b)) \<subseteq> db_keys sn (pw_db w')"
proof -
  let ?w1 = "w\<lparr> pw_chan := channel_new p, pw_progress := progress_new a b \<rparr>"
  from assms(4) obtain w2 where
    rc: "run_chunks env p sn i stream hb (compute_backfill_chunks a b (cfg_backfill_chunk_size (pe_config env))) ?w1 = (Inr (), w2)"
    and jw: "join_writer env w2 = (Inr (), w')"
    by (auto simp: backfill_chunks_through_def Let_def split: prod.splits sum.splits)
  have "covered sn {} ?w1" by (simp add: covered_def chan_ok_def channel_new_def)
  with run_chunks_accounts [OF assms(1) _ rc] assms(2)
  have "covered sn (slot_keys env p i produced blk (slots_of (a, b))) w2"
    by (fastforce simp: accounts_for_def backfill_chunks.chunks_cover [OF assms(3)])
  from join_writer_covered [OF this jw] assms(5) show ?thesis
    by (auto simp: covered_def chan_ok_def writer_failed_def)
qed

definition resume_from :: "checkpoint_info option \<Rightarrow> u64 \<Rightarrow> u64" where
  "resume_from cp start = (case cp of Some c \<Rightarrow> max (saturating_add (ci_last_slot c) 1) start | None \<Rightarrow> start)"

lemma run_backfill_covers:
  assumes "honest_node env produced blk" and "0 < cfg_backfill_chunk_size (pe_config env)"
    and "cache_ok (pw_decoder w) i"
    and "run_backfill env p sn i a b w = (Inr u, w')" and "\<not> pw_cancelled w'"
  shows "\<exists>cp. read_checkpoint (pe_read_fault env (pw_tick w)) (pw_db (await env w)) sn ''backfill'' = Inr cp \<and>
    slot_keys env p i produced blk (slots_of (resume_from cp a, b)) \<subseteq> db_keys sn (pw_db w')"
proof -
  let ?w0 = "await env w"
  from assms(4) obtain cp where cp: "read_checkpoint (pe_read_fault env (pw_tick w)) (pw_db ?w0) sn ''backfill'' = Inr cp"
    by (auto simp: run_backfill_def Let_def split: sum.splits)
  let ?s = "resume_from cp a"
  show ?thesis
  proof (cases "b < ?s")
    case True
    then have "slots_of (?s, b) = []" by (simp add: slots_of_def word_less_nat_alt)
    then show ?thesis using cp by (simp add: slot_keys_def)
  next
    case False
    obtain r1 w1 where s1: "set_state env p ''backfilling'' (Some ?s) (await env ?w0) = (r1, w1)" by fastforce
    obtain r2 w2 where t: "backfill_chunks_through env p sn i ''backfill'' True ?s b w1 = (r2, w2)" by fastforce
    from assms(4,5) cp False s1 t have r2: "r2 = Inr ()" and
      fin: "pw_cancelled w2 \<and> w' = w2 \<or> \<not> pw_cancelled w2 \<and> (\<exists>r3. set_state env p ''idle'' (Some b) (await env w2) = (r3, w'))"
      unfolding run_backfill_def resume_from_def [symmetric]
      by (auto simp: Let_def split: sum.splits prod.splits if_splits)
    have dec: "cache_ok (pw_decoder w1) i" using set_state_effect(4) [OF s1] assms(3) by simp
    have mono: "db_keys sn (pw_db w2) \<subseteq> db_keys sn (pw_db w')"
      using fin kept.set_state_stable [OF kept.await_stable [OF subset_refl], where env1 = env] by (metis snd_conv subset_refl)
    have "\<not> pw_cancelled w2" using fin assms(5) by blast
    from backfill_through_accounts [OF assms(1) dec assms(2) t [unfolded r2] this] mono
    show ?thesis using cp by blast
  qed
qed

text \<open>C1. A backfill that returns without error and was not cancelled has written everything: under every
  schedule of the writer and of the other tasks, every instruction that decodes from a block the
  node serves for a slot from the resume point (the start, or after the checkpoint) to the end is
  in the instruction table under its key.\<close>

theorem run_backfill_complete:
  assumes "honest_node env produced blk" and "0 < cfg_backfill_chunk_size (pe_config env)"
    and "cache_ok (pw_decoder w) i"
    and "run_backfill env p sn i a b w = (Inr u, w')" and "\<not> pw_cancelled w'"
  shows "\<exists>cp. read_checkpoint (pe_read_fault env (pw_tick w)) (pw_db (await env w)) sn ''backfill'' = Inr cp \<and>
    (\<Union>s \<in> {s. produced s \<and> unat (resume_from cp a) \<le> s \<and> s \<le> unat b}. decoded_keys env p i (blk s)) \<subseteq> db_keys sn (pw_db w')"
proof -
  have "(\<Union>s \<in> {s. produced s \<and> unat c \<le> s \<and> s \<le> unat b}. decoded_keys env p i (blk s)) =
      slot_keys env p i produced blk (slots_of (c, b))" for c
    by (auto simp: slot_keys_def slots_of_def)
  then show ?thesis using run_backfill_covers [OF assms] by simp
qed

section \<open>A concrete backfill\<close>

definition demo_raw_block :: raw_block where
  "demo_raw_block = \<lparr> raw_block_time = Some 100, raw_transactions = Some [
     \<lparr> raw_transaction = \<lparr> raw_msg = \<lparr> raw_account_keys = [''A'', ''P''],
          raw_instructions = [\<lparr> raw_program_id_index = 1, raw_data = [CHR 0x07], raw_accounts = [0] \<rparr>] \<rparr>,
          raw_signatures = [''S''] \<rparr>, raw_meta = None \<rparr>] \<rparr>"

definition demo_node :: rpc_env where
  "demo_node = demo_rpc\<lparr> re_block := \<lambda>_. Inr demo_raw_block \<rparr>"

lemma demo_node_request: "rpc_request demo_node m params st = (Inr params, incr_rpc_retry st)"
proof -
  have "json_get ''params'' (rpc_body m params) = Some params"
    by (simp add: rpc_body_def json_obj_def btree_collect_def json_get_def)
  then show ?thesis
    by (simp add: rpc_request_def demo_node_def demo_rpc_def send_rpc_request_def is_retryable_def is_success_status_def)
qed

definition demo_block :: "u64 \<Rightarrow> rpc_block" where
  "demo_block s = \<lparr> rb_slot = s, rb_block_time = Some 100, rb_transactions = [
     \<lparr> rt_signature = ''S'', rt_slot = s, rt_success = True, rt_account_keys = [''A'', ''P''],
       rt_instructions = [\<lparr> ri_program_id_index = 1, ri_data = [7], ri_accounts = [0] \<rparr>],
       rt_inner_instructions = [] \<rparr>] \<rparr>"

lemma demo_get_block: "get_block demo_node flag s st = (Inr (Some (demo_block s)), incr_rpc_retry st)"
  by (simp add: get_block_def demo_node_request)
    (simp add: parse_block_def demo_node_def demo_rpc_def demo_raw_block_def parse_block_tx_def tx_success_def tx_inner_def
      tx_account_keys_def parse_raw_instruction_def demo_block_def as_bytes_def byte_of_char_def)

lemma demo_serves: "serves_slots demo_node (\<lambda>s. s = 3 \<or> s = 5)"
  unfolding serves_slots_def by (simp add: demo_node_request) (simp add: demo_node_def demo_rpc_def get_blocks_params_def slots_of_def)

definition demo_pipe_env :: pipe_env where
  "demo_pipe_env = \<lparr> pe_config = test_default, pe_b58 = (\<lambda>_. []), pe_sha256 = id, pe_pg_eval = (\<lambda>_ _. Inr None),
     pe_hash_order = id, pe_rpc = (\<lambda>_. demo_node), pe_faults = (\<lambda>_ _. None), pe_read_fault = (\<lambda>_. None),
     pe_state_fault = (\<lambda>_. None), pe_events = (\<lambda>_. []) \<rparr>"

definition demo_db :: database where
  "demo_db = \<lparr> db_programs = Map.empty,
     db_indexer_state = [''P'' \<mapsto> \<lparr> st_status = ''initializing'', st_last_processed_slot = Some 2, st_error_message = None,
        st_total_instructions = 0, st_total_accounts = 0 \<rparr>],
     db_schemas = [''s'' \<mapsto> \<lparr> ps_accounts = Map.empty, ps_instructions = [], ps_next_id = 1, ps_metadata = Map.empty,
        ps_checkpoints = Map.empty \<rparr>] \<rparr>"

definition demo_pipe :: pipe where
  "demo_pipe = \<lparr> pw_tick = 0, pw_db = demo_db, pw_writer = storage_writer_new,
     pw_decoder = chainparser_new, pw_stats = runtime_stats_new, pw_cancelled = False, pw_chan = channel_new ''P'',
     pw_progress = progress_new 0 0 \<rparr>"

lemma demo_honest: "honest_node demo_pipe_env (\<lambda>s. s = 3 \<or> s = 5) (\<lambda>s. Some (demo_block (of_nat s)))"
  by (simp add: honest_node_def demo_pipe_env_def demo_serves demo_get_block)

lemma demo_await: "await demo_pipe_env w = next_tick w"
  by (simp add: await_def demo_pipe_env_def)

lemma demo_chunks: "compute_backfill_chunks 5 5 50000 = [(5, 5)]"
  by (simp add: compute_backfill_chunks_def) (subst chunks_from.simps, simp add: saturating_add_def)

lemma demo_blocks: "get_blocks demo_node 5 5 st = (Inr [5], incr_rpc_retry st)"
proof -
  have "compute_block_chunks 5 5 = [(5, 5)]"
    by (simp add: compute_block_chunks_def MAX_GET_BLOCKS_RANGE_def) (subst chunks_from.simps, simp add: saturating_add_def)
  then show ?thesis
    by (simp add: get_blocks_def demo_node_request) (simp add: demo_node_def demo_rpc_def)
qed

lemma demo_decode: "dr_decoded (decode_block (\<lambda>_. []) id flag ''P'' (demo_block s) demo_idl_empty chainparser_new st) = 
  [\<lparr> di_signature = ''S'', di_slot = s, di_block_time = Some 100, di_instruction_name = ''tick'', di_args = JObj [], di_program_id = ''P'',
     di_accounts = [''A''], di_instruction_index = 0, di_inner_index = None \<rparr>]"
  unfolding decode_block_decoded(1) [OF cache_ok_new]
  by (simp add: block_decoded_def demo_block_def tx_decoded_def tx_places_def targeted_def nth_opt_def
     decoded_at_def List.map_filter_def decodes_to_def decode_instruction_def find_instruction_with_fallback_def find_instruction_def disc_matches_def
     demo_idl_empty_def get_or_build_registry_def chainparser_new_def disc_len_def Let_def enrich_instruction_def instruction_from_decoded_def)

lemmas demo_env_simps = demo_await demo_blocks demo_get_block demo_decode demo_chunks

lemma demo_fields [simp]: "pe_rpc demo_pipe_env t = demo_node" "pe_config demo_pipe_env = test_default" "pe_read_fault demo_pipe_env t = None"
  "pe_state_fault demo_pipe_env t = None" "pe_faults demo_pipe_env t = (\<lambda>_. None)" "pe_b58 demo_pipe_env = (\<lambda>_. [])" "pe_sha256 demo_pipe_env = id"
  "cfg_backfill_chunk_size test_default = 50000" "cfg_channel_capacity test_default = 256" "cfg_index_failed_txs test_default = False"
  "0 < cfg_backfill_chunk_size test_default"
  by (simp_all add: demo_pipe_env_def test_default_def)

lemma demo_batch: "block_batch sn st (demo_block s) ixs = \<lparr> wb_schema_name = sn, wb_stream = st, wb_instructions = ixs,
    wb_accounts = [], wb_slot = s, wb_signature = Some ''S'' \<rparr>"
  by (simp add: block_batch_def demo_block_def)

lemma demo_run: "\<exists>w'. run_backfill demo_pipe_env ''P'' ''s'' demo_idl_empty 5 5 demo_pipe = (Inr (), w') \<and> \<not> pw_cancelled w'"
  by (simp add: run_backfill_def demo_env_simps read_checkpoint_def demo_pipe_def demo_db_def set_state_def update_indexer_state_def
     backfill_chunks_through_def process_chunk_def Let_def chan_send_def send_permit_def channel_new_def set_chan_def
     join_writer_def writer_task_def writer_recv_def write_batch_now_def write_block_def write_instructions_def write_accounts_inner_def
     update_checkpoint_def demo_batch char_count_def insert_ixs_def add_totals_def writer_finish_def increment_indexer_counters_def unnest_decompose insert_ix_def ix_row_def ix_key_def)

theorem run_backfill_complete_witness:
  "\<exists>w'. run_backfill demo_pipe_env ''P'' ''s'' demo_idl_empty 5 5 demo_pipe = (Inr (), w') \<and>
     decoded_keys demo_pipe_env ''P'' demo_idl_empty (Some (demo_block 5)) \<subseteq> db_keys ''s'' (pw_db w')"
proof -
  obtain w' where w': "run_backfill demo_pipe_env ''P'' ''s'' demo_idl_empty 5 5 demo_pipe = (Inr (), w')" "\<not> pw_cancelled w'"
    using demo_run by blast
  have "read_checkpoint None (pw_db demo_pipe) ''s'' ''backfill'' = Inr None"
    by (simp add: read_checkpoint_def demo_pipe_def demo_db_def)
  with run_backfill_complete [OF demo_honest _ _ w'] show ?thesis
    using w'(1) by (auto simp: demo_pipe_def demo_await resume_from_def)
qed

end
