(* ===== verification/Backfill_Invariants.thy ===== *)
theory Backfill_Invariants
  imports Backfill_Correct
begin

text \<open>
  Invariants of the whole backfill: a property kept by events, sends, the join and a fresh channel
  is kept by every chunk loop and by both backfills. The instances are the monotone cursor of the
  indexer state and the bound of the channel.
\<close>

section \<open>From the steps to the backfills\<close>

locale pipe_invariant = pipe_stable +
  assumes send_kept: "P w \<Longrightarrow> P (snd (chan_send env b w))"
    and join_kept: "P w \<Longrightarrow> P (snd (join_writer env w))"
    and fresh_kept: "P w \<Longrightarrow> P (w\<lparr> pw_chan := channel_new p \<rparr>)"
begin

lemma chunk_slots_kept: "P w \<Longrightarrow> P (snd (chunk_slots env p sn i stream slots w))"
proof (induction slots arbitrary: w)
  case (Cons s slots)
  let ?w1 = "await env w"
  obtain r st where gb: "get_block (pe_rpc env (pw_tick w)) (cfg_index_failed_txs (pe_config env)) s (pw_stats ?w1) = (r, st)"
    by fastforce
  have w1: "P ?w1" using Cons.prems by (rule await_stable)
  then have w2: "P (?w1\<lparr> pw_stats := st \<rparr>)" by (rule shared) simp_all
  have skip: "P (snd (chunk_slots env p sn i stream slots (?w1\<lparr> pw_stats := st \<rparr>)))" using w2 by (rule Cons.IH)
  show ?case
  proof (cases "\<exists>b. r = Inr (Some b)")
    case True
    then obtain b where b: "r = Inr (Some b)" by blast
    define run where "run = decode_block (pe_b58 env) (pe_sha256 env) (cfg_index_failed_txs (pe_config env)) p b i (pw_decoder w) st"
    let ?w3 = "?w1\<lparr> pw_decoder := dr_decoder run, pw_stats := dr_stats run \<rparr>"
    obtain r4 w4 where w4: "chan_send env (block_batch sn stream b (dr_decoded run)) ?w3 = (r4, w4)" by fastforce
    have w3: "P ?w3" using w1 by (rule shared) simp_all
    then have "P w4" using send_kept [of ?w3 "block_batch sn stream b (dr_decoded run)"] w4 by simp
    then have w5: "P (w4\<lparr> pw_progress := note_block s n (pw_progress w4) \<rparr>)" for n by (rule shared) simp_all
    have w6: "P (?w3\<lparr> pw_progress := note_block s 0 (pw_progress ?w3) \<rparr>)" using w3 by (rule shared) simp_all
    show ?thesis using Cons.prems gb b \<open>P w4\<close> Cons.IH [OF w5] Cons.IH [OF w6] w4
      by (auto simp: run_def [symmetric] Let_def split: sum.splits)
  next
    case False
    then show ?thesis using Cons.prems gb skip by (auto simp: Let_def split: sum.splits option.splits)
  qed
qed simp

lemma process_chunk_kept: "P w \<Longrightarrow> P (snd (process_chunk env p sn i a b stream w))"
proof -
  assume "P w"
  obtain r st where g: "get_blocks (pe_rpc env (pw_tick w)) a b (pw_stats (await env w)) = (r, st)" by fastforce
  have "P ((await env w)\<lparr> pw_stats := st \<rparr>)"
    using await_stable [OF \<open>P w\<close>] by (rule shared) simp_all
  then show ?thesis using g by (auto simp: process_chunk_def Let_def intro: chunk_slots_kept split: sum.splits)
qed

lemma run_chunks_kept: "P w \<Longrightarrow> P (snd (run_chunks env p sn i stream hb chunks w))"
proof (induction chunks arbitrary: w)
  case (Cons ch chunks)
  obtain a b where ch: "ch = (a, b)" by (cases ch)
  obtain r w1 where w1: "process_chunk env p sn i a b stream w = (r, w1)" by fastforce
  then have "P w1" using process_chunk_kept [OF Cons.prems, of p sn i a b stream] by simp
  then have "P (if hb then snd (set_state env p ''backfilling'' (Some b) (await env w1)) else w1)"
    by (simp add: set_state_stable await_stable)
  from Cons.IH [OF this] show ?case using Cons.prems \<open>P w1\<close> ch w1 by (auto split: sum.splits)
qed simp

lemma through_kept: "P w \<Longrightarrow> P (snd (backfill_chunks_through env p sn i stream hb a b w))"
proof -
  assume "P w"
  let ?w1 = "w\<lparr> pw_chan := channel_new p, pw_progress := progress_new a b \<rparr>"
  have "P ?w1" using fresh_kept [OF \<open>P w\<close>] by (rule shared) simp_all
  then have "P (snd (join_writer env (snd (run_chunks env p sn i stream hb cs ?w1))))" for cs
    by (intro join_kept run_chunks_kept)
  then show ?thesis by (simp add: backfill_chunks_through_def case_prod_beta Let_def)
qed

lemma run_backfill_kept: "P w \<Longrightarrow> P (snd (run_backfill env p sn i a b w))"
proof -
  assume "P w"
  note w0 = await_stable [OF \<open>P w\<close>]
  note s1 = set_state_stable [OF await_stable [OF w0]]
  note s2 = through_kept [OF s1]
  note s3 = set_state_stable [OF await_stable [OF s2]]
  show ?thesis
    using w0 s1 s2 s3 by (auto simp: run_backfill_def case_prod_beta Let_def split: sum.splits)
qed

lemma mini_backfill_kept: "P w \<Longrightarrow> P (snd (mini_backfill env p sn i d w))"
proof -
  assume "P w"
  obtain r st where g: "get_slot (pe_rpc env (pw_tick w)) (pw_stats (await env w)) = (r, st)" by fastforce
  have "P ((await env w)\<lparr> pw_stats := st \<rparr>)"
    using await_stable [OF \<open>P w\<close>] by (rule shared) simp_all
  then show ?thesis using g by (auto simp: mini_backfill_def Let_def intro: through_kept split: sum.splits)
qed

end

section \<open>Properties of the database alone\<close>

text \<open>For a property of the database the channel operations come for free.\<close>

locale db_invariant = pipe_stable +
  assumes db_only: "P w \<Longrightarrow> pw_db w' = pw_db w \<Longrightarrow> P w'"
begin

lemma db_send: "P w \<Longrightarrow> P (snd (chan_send env b w))"
proof -
  assume "P w"
  then have "P (send_permit env w)" by (rule permit_stable)
  moreover from this have "P (set_chan c (send_permit env w))" for c by (rule db_only) (simp add: set_chan_def)
  ultimately show ?thesis by (simp add: chan_send_def Let_def split: task_state.splits)
qed

lemma db_join: "P w \<Longrightarrow> P (snd (join_writer env w))"
proof -
  assume "P w"
  then have "P (set_chan ((pw_chan w)\<lparr> ch_sender_dropped := True \<rparr>) w)" by (rule db_only) (simp add: set_chan_def)
  from task_pow_stable [OF await_stable [OF this]] show ?thesis by (simp add: join_writer_def Let_def del: funpow.simps)
qed

end

sublocale db_invariant \<subseteq> pipe_invariant
  by unfold_locales (auto intro: db_send db_join db_only)

interpretation rows: db_invariant env "\<lambda>w. K \<subseteq> db_keys sn (pw_db w)" for env sn K
  by unfold_locales simp

section \<open>The cursor never goes back\<close>

definition cursor_at_least :: "string \<Rightarrow> int \<Rightarrow> database \<Rightarrow> bool" where
  "cursor_at_least p c db =
     (case db_indexer_state db p of
        None \<Rightarrow> False
      | Some row \<Rightarrow> (case st_last_processed_slot row of None \<Rightarrow> False | Some x \<Rightarrow> c \<le> x))"

lemma update_indexer_state_cursor:
  "update_indexer_state fault db q status slot = Inr db' \<Longrightarrow> cursor_at_least p c db \<Longrightarrow> cursor_at_least p c db'"
  by (auto simp: update_indexer_state_def cursor_at_least_def split: option.splits if_splits)

lemma increment_indexer_counters_cursor:
  "increment_indexer_counters fault db q n m = Inr db' \<Longrightarrow> cursor_at_least p c db \<Longrightarrow> cursor_at_least p c db'"
  by (auto simp: increment_indexer_counters_def cursor_at_least_def resR Let_def split: option.splits if_splits)

lemma event_keeps_cursor: "cursor_at_least p c (pw_db w) \<Longrightarrow> cursor_at_least p c (pw_db (run_event env e w))"
proof -
  assume c: "cursor_at_least p c (pw_db w)"
  have wb: "write_batch_now env b v = (r, v') \<Longrightarrow> cursor_at_least p c (pw_db v') = cursor_at_least p c (pw_db v)" for b v r v'
    using write_batch_now_effect(4) [of env b v r v'] by (simp add: cursor_at_least_def)
  have fin: "cursor_at_least p c (pw_db v) \<Longrightarrow> cursor_at_least p c (pw_db (writer_finish env v))" for v
    by (auto simp: writer_finish_def Let_def split: sum.splits dest: increment_indexer_counters_cursor)
  have "cursor_at_least p c (pw_db v) \<Longrightarrow> cursor_at_least p c (pw_db (snd (set_state env pid status slot v)))" for pid status slot v
    by (auto simp: set_state_def split: sum.splits dest: update_indexer_state_cursor)
  moreover have "cursor_at_least p c (pw_db (writer_recv env w))" if "cursor_at_least p c (pw_db w)"
    using that by (cases "ch_queue (pw_chan w)") (auto simp: writer_recv_def set_chan_def fin Let_def dest!: wb split: prod.splits sum.splits)
  moreover have "cursor_at_least p c (pw_db (writer_drain env w))" if "cursor_at_least p c (pw_db w)"
    using that by (cases "ch_queue (pw_chan w)") (auto simp: writer_drain_def set_chan_def fin Let_def dest!: wb split: prod.splits sum.splits)
  moreover have "cursor_at_least p c (pw_db (snd (write_batch_now env b w)))" for b
    using c wb [of b w] by (metis prod.collapse)
  ultimately show ?thesis using c
    by (cases e) (auto simp: writer_task_def writer_cancelled_def set_chan_def split: task_state.splits)
qed

interpretation cursor: db_invariant env "\<lambda>w. cursor_at_least p c (pw_db w)" for env p c
  by unfold_locales (simp_all add: event_keeps_cursor)

text \<open>C21. The cursor of the indexer state never goes back: over a whole backfill or mini-backfill, with any
  interleaving of heartbeats, writes and final states of all tasks, and whether it succeeds or
  fails, the last processed slot of every program is at least what it was before.\<close>

theorem indexer_cursor_monotone:
  assumes "cursor_at_least q c (pw_db w)"
  shows "cursor_at_least q c (pw_db (snd (run_backfill env p sn i a b w))) \<and>
    cursor_at_least q c (pw_db (snd (mini_backfill env p sn i d w)))"
  using cursor.run_backfill_kept [OF assms] cursor.mini_backfill_kept [OF assms] by blast

section \<open>The channel is bounded\<close>

definition bounded :: "pipe_env \<Rightarrow> pipe \<Rightarrow> bool" where
  "bounded env w \<longleftrightarrow> 0 < cfg_channel_capacity (pe_config env) \<longrightarrow> length (ch_queue (pw_chan w)) \<le> cfg_channel_capacity (pe_config env)"

lemma writer_task_queue:
  "ch_queue (pw_chan (writer_task env w)) =
     (case ch_task (pw_chan w) of TDone _ \<Rightarrow> ch_queue (pw_chan w)
      | _ \<Rightarrow> if ch_queue (pw_chan (writer_task env w)) = [] then [] else tl (ch_queue (pw_chan w)))"
proof (cases "ch_queue (pw_chan w)")
  case Nil
  then show ?thesis
    by (simp add: writer_task_def writer_recv_def writer_drain_def writer_finish_effect Let_def split: task_state.splits)
next
  case (Cons b q)
  obtain x w' where x: "write_batch_now env b (set_chan ((pw_chan w)\<lparr> ch_queue := q \<rparr>) w) = (x, w')" by fastforce
  then have "pw_chan w' = (pw_chan w)\<lparr> ch_queue := q \<rparr>"
    using write_batch_now_effect(1) [OF x] by (simp add: set_chan_def)
  then show ?thesis using Cons x
    by (cases "ch_task (pw_chan w)"; cases x)
      (auto simp: writer_task_def writer_recv_def writer_drain_def set_chan_def add_totals_def Let_def)
qed

lemma writer_task_shrinks: "length (ch_queue (pw_chan (writer_task env w))) \<le> length (ch_queue (pw_chan w))"
  using writer_task_queue [of env w]
  by (cases "ch_task (pw_chan w)"; cases "ch_queue (pw_chan (writer_task env w)) = []") (auto simp del: length_greater_0_conv)

lemma writer_task_takes:
  "\<forall>r. ch_task (pw_chan (writer_task env w)) \<noteq> TDone r \<Longrightarrow> ch_queue (pw_chan w) \<noteq> [] \<Longrightarrow>
   length (ch_queue (pw_chan (writer_task env w))) < length (ch_queue (pw_chan w))"
proof -
  assume a: "\<forall>r. ch_task (pw_chan (writer_task env w)) \<noteq> TDone r" "ch_queue (pw_chan w) \<noteq> []"
  then have "\<forall>r. ch_task (pw_chan w) \<noteq> TDone r" by (auto simp: writer_task_def)
  then show ?thesis using writer_task_queue [of env w] a(2)
    by (cases "ch_task (pw_chan w)"; cases "ch_queue (pw_chan (writer_task env w)) = []") auto
qed

lemma event_keeps_bounded: "bounded env w \<Longrightarrow> bounded env (run_event env e w)"
proof -
  assume b: "bounded env w"
  have wb: "pw_chan (snd (write_batch_now env x w)) = pw_chan w" for x
    using write_batch_now_effect(1) [of env x w] by (metis prod.collapse)
  have ss: "pw_chan (snd (set_state env pid status slot w)) = pw_chan w" for pid status slot
    using set_state_effect(1) [of env pid status slot w] by (metis prod.collapse)
  show ?thesis using b writer_task_shrinks [of env w]
    by (cases e) (auto simp: bounded_def wb ss writer_cancelled_def set_chan_def)
qed

interpretation bounded: pipe_stable env "bounded env" for env
  by unfold_locales (simp_all add: bounded_def event_keeps_bounded [unfolded bounded_def])

lemma send_keeps_bounded: "bounded env w \<Longrightarrow> bounded env (snd (chan_send env b w))"
proof (cases "\<exists>r. ch_task (pw_chan (send_permit env w)) = TDone r")
  case True
  assume "bounded env w"
  then show ?thesis using True bounded.permit_stable by (auto simp: chan_send_def Let_def)
next
  case False
  assume "bounded env w"
  then have w1: "bounded env (await env w)" by (rule bounded.await_stable)
  have "0 < cfg_channel_capacity (pe_config env) \<Longrightarrow>
      length (ch_queue (pw_chan (send_permit env w))) < cfg_channel_capacity (pe_config env)"
    using False w1 writer_task_takes [of env "await env w"]
    by (fastforce simp: send_permit_def bounded_def Let_def not_less split: if_splits)
  then show ?thesis using False
    by (auto simp: chan_send_def bounded_def set_chan_def Let_def split: task_state.splits)
qed

lemma join_keeps_bounded: "bounded env w \<Longrightarrow> bounded env (snd (join_writer env w))"
proof -
  assume "bounded env w"
  then have "bounded env (set_chan ((pw_chan w)\<lparr> ch_sender_dropped := True \<rparr>) w)" by (simp add: bounded_def set_chan_def)
  from bounded.task_pow_stable [OF bounded.await_stable [OF this]] show ?thesis
    by (simp add: join_writer_def Let_def del: funpow.simps)
qed

interpretation bounded_run: pipe_invariant env "bounded env" for env
  by unfold_locales (erule send_keeps_bounded, erule join_keeps_bounded, simp add: bounded_def channel_new_def)

text \<open>Backpressure: the channel between the fetcher and the writer never holds more batches than its
  configured capacity, in the loop over any list of chunks and whatever the schedule.\<close>

theorem channel_bounded:
  assumes "0 < cfg_channel_capacity (pe_config env)"
  shows "length (ch_queue (pw_chan (snd (run_chunks env p sn i stream hb chunks (w\<lparr> pw_chan := channel_new p \<rparr>)))))
    \<le> cfg_channel_capacity (pe_config env)"
proof -
  have "bounded env (w\<lparr> pw_chan := channel_new p \<rparr>)" by (simp add: bounded_def channel_new_def)
  from bounded_run.run_chunks_kept [OF this] assms show ?thesis by (simp add: bounded_def)
qed

section \<open>The checkpoint never runs ahead of the data\<close>

text \<open>
  The channel as a sequence of atomic actions: the producer's sends and the events of the other
  tasks. A crash stops it after any prefix. \<open>run_actions\<close> also collects the accepted batches.
\<close>

datatype chan_action = ASend write_batch | AEvent pipe_event

definition enqueue :: "write_batch \<Rightarrow> pipe \<Rightarrow> pipe" where
  "enqueue b w = set_chan ((pw_chan w)\<lparr> ch_queue := ch_queue (pw_chan w) @ [b] \<rparr>) w"

fun run_actions :: "pipe_env \<Rightarrow> chan_action list \<Rightarrow> pipe \<Rightarrow> write_batch list \<times> pipe" where
  "run_actions env [] w = ([], w)"
| "run_actions env (ASend b # as) w =
     (case ch_task (pw_chan w) of
        TDone _ \<Rightarrow> run_actions env as w
      | _ \<Rightarrow> (let (sent, w') = run_actions env as (enqueue b w) in (b # sent, w')))"
| "run_actions env (AEvent e # as) w = run_actions env as (run_event env e w)"

type_synonym cp = "int option \<times> string option"

definition stored_cp :: "string \<Rightarrow> string \<Rightarrow> database \<Rightarrow> cp option" where
  "stored_cp sn stream db =
     Option.bind (db_schemas db sn) (\<lambda>ps. map_option (\<lambda>r. (cp_last_slot r, cp_last_signature r)) (ps_checkpoints ps stream))"

text \<open>The checkpoint a sequential writer would have left after \<open>done\<close>.\<close>

definition batch_cp :: "string \<Rightarrow> string \<Rightarrow> write_batch \<Rightarrow> cp option \<Rightarrow> cp option" where
  "batch_cp sn stream b c =
     (if wb_schema_name b = sn \<and> wb_stream b = stream then Some (Some (sint (wb_slot b)), wb_signature b) else c)"

definition cp_after :: "string \<Rightarrow> string \<Rightarrow> cp option \<Rightarrow> write_batch list \<Rightarrow> cp option" where
  "cp_after sn stream c written = fold (batch_cp sn stream) written c"

lemma write_batch_now_cp:
  assumes "write_batch_now env b w = (r, w')"
  shows "stored_cp sn stream (pw_db w') =
    (case r of Inl _ \<Rightarrow> stored_cp sn stream (pw_db w) | Inr _ \<Rightarrow> batch_cp sn stream b (stored_cp sn stream (pw_db w)))"
proof -
  obtain r' sw db where wb: "write_block (pe_faults env (pw_tick w)) (pe_pg_eval env) (pe_hash_order env)
            (wb_schema_name b) (wb_stream b) (wb_instructions b) (wb_accounts b) (wb_slot b) (wb_signature b)
            (pw_writer w) (pw_db w) = (r', sw, db)" by (metis prod_cases3)
  with assms have w': "r' = r" "pw_db w' = db" by (auto simp: write_batch_now_def)
  show ?thesis
  proof (cases r)
    case (Inl e)
    then show ?thesis using write_block_Inl wb w' by fastforce
  next
    case (Inr x)
    from write_block_Inr [OF wb [unfolded w'(1) Inr]] w'(2) show ?thesis
      by (auto simp: Inr stored_cp_def batch_cp_def)
  qed
qed

text \<open>
  The written batches are a subsequence of \<open>sent\<close>, with the queue behind them, and account for the
  new rows outside \<open>K\<close>. Before a cancellation they are a prefix, and the rest is the queue unless
  the task failed; a drain after it may leave out a batch that failed.
\<close>

definition history :: "string \<Rightarrow> string \<Rightarrow> cp option \<Rightarrow> (string \<times> int \<times> int) set \<Rightarrow> write_batch list \<Rightarrow> pipe \<Rightarrow> bool" where
  "history sn stream c K sent w \<longleftrightarrow> chan_ok w \<and>
     (\<exists>written. subseq (written @ ch_queue (pw_chan w)) sent \<and> queue_keys sn written \<subseteq> db_keys sn (pw_db w) \<and>
        db_keys sn (pw_db w) \<subseteq> K \<union> queue_keys sn written \<and> stored_cp sn stream (pw_db w) = cp_after sn stream c written \<and>
        (\<not> pw_cancelled w \<longrightarrow> (\<exists>rest. sent = written @ rest \<and> (writer_failed w \<or> rest = ch_queue (pw_chan w)))))"

lemma historyI:
  "chan_ok w \<Longrightarrow> subseq (written @ ch_queue (pw_chan w)) sent \<Longrightarrow> queue_keys sn written \<subseteq> db_keys sn (pw_db w) \<Longrightarrow>
   db_keys sn (pw_db w) \<subseteq> K \<union> queue_keys sn written \<Longrightarrow> stored_cp sn stream (pw_db w) = cp_after sn stream c written \<Longrightarrow>
   (\<not> pw_cancelled w \<Longrightarrow> \<exists>rest. sent = written @ rest \<and> (writer_failed w \<or> rest = ch_queue (pw_chan w))) \<Longrightarrow>
   history sn stream c K sent w"
  unfolding history_def by blast

lemma historyE:
  assumes "history sn stream c K sent w"
  obtains written where "chan_ok w" "subseq (written @ ch_queue (pw_chan w)) sent" "queue_keys sn written \<subseteq> db_keys sn (pw_db w)"
    "db_keys sn (pw_db w) \<subseteq> K \<union> queue_keys sn written" "stored_cp sn stream (pw_db w) = cp_after sn stream c written"
    "\<not> pw_cancelled w \<Longrightarrow> \<exists>rest. sent = written @ rest \<and> (writer_failed w \<or> rest = ch_queue (pw_chan w))"
  using assms unfolding history_def by blast

lemma stored_cp_schemas: "db_schemas db' = db_schemas db \<Longrightarrow> stored_cp sn stream db' = stored_cp sn stream db"
  by (simp add: stored_cp_def)

lemma history_cong:
  "history sn stream c K sent w \<Longrightarrow> db_schemas (pw_db w') = db_schemas (pw_db w) \<Longrightarrow> pw_chan w' = pw_chan w \<Longrightarrow>
   pw_cancelled w' = pw_cancelled w \<Longrightarrow> history sn stream c K sent w'"
  by (simp add: history_def chan_ok_def writer_failed_def stored_cp_schemas [of "pw_db w'" "pw_db w"]
      db_keys_schemas [of "pw_db w'" "pw_db w"])

lemma history_send:
  assumes "history sn stream c K sent w" and "\<forall>r. ch_task (pw_chan w) \<noteq> TDone r"
  shows "history sn stream c K (sent @ [b]) (enqueue b w)"
  using assms(1)
proof (rule historyE)
  fix written
  assume h: "chan_ok w" "subseq (written @ ch_queue (pw_chan w)) sent" "queue_keys sn written \<subseteq> db_keys sn (pw_db w)"
    "db_keys sn (pw_db w) \<subseteq> K \<union> queue_keys sn written" "stored_cp sn stream (pw_db w) = cp_after sn stream c written"
    "\<not> pw_cancelled w \<Longrightarrow> \<exists>rest. sent = written @ rest \<and> (writer_failed w \<or> rest = ch_queue (pw_chan w))"
  have "subseq ((written @ ch_queue (pw_chan w)) @ [b]) (sent @ [b])" using h(2) by (simp only: subseq_append)
  then show ?thesis using h assms(2)
    by (intro historyI [where written = written])
      (auto simp: chan_ok_def enqueue_def set_chan_def writer_failed_def)
qed

text \<open>A step of the task that takes the first batch, with the outcome of its write.\<close>

lemma history_take:
  assumes "history sn stream c K sent w" and "ch_queue (pw_chan w) = b # q"
    and r: "write_batch_now env b (set_chan ((pw_chan w)\<lparr> ch_queue := q \<rparr>) w) = (r, w')"
    and v: "pw_db v = pw_db w'" "pw_cancelled v = pw_cancelled w'" "chan_ok v"
    and ok: "\<And>x. r = Inr x \<Longrightarrow> ch_queue (pw_chan v) = q"
    and fail: "\<And>e. r = Inl e \<Longrightarrow> writer_failed v \<and> ch_queue (pw_chan v) = [] \<or> pw_cancelled w \<and> ch_queue (pw_chan v) = q"
    and run: "\<not> writer_failed w"
  shows "history sn stream c K sent v"
  using assms(1)
proof (rule historyE)
  fix written
  assume h: "chan_ok w" "subseq (written @ ch_queue (pw_chan w)) sent" "queue_keys sn written \<subseteq> db_keys sn (pw_db w)"
    "db_keys sn (pw_db w) \<subseteq> K \<union> queue_keys sn written" "stored_cp sn stream (pw_db w) = cp_after sn stream c written"
    "\<not> pw_cancelled w \<Longrightarrow> \<exists>rest. sent = written @ rest \<and> (writer_failed w \<or> rest = ch_queue (pw_chan w))"
  note eff = write_batch_now_effect(2) [OF r] write_batch_now_effect(3) [OF r, of sn] write_batch_now_cp [OF r, of sn stream]
  show ?thesis
  proof (cases r)
    case (Inl e)
    have s: "subseq (written @ ch_queue (pw_chan v)) (written @ b # q)"
      using fail [OF Inl] by (auto simp: subseq_append' intro: subseq_drop_many [of _ _ "[b]", simplified])
    have "subseq (written @ ch_queue (pw_chan v)) sent"
      by (rule subseq_order.order_trans [OF s]) (use h(2) assms(2) in simp)
    then show ?thesis using h eff Inl v fail [OF Inl]
      by (intro historyI [where written = written]) (auto simp: set_chan_def)
  next
    case (Inr x)
    have "cp_after sn stream c (written @ [b]) = batch_cp sn stream b (cp_after sn stream c written)" by (simp add: cp_after_def)
    then show ?thesis using h eff Inr v ok [OF Inr] assms(2) run
      by (intro historyI [where written = "written @ [b]"]) (auto simp: set_chan_def)
  qed
qed

lemma history_finish:
  assumes "history sn stream c K sent w" and "ch_queue (pw_chan w) = []" and "\<not> writer_failed w"
  shows "history sn stream c K sent (writer_finish env w)"
  using assms
  by (auto simp: history_def chan_ok_def writer_failed_def writer_finish_effect
      stored_cp_schemas [OF writer_finish_effect(3)] db_keys_schemas [OF writer_finish_effect(3)])

lemma history_task:
  assumes h: "history sn stream c K sent w"
  shows "history sn stream c K sent (writer_task env w)"
proof (cases "ch_queue (pw_chan w)")
  case Nil
  then show ?thesis using h history_finish [OF h Nil]
    by (simp add: writer_task_def writer_recv_def writer_drain_def writer_failed_def split: task_state.splits)
next
  case (Cons b q)
  let ?w = "set_chan ((pw_chan w)\<lparr> ch_queue := q \<rparr>) w"
  obtain r w' where r: "write_batch_now env b ?w = (r, w')" by fastforce
  note eff = write_batch_now_effect(1,2) [OF r]
  have ok: "chan_ok w" using h by (simp add: history_def)
  then have run: "\<not> writer_failed w" using Cons by (auto simp: chan_ok_def writer_failed_def)
  show ?thesis
  proof (cases "ch_task (pw_chan w)")
    case TRunning
    then show ?thesis using Cons r eff ok run
      by (intro history_take [OF h Cons r])
        (auto simp: writer_task_def writer_recv_def set_chan_def add_totals_def chan_ok_def writer_failed_def Let_def split: sum.splits)
  next
    case TDraining
    then show ?thesis using Cons r eff ok run
      by (intro history_take [OF h Cons r])
        (auto simp: writer_task_def writer_drain_def set_chan_def add_totals_def chan_ok_def writer_failed_def Let_def split: sum.splits)
  next
    case (TDone x)
    then show ?thesis using h by (simp add: writer_task_def)
  qed
qed

lemma history_event:
  assumes h: "history sn stream c K sent w" and other: "\<And>b. e = EvOtherWrite b \<Longrightarrow> wb_stream b \<noteq> stream \<and> batch_keys sn b \<subseteq> K"
  shows "history sn stream c K sent (run_event env e w)"
proof (cases e)
  case EvWriter
  then show ?thesis using history_task [OF h] by simp
next
  case EvWriterCancelled
  then show ?thesis using h
    by (auto simp: writer_cancelled_def history_def chan_ok_def set_chan_def writer_failed_def)
next
  case EvCancel
  then show ?thesis using h by (auto simp: history_def chan_ok_def)
next
  case (EvOtherWrite b)
  obtain r w' where r: "write_batch_now env b w = (r, w')" by fastforce
  have "batch_cp sn stream b x = x" for x using other [OF EvOtherWrite] by (simp add: batch_cp_def)
  then have "stored_cp sn stream (pw_db w') = stored_cp sn stream (pw_db w)"
    using write_batch_now_cp [OF r, of sn stream] by (simp split: sum.splits)
  moreover have "db_keys sn (pw_db w) \<subseteq> db_keys sn (pw_db w')" "db_keys sn (pw_db w') \<subseteq> db_keys sn (pw_db w) \<union> K"
    using write_batch_now_effect(3) [OF r, of sn] other [OF EvOtherWrite] by (auto split: sum.splits)
  ultimately show ?thesis using h EvOtherWrite r write_batch_now_effect(1,2) [OF r]
    unfolding history_def chan_ok_def writer_failed_def by (simp, elim conjE exE) (intro conjI exI, auto)
next
  case (EvOtherState pid status slot)
  obtain r w' where r: "set_state env pid status slot w = (r, w')" by fastforce
  then show ?thesis using EvOtherState history_cong [OF h, of w'] set_state_effect [OF r] by simp
qed

text \<open>The keys the other tasks write in a sequence of actions.\<close>

definition other_keys :: "string \<Rightarrow> chan_action list \<Rightarrow> (string \<times> int \<times> int) set" where
  "other_keys sn as = (\<Union>b \<in> {b. AEvent (EvOtherWrite b) \<in> set as}. batch_keys sn b)"

lemma run_actions_history:
  "history sn stream c K sent w \<Longrightarrow> (\<And>b. AEvent (EvOtherWrite b) \<in> set as \<Longrightarrow> wb_stream b \<noteq> stream \<and> batch_keys sn b \<subseteq> K) \<Longrightarrow>
   history sn stream c K (sent @ fst (run_actions env as w)) (snd (run_actions env as w))"
proof (induction as arbitrary: sent w)
  case (Cons a as)
  show ?case
  proof (cases a)
    case (ASend b)
    show ?thesis
    proof (cases "\<exists>r. ch_task (pw_chan w) = TDone r")
      case True
      then show ?thesis using Cons ASend by auto
    next
      case False
      then have "history sn stream c K (sent @ [b]) (enqueue b w)" using history_send [OF Cons.prems(1)] by blast
      from Cons.IH [OF this] Cons.prems(2) False ASend show ?thesis
        by (auto simp: case_prod_beta Let_def split: task_state.splits)
    qed
  next
    case (AEvent e)
    then have "history sn stream c K sent (run_event env e w)" using Cons.prems by (intro history_event) auto
    from Cons.IH [OF this] Cons.prems(2) AEvent show ?thesis by simp
  qed
qed simp

text \<open>C6. Crash consistency of the backfill: stop the process after any sequence of sends and steps of the
  tasks, where no other task writes to this stream. The concurrent writer has then done what a
  sequential writer does for some subsequence of the accepted batches: the stream's checkpoint is
  the slot and signature of its last batch (or the old one when there is none), every instruction
  of it is in the table, and every new row is one of its instructions or of another task. As long
  as the token is not cancelled the subsequence is a prefix, and what is left is the queue unless
  the task has failed, so the checkpoint from which a restart resumes is not ahead of the data;
  after a cancellation a batch in the middle may be missing.\<close>

theorem checkpoint_never_ahead:
  assumes "ch_queue (pw_chan w) = []" and "ch_task (pw_chan w) = TRunning"
    and "\<And>b. AEvent (EvOtherWrite b) \<in> set as \<Longrightarrow> wb_stream b \<noteq> stream"
    and "run_actions env as w = (sent, w')"
  shows "\<exists>written. subseq written sent \<and> stored_cp sn stream (pw_db w') = cp_after sn stream (stored_cp sn stream (pw_db w)) written \<and>
    queue_keys sn written \<subseteq> db_keys sn (pw_db w') \<and>
    db_keys sn (pw_db w') \<subseteq> db_keys sn (pw_db w) \<union> queue_keys sn written \<union> other_keys sn as \<and>
    (\<not> pw_cancelled w' \<longrightarrow> (\<exists>rest. sent = written @ rest \<and> (writer_failed w' \<or> rest = ch_queue (pw_chan w'))))"
proof -
  let ?K = "db_keys sn (pw_db w) \<union> other_keys sn as"
  have h0: "history sn stream (stored_cp sn stream (pw_db w)) ?K [] w"
    by (rule historyI [where written = "[]"]) (auto simp: assms(1,2) chan_ok_def cp_after_def)
  have "wb_stream b \<noteq> stream \<and> batch_keys sn b \<subseteq> ?K" if "AEvent (EvOtherWrite b) \<in> set as" for b
    using assms(3) that by (auto simp: other_keys_def)
  from run_actions_history [OF h0 this, of as env] assms(4)
  have "history sn stream (stored_cp sn stream (pw_db w)) ?K sent w'" by simp
  then show ?thesis
  proof (rule historyE)
    fix written
    assume h: "subseq (written @ ch_queue (pw_chan w')) sent" "queue_keys sn written \<subseteq> db_keys sn (pw_db w')"
      "db_keys sn (pw_db w') \<subseteq> ?K \<union> queue_keys sn written"
      "stored_cp sn stream (pw_db w') = cp_after sn stream (stored_cp sn stream (pw_db w)) written"
      "\<not> pw_cancelled w' \<Longrightarrow> \<exists>rest. sent = written @ rest \<and> (writer_failed w' \<or> rest = ch_queue (pw_chan w'))"
    have "subseq written sent" by (rule subseq_order.order_trans [OF _ h(1)]) (auto intro: prefix_imp_subseq)
    then show ?thesis using h by (intro exI [of _ written]) auto
  qed
qed

section \<open>How a backfill ends\<close>

interpretation has_row: db_invariant env "\<lambda>w. db_indexer_state (pw_db w) p \<noteq> None" for env p
proof
  fix w :: pipe and e
  assume c: "db_indexer_state (pw_db w) p \<noteq> None"
  have wb: "write_batch_now env b v = (r, v') \<Longrightarrow> db_indexer_state (pw_db v') = db_indexer_state (pw_db v)" for b v r v'
    by (rule write_batch_now_effect(4))
  have ss: "db_indexer_state (pw_db v) p \<noteq> None \<Longrightarrow> db_indexer_state (pw_db (snd (set_state env pid status slot v))) p \<noteq> None" for pid status slot v
    by (auto simp: set_state_def update_indexer_state_def split: option.splits)
  have fin: "db_indexer_state (pw_db v) p \<noteq> None \<Longrightarrow> db_indexer_state (pw_db (writer_finish env v)) p \<noteq> None" for v
    by (auto simp: writer_finish_def increment_indexer_counters_def Let_def split: sum.splits option.splits if_splits)
  have wb2: "db_indexer_state (pw_db (snd (write_batch_now env b w))) = db_indexer_state (pw_db w)" for b
    using wb [of b w] by (metis prod.collapse)
  have recv: "db_indexer_state (pw_db (writer_recv env w)) p \<noteq> None"
    using c fin [of w] by (cases "ch_queue (pw_chan w)") (auto simp: writer_recv_def set_chan_def Let_def dest!: wb split: prod.splits sum.splits)
  have drain: "db_indexer_state (pw_db (writer_drain env w)) p \<noteq> None"
    using c fin [of w] by (cases "ch_queue (pw_chan w)") (auto simp: writer_drain_def set_chan_def Let_def dest!: wb split: prod.splits sum.splits)
  show "db_indexer_state (pw_db (run_event env e w)) p \<noteq> None"
    using c ss [of w] recv drain wb2
    by (cases e) (auto simp: writer_task_def writer_cancelled_def set_chan_def split: task_state.splits)
qed simp_all

lemma set_state_row:
  assumes "db_indexer_state (pw_db w) p \<noteq> None" and "set_state env p status slot w = (r, w')"
  shows "r = Inl e \<Longrightarrow> pe_state_fault env (pw_tick w' - 1) \<noteq> None"
    and "pe_state_fault env (pw_tick w' - 1) = None \<Longrightarrow>
      \<exists>row. db_indexer_state (pw_db w') p = Some row \<and> st_status row = status \<and>
        (\<forall>s. slot = Some s \<longrightarrow> (\<exists>x. st_last_processed_slot row = Some x \<and> sint s \<le> x))"
  using assms by (auto simp: set_state_def update_indexer_state_def split: option.splits)

lemma set_state_ok:
  assumes "db_indexer_state (pw_db w) p \<noteq> None" and "set_state env p status slot w = (Inr u, w')"
  shows "\<exists>row. db_indexer_state (pw_db w') p = Some row \<and> st_status row = status \<and>
    (\<forall>s. slot = Some s \<longrightarrow> (\<exists>x. st_last_processed_slot row = Some x \<and> sint s \<le> x))"
  using assms by (auto simp: set_state_def update_indexer_state_def split: option.splits)

definition status_of :: "string \<Rightarrow> pipe \<Rightarrow> string option" where
  "status_of p w = map_option st_status (db_indexer_state (pw_db w) p)"

text \<open>C30. Every way a backfill of a program with its state row can end, under every schedule and every
  failure. With an error: the checkpoint could not be read, or the statement on the state row that
  ended the run failed, or the status is \<open>failed\<close>. Without one: the token was cancelled (and the
  status is left as it is), or the checkpoint already covers the range and the run did nothing,
  or the status is \<open>idle\<close> and the cursor is at or past the end slot.\<close>

theorem run_backfill_outcome:
  assumes "db_indexer_state (pw_db w) p \<noteq> None"
  shows "let cp = read_checkpoint (pe_read_fault env (pw_tick w)) (pw_db (await env w)) sn ''backfill''
    in case run_backfill env p sn i a b w of
      (Inl e, w') \<Rightarrow>
        (\<exists>e'. cp = Inl e' \<and> e = Storage e' \<and> w' = await env w) \<or>
        pe_state_fault env (pw_tick w' - 1) \<noteq> None \<or> status_of p w' = Some ''failed''
    | (Inr _, w') \<Rightarrow>
        pw_cancelled w' \<or>
        (\<exists>c. cp = Inr c \<and> b < resume_from c a \<and> w' = await env w) \<or>
        status_of p w' = Some ''idle'' \<and> cursor_at_least p (sint b) (pw_db w')"
proof (cases "read_checkpoint (pe_read_fault env (pw_tick w)) (pw_db (await env w)) sn ''backfill''")
  case (Inl e)
  then show ?thesis by (simp add: run_backfill_def Let_def)
next
  case (Inr cp)
  note rd = Inr
  let ?w0 = "await env w" and ?s = "resume_from cp a"
  have r0: "db_indexer_state (pw_db (await env ?w0)) p \<noteq> None" by (intro has_row.await_stable assms)
  obtain r1 w1 where s1: "set_state env p ''backfilling'' (Some ?s) (await env ?w0) = (r1, w1)" by fastforce
  have r1: "db_indexer_state (pw_db w1) p \<noteq> None" using has_row.set_state_stable [OF r0] s1 by (metis snd_conv)
  obtain r2 w2 where t: "backfill_chunks_through env p sn i ''backfill'' True ?s b w1 = (r2, w2)" by fastforce
  have "db_indexer_state (pw_db w2) p \<noteq> None" using has_row.through_kept [OF r1] t by (metis snd_conv)
  then have r3: "db_indexer_state (pw_db (await env w2)) p \<noteq> None" by (rule has_row.await_stable)
  obtain rf wf where sf: "set_state env p ''failed'' None (await env w2) = (rf, wf)" by fastforce
  obtain ri wi where si: "set_state env p ''idle'' (Some b) (await env w2) = (ri, wi)" by fastforce
  have run: "run_backfill env p sn i a b w =
      (if b < ?s then (Inr (), ?w0) else case r1 of Inl e \<Rightarrow> (Inl e, w1) | Inr _ \<Rightarrow>
        (case r2 of Inl e \<Rightarrow> (Inl e, wf) | Inr _ \<Rightarrow>
          if pw_cancelled w2 then (Inr (), w2) else case ri of Inl e \<Rightarrow> (Inl e, wi) | Inr _ \<Rightarrow> (Inr (), wi)))"
    using rd s1 t sf si unfolding run_backfill_def resume_from_def [symmetric] by (auto simp: Let_def split: sum.splits)
  have failed: "pe_state_fault env (pw_tick wf - 1) \<noteq> None \<or> status_of p wf = Some ''failed''"
    using set_state_row(2) [OF r3 sf] by (auto simp: status_of_def)
  have idle: "status_of p wi = Some ''idle'' \<and> cursor_at_least p (sint b) (pw_db wi)" if "ri = Inr ()"
    using set_state_ok [OF r3] si that by (fastforce simp: status_of_def cursor_at_least_def)
  show ?thesis
    using run rd failed idle set_state_row(1) [OF r0 s1] set_state_row(1) [OF r3 si]
    by (cases r1; cases r2; cases ri) (auto simp: Let_def)
qed

section \<open>A drain that fails\<close>

text \<open>C31. During shutdown the checkpoint can pass a lost batch: when the drain fails to write one batch and
  then writes the next one of the same stream, the checkpoint is that of the second batch, while
  nothing of the first was added to the table and it is no longer in the channel.\<close>

theorem drain_passes_failed_batch:
  assumes "ch_task (pw_chan w) = TDraining" and "ch_queue (pw_chan w) = b1 # b2 # q"
    and "wb_schema_name b2 = sn" and "wb_stream b2 = stream"
    and "write_batch_now env b1 (set_chan ((pw_chan w)\<lparr> ch_queue := b2 # q \<rparr>) w) = (Inl e, w1)"
    and "write_batch_now env b2 (set_chan ((pw_chan w1)\<lparr> ch_queue := q \<rparr>) w1) = (Inr r, w2)"
  shows "let w' = (writer_task env ^^ 2) w
    in stored_cp sn stream (pw_db w') = Some (Some (sint (wb_slot b2)), wb_signature b2) \<and>
       db_keys sn (pw_db w') = db_keys sn (pw_db w) \<union> di_key ` set (wb_instructions b2) \<and> ch_queue (pw_chan w') = q"
proof -
  have c1: "pw_chan w1 = (pw_chan w)\<lparr> ch_queue := b2 # q \<rparr>"
    using write_batch_now_effect(1) [OF assms(5)] by (simp add: set_chan_def)
  have c2: "pw_chan w2 = (pw_chan w)\<lparr> ch_queue := q \<rparr>"
    using write_batch_now_effect(1) [OF assms(6)] c1 by (simp add: set_chan_def)
  have one: "writer_task env w = w1" using assms(1,2,5) by (simp add: writer_task_def writer_drain_def)
  have two: "writer_task env w1 = set_chan (add_totals r (pw_chan w2)) w2"
    using assms(1,6) c1 by (simp add: writer_task_def writer_drain_def)
  have k: "db_keys sn (pw_db w2) = db_keys sn (pw_db w) \<union> di_key ` set (wb_instructions b2)"
    using write_batch_now_effect(3) [OF assms(5), of sn] write_batch_now_effect(3) [OF assms(6), of sn] assms(3)
    by (simp add: set_chan_def batch_keys_def)
  have "stored_cp sn stream (pw_db w2) = Some (Some (sint (wb_slot b2)), wb_signature b2)"
    using write_batch_now_cp [OF assms(6), of sn stream] assms(3,4) by (simp add: batch_cp_def)
  then show ?thesis using k c2 by (simp add: eval_nat_numeral one two set_chan_def add_totals_def)
qed

section \<open>Concrete runs\<close>

theorem indexer_cursor_monotone_witness:
  "cursor_at_least ''P'' 2 (pw_db (snd (run_backfill demo_pipe_env ''P'' ''s'' demo_idl_empty 5 5 demo_pipe)))"
proof -
  have "cursor_at_least ''P'' 2 (pw_db demo_pipe)" by (simp add: cursor_at_least_def demo_pipe_def demo_db_def)
  from indexer_cursor_monotone [OF this] show ?thesis by blast
qed

theorem channel_bounded_witness:
  "length (ch_queue (pw_chan (snd (run_chunks demo_pipe_env ''P'' ''s'' demo_idl_empty ''backfill'' True [(5, 5)]
     (demo_pipe\<lparr> pw_chan := channel_new ''P'' \<rparr>))))) \<le> 256"
  using channel_bounded [of demo_pipe_env "''P''" "''s''" demo_idl_empty "''backfill''" True "[(5, 5)]" demo_pipe] by simp

definition demo_batch5 :: write_batch where
  "demo_batch5 = \<lparr> wb_schema_name = ''s'', wb_stream = ''backfill'', wb_instructions = [], wb_accounts = [], wb_slot = 5,
     wb_signature = None \<rparr>"

theorem checkpoint_never_ahead_witness:
  "\<exists>written. subseq written [demo_batch5, demo_batch5\<lparr> wb_slot := 6 \<rparr>] \<and>
     stored_cp ''s'' ''backfill'' (pw_db (snd (run_actions demo_pipe_env
        [ASend demo_batch5, ASend (demo_batch5\<lparr> wb_slot := 6 \<rparr>), AEvent EvWriter] demo_pipe))) =
       cp_after ''s'' ''backfill'' None written"
proof -
  let ?as = "[ASend demo_batch5, ASend (demo_batch5\<lparr> wb_slot := 6 \<rparr>), AEvent EvWriter]"
  have run: "fst (run_actions demo_pipe_env ?as demo_pipe) = [demo_batch5, demo_batch5\<lparr> wb_slot := 6 \<rparr>]"
    by (simp_all add: enqueue_def set_chan_def demo_pipe_def channel_new_def demo_batch5_def writer_task_def writer_recv_def
        write_batch_now_def write_block_def write_instructions_def write_accounts_inner_def update_checkpoint_def demo_db_def
        add_totals_def)
  have "stored_cp ''s'' ''backfill'' (pw_db demo_pipe) = None" by (simp add: stored_cp_def demo_pipe_def demo_db_def)
  with checkpoint_never_ahead [of demo_pipe ?as "''backfill''" demo_pipe_env _ _ "''s''", OF _ _ _ prod.collapse [symmetric]]
  show ?thesis using run by (auto simp: demo_pipe_def channel_new_def)
qed

theorem run_backfill_outcome_witness:
  "case run_backfill demo_pipe_env ''P'' ''s'' demo_idl_empty 5 5 demo_pipe of
      (Inl e, w') \<Rightarrow> status_of ''P'' w' = Some ''failed''
    | (Inr _, w') \<Rightarrow> pw_cancelled w' \<or> status_of ''P'' w' = Some ''idle'' \<and> cursor_at_least ''P'' (sint (5 :: u64)) (pw_db w')"
proof -
  have cp: "read_checkpoint (pe_read_fault demo_pipe_env (pw_tick demo_pipe)) (pw_db (await demo_pipe_env demo_pipe)) ''s'' ''backfill'' = Inr None"
    by (simp add: demo_await read_checkpoint_def demo_pipe_def demo_db_def)
  have row: "db_indexer_state (pw_db demo_pipe) ''P'' \<noteq> None" by (simp add: demo_pipe_def demo_db_def)
  show ?thesis
    using run_backfill_outcome [OF row, where env = demo_pipe_env and sn = "''s''" and i = demo_idl_empty and a = 5 and b = 5]
    unfolding cp by (simp add: Let_def resume_from_def split: prod.splits sum.splits)
qed

definition demo_drain :: pipe where
  "demo_drain = demo_pipe\<lparr> pw_cancelled := True,
     pw_chan := \<lparr> ch_program_id = ''P'', ch_queue = [demo_batch5, demo_batch5\<lparr> wb_slot := 6 \<rparr>], ch_sender_dropped = False, ch_task = TDraining,
       ch_total_instructions = 0, ch_total_accounts = 0 \<rparr> \<rparr>"

definition demo_fault_env :: pipe_env where
  "demo_fault_env = demo_pipe_env\<lparr> pe_faults := \<lambda>t s. if t = 0 \<and> s = WBegin then Some ''no connection'' else None \<rparr>"

theorem drain_passes_failed_batch_witness:
  "stored_cp ''s'' ''backfill'' (pw_db ((writer_task demo_fault_env ^^ 2) demo_drain)) = Some (Some 6, None)"
proof -
  let ?w1 = "(next_tick (set_chan ((pw_chan demo_drain)\<lparr> ch_queue := [demo_batch5\<lparr> wb_slot := 6 \<rparr>] \<rparr>) demo_drain))"
  have f: "write_batch_now demo_fault_env demo_batch5
      (set_chan ((pw_chan demo_drain)\<lparr> ch_queue := [demo_batch5\<lparr> wb_slot := 6 \<rparr>] \<rparr>) demo_drain) =
      (Inl (WriteFailed (''transaction begin failed: '' @ ''no connection'')), ?w1)"
    by (simp add: write_batch_now_def write_block_def demo_fault_env_def demo_drain_def demo_pipe_def set_chan_def)
  obtain r w2 where s: "write_batch_now demo_fault_env (demo_batch5\<lparr> wb_slot := 6 \<rparr>) (set_chan ((pw_chan ?w1)\<lparr> ch_queue := [] \<rparr>) ?w1) = (Inr r, w2)"
    by (simp add: write_batch_now_def write_block_def demo_fault_env_def demo_drain_def demo_pipe_def set_chan_def demo_batch5_def
        write_instructions_def write_accounts_inner_def update_checkpoint_def demo_db_def)
  from drain_passes_failed_batch [OF _ _ _ _ f s, where sn = "''s''" and stream = "''backfill''"] show ?thesis
    by (simp add: demo_drain_def demo_batch5_def Let_def)
qed

end
