(* ===== verification/Streaming_Correct.thy ===== *)
theory Streaming_Correct
  imports Streaming Backfill_Invariants Ws_Correct
begin

text \<open>
  Correctness of the streaming half: a streamed transaction is in the table before the next event
  is taken, and the mini-backfill after a reconnection writes everything between the slot of the
  disconnect and the tip.
\<close>

section \<open>Streamed transactions are durable\<close>

function delivered :: "ws_env \<Rightarrow> ws_input list \<Rightarrow> ws_stream \<Rightarrow> stream_event list" where
  "delivered env inputs s =
     (case ws_next env inputs s of
        (Some (Inr event), s', rest) \<Rightarrow> event # delivered env rest s'
      | _ \<Rightarrow> [])"
  by pat_completeness auto
termination
  by (relation "measure (\<lambda>(_, inputs, s). length (ws_pending_frames s) + length inputs)")
    (auto dest!: ws_next_shrinks [OF sym])

declare delivered.simps [simp del]

definition tx_keys :: "pipe_env \<Rightarrow> string \<Rightarrow> idl \<Rightarrow> rpc_transaction option \<Rightarrow> (string \<times> int \<times> int) set" where
  "tx_keys env p i tx = (case tx of None \<Rightarrow> {} | Some t \<Rightarrow>
     di_key ` set (tx_decoded (pe_b58 env) (pe_sha256 env) (cfg_index_failed_txs (pe_config env)) p t i))"

definition wanted :: "pipe_env \<Rightarrow> stream_event \<Rightarrow> bool" where
  "wanted env e \<longleftrightarrow> se_error e = None \<or> cfg_index_failed_txs (pe_config env)"

lemma kept_write: "write_batch_now env b w = (r, w') \<Longrightarrow> db_keys sn (pw_db w) \<subseteq> db_keys sn (pw_db w')"
  using write_batch_now_effect(3) [of env b w r w' sn] by auto

lemma kept_await: "db_keys sn (pw_db w) \<subseteq> db_keys sn (pw_db (await env w))"
  by (rule kept.await_stable) simp

lemma kept_state: "db_keys sn (pw_db w) \<subseteq> db_keys sn (pw_db (snd (set_state env pid status slot w)))"
  by (rule kept.set_state_stable) simp

lemma decoder_write: "write_batch_now env b w = (r, w') \<Longrightarrow> pw_decoder w' = pw_decoder w"
  by (auto simp: write_batch_now_def split: prod.splits)

lemma decoder_state [simp]: "pw_decoder (snd (set_state env pid status slot w)) = pw_decoder w"
  using set_state_effect(4) [of env pid status slot w "fst (set_state env pid status slot w)"] by simp

lemma handle_transaction_durable:
  assumes "cache_ok (pw_decoder w) i" and "handle_transaction senv p sn i event tx w = (Inr u, w')"
  shows "db_keys sn (pw_db w) \<union> tx_keys (sv_pipe senv) p i (Some tx) \<subseteq> db_keys sn (pw_db w') \<and> cache_ok (pw_decoder w') i"
proof -
  let ?env = "sv_pipe senv"
  define run where "run = decode_transaction (pe_b58 ?env) (pe_sha256 ?env) (cfg_index_failed_txs (pe_config ?env)) p tx i
      (pw_decoder w) (pw_stats w)"
  have run: "dr_decoded run = tx_decoded (pe_b58 ?env) (pe_sha256 ?env) (cfg_index_failed_txs (pe_config ?env)) p tx i"
    "cache_ok (dr_decoder run) i"
    using decode_transaction_through [OF assms(1)] by (simp_all add: run_def Let_def)
  let ?w1 = "w\<lparr> pw_decoder := dr_decoder run, pw_stats := dr_stats run \<rparr>"
  let ?hb = "\<lambda>w2. if sv_heartbeat_due senv (pw_tick w2)
      then snd (set_state ?env p ''streaming'' (Some (se_slot event)) (await ?env w2)) else w2"
  have hb: "db_keys sn (pw_db w2) \<subseteq> db_keys sn (pw_db (?hb w2))" "pw_decoder (?hb w2) = pw_decoder w2" for w2
    using kept_await [of sn w2 ?env] kept_state [of sn "await ?env w2" ?env] by fastforce+
  show ?thesis
  proof (cases "dr_decoded run = []")
    case True
    then have "w' = ?hb ?w1" using assms(2) by (simp add: handle_transaction_def run_def [symmetric] Let_def)
    then show ?thesis using hb [of ?w1] run True by (simp add: tx_keys_def)
  next
    case False
    let ?b = "realtime_batch sn event (dr_decoded run)"
    obtain r w2 where wb: "write_batch_now ?env ?b (await ?env ?w1) = (r, w2)" by fastforce
    then have w': "w' = ?hb w2" and r: "r \<noteq> Inl e" for e
      using assms(2) False by (auto simp: handle_transaction_def run_def [symmetric] Let_def split: sum.splits)
    have "batch_keys sn ?b = tx_keys ?env p i (Some tx)" by (simp add: batch_keys_def realtime_batch_def tx_keys_def run(1))
    then have "db_keys sn (pw_db (await ?env ?w1)) \<union> tx_keys ?env p i (Some tx) \<subseteq> db_keys sn (pw_db w2)"
      using write_batch_now_effect(3) [OF wb, of sn] r by (cases r) auto
    with hb(1) [of w2] kept_await [of sn ?w1 ?env]
    have "db_keys sn (pw_db w) \<union> tx_keys ?env p i (Some tx) \<subseteq> db_keys sn (pw_db w')" unfolding w' by fastforce
    moreover have "pw_decoder w' = dr_decoder run" using hb(2) [of w2] decoder_write [OF wb] unfolding w' by simp
    ultimately show ?thesis using run(2) by simp
  qed
qed

text \<open>
  The log of a connection: each event taken from the socket with the answer of the node to its
  fetch, or with none when it was skipped without one.
\<close>

type_synonym fetch = "stream_event \<times> (pipeline_error + rpc_transaction option) option"

function fetches ::
  "stream_env \<Rightarrow> string \<Rightarrow> string \<Rightarrow> idl \<Rightarrow> u64 \<Rightarrow> ws_input list \<Rightarrow> ws_stream \<Rightarrow> pipe \<Rightarrow> fetch list" where
  "fetches senv p sn i fails inputs s w =
     (let env = sv_pipe senv; w1 = await env w
      in case ws_next (sv_ws senv) inputs s of
           (Some (Inr event), s', rest) \<Rightarrow>
             if \<not> wanted env event then (event, None) # fetches senv p sn i fails rest s' w1
             else
               let w2 = await env w1;
                   (r, st) = get_transaction (pe_rpc env (pw_tick w1)) (se_signature event) (pw_stats w2);
                   w3 = w2\<lparr> pw_stats := st \<rparr>
               in (event, Some r) #
                  (case r of
                     Inr (Some tx) \<Rightarrow> fetches senv p sn i 0 rest s' (snd (handle_transaction senv p sn i event tx w3))
                   | Inr None \<Rightarrow> fetches senv p sn i fails rest s' w3
                   | Inl e \<Rightarrow> fetches senv p sn i (fails + 1) rest s' w3)
         | _ \<Rightarrow> [])"
  by pat_completeness auto
termination
  by (relation "measure (\<lambda>(_, _, _, _, _, inputs, s, _). length (ws_pending_frames s) + length inputs)")
    (auto dest!: ws_next_shrinks [OF sym])

declare fetches.simps [simp del]

text \<open>The log is of all the events handed out, each wanted one was fetched, and what was found is in the table.\<close>

definition fetch_rows :: "stream_env \<Rightarrow> string \<Rightarrow> string \<Rightarrow> idl \<Rightarrow> database \<Rightarrow> fetch \<Rightarrow> bool" where
  "fetch_rows senv p sn i db x =
     (case snd x of
        None \<Rightarrow> \<not> wanted (sv_pipe senv) (fst x)
      | Some r \<Rightarrow> wanted (sv_pipe senv) (fst x) \<and>
          (\<forall>tx. r = Inr (Some tx) \<longrightarrow> tx_keys (sv_pipe senv) p i (Some tx) \<subseteq> db_keys sn db))"

lemma fetch_rows_mono: "fetch_rows senv p sn i db x \<Longrightarrow> db_keys sn db \<subseteq> db_keys sn db' \<Longrightarrow> fetch_rows senv p sn i db' x"
  unfolding fetch_rows_def by (cases "snd x") auto

lemma fetches_delivered: "map fst (fetches senv p sn i fails inputs s w) = delivered (sv_ws senv) inputs s"
proof (induction "length (ws_pending_frames s) + length inputs" arbitrary: fails inputs s w rule: less_induct)
  case less
  obtain x s' rest where nx: "ws_next (sv_ws senv) inputs s = (x, s', rest)" by (metis prod_cases3)
  show ?case
  proof (cases "\<exists>event. x = Some (Inr event)")
    case True
    then obtain event where x: "x = Some (Inr event)" by blast
    with nx have shrink: "length (ws_pending_frames s') + length rest < length (ws_pending_frames s) + length inputs"
      using ws_next_shrinks by blast
    from less.hyps [OF this] show ?thesis
      unfolding fetches.simps [of senv p sn i fails inputs s w] delivered.simps [of "sv_ws senv" inputs s] nx x
      by (simp add: Let_def split: prod.splits sum.splits option.splits)
  next
    case False
    then show ?thesis
      unfolding fetches.simps [of senv p sn i fails inputs s w] delivered.simps [of "sv_ws senv" inputs s] nx
      by (auto simp: Let_def split: option.splits sum.splits)
  qed
qed

lemma stream_events_rows:
  assumes "cache_ok (pw_decoder w) i"
    and "stream_events senv p sn i fails inputs s w = (r, w')" and "\<not> pw_cancelled w'"
    and "\<And>e. r \<noteq> Some (Inl (FatalInterrupt e))"
  shows "db_keys sn (pw_db w) \<subseteq> db_keys sn (pw_db w') \<and> cache_ok (pw_decoder w') i \<and>
    (\<forall>x \<in> set (fetches senv p sn i fails inputs s w). fetch_rows senv p sn i (pw_db w') x)"
proof -
  let ?env = "sv_pipe senv"
  have "stream_events senv p sn i fails inputs s w = (r, w') \<Longrightarrow> cache_ok (pw_decoder w) i \<Longrightarrow>
      db_keys sn (pw_db w) \<subseteq> db_keys sn (pw_db w') \<and> cache_ok (pw_decoder w') i \<and>
      (\<forall>x \<in> set (fetches senv p sn i fails inputs s w). fetch_rows senv p sn i (pw_db w') x)"
  proof (induction "length (ws_pending_frames s) + length inputs" arbitrary: fails inputs s w rule: less_induct)
    case less
    let ?w1 = "await ?env w"
    note se = less.prems(1) [unfolded stream_events.simps [of senv p sn i fails inputs s w]]
    note fe = fetches.simps [of senv p sn i fails inputs s w]
    have live: "\<not> pw_cancelled w" using se assms(3) by (auto split: if_splits)
    have k1: "db_keys sn (pw_db w) \<subseteq> db_keys sn (pw_db ?w1)" by (rule kept_await)
    obtain x s' rest where nx: "ws_next (sv_ws senv) inputs s = (x, s', rest)" by (metis prod_cases3)
    show ?case
    proof (cases "\<exists>event. x = Some (Inr event)")
      case False
      then have "fetches senv p sn i fails inputs s w = []"
        using nx unfolding fe by (auto simp: Let_def split: option.splits sum.splits)
      moreover have "w' = ?w1"
        using se live nx False by (auto simp: Let_def split: option.splits sum.splits pipeline_error.splits)
      ultimately show ?thesis using k1 less.prems(2) by simp
    next
      case True
      then obtain event where x: "x = Some (Inr event)" by blast
      then have shrink: "length (ws_pending_frames s') + length rest < length (ws_pending_frames s) + length inputs"
        using nx ws_next_shrinks by blast
      note IH = less.hyps [OF shrink]
      show ?thesis
      proof (cases "wanted ?env event")
        case False
        then have rec: "stream_events senv p sn i fails rest s' ?w1 = (r, w')"
          using se live nx x by (simp add: wanted_def Let_def)
        have "fetches senv p sn i fails inputs s w = (event, None) # fetches senv p sn i fails rest s' ?w1"
          unfolding fe using nx x False by (simp add: Let_def)
        with IH [OF rec] less.prems(2) k1 False show ?thesis by (auto simp: fetch_rows_def)
      next
        case True
        let ?w2 = "await ?env ?w1"
        obtain y st where y: "get_transaction (pe_rpc ?env (pw_tick ?w1)) (se_signature event) (pw_stats ?w2) = (y, st)" by fastforce
        let ?w3 = "?w2\<lparr> pw_stats := st \<rparr>"
        have k3: "db_keys sn (pw_db w) \<subseteq> db_keys sn (pw_db ?w3)" using k1 kept_await [of sn ?w1 ?env] by simp
        have c3: "cache_ok (pw_decoder ?w3) i" using less.prems(2) by simp
        have log: "fetches senv p sn i fails inputs s w = (event, Some y) #
            (case y of Inr (Some tx) \<Rightarrow> fetches senv p sn i 0 rest s' (snd (handle_transaction senv p sn i event tx ?w3))
             | Inr None \<Rightarrow> fetches senv p sn i fails rest s' ?w3 | Inl e \<Rightarrow> fetches senv p sn i (fails + 1) rest s' ?w3)"
          unfolding fe using nx x True y by (simp add: Let_def)
        show ?thesis
        proof (cases "\<exists>tx. y = Inr (Some tx)")
          case False
          then obtain n where n: "stream_events senv p sn i n rest s' ?w3 = (r, w')"
              "fetches senv p sn i fails inputs s w = (event, Some y) # fetches senv p sn i n rest s' ?w3"
            using se live nx x y True assms(4) log by (auto simp: wanted_def Let_def split: sum.splits option.splits if_splits)
          with IH [OF n(1) c3] k3 False True show ?thesis by (auto simp: fetch_rows_def)
        next
          case found: True
          then obtain tx where tx: "y = Inr (Some tx)" by blast
          obtain z w4 where h: "handle_transaction senv p sn i event tx ?w3 = (z, w4)" by fastforce
          have zs: "(case z of Inl e \<Rightarrow> (Some (Inl (FatalInterrupt e)), w4) | Inr _ \<Rightarrow> stream_events senv p sn i 0 rest s' w4) = (r, w')"
            using se live nx x y tx True h by (auto simp: wanted_def Let_def split: sum.splits)
          then have z: "z = Inr ()" and rec: "stream_events senv p sn i 0 rest s' w4 = (r, w')"
            using assms(4) by (auto split: sum.splits)
          have d: "db_keys sn (pw_db ?w3) \<union> tx_keys ?env p i (Some tx) \<subseteq> db_keys sn (pw_db w4)" "cache_ok (pw_decoder w4) i"
            using handle_transaction_durable [OF _ h [unfolded z]] c3 by simp_all
          have "fetches senv p sn i fails inputs s w = (event, Some y) # fetches senv p sn i 0 rest s' w4"
            using log tx h by simp
          with IH [OF rec d(2)] d(1) k3 tx True show ?thesis by (fastforce simp: fetch_rows_def)
        qed
      qed
    qed
  qed
  then show ?thesis using assms(1,2) by blast
qed

section \<open>A run that backfills\<close>

lemma determine_initial_state_decoder: "determine_initial_state env sn w = (r, w1) \<Longrightarrow> pw_decoder w1 = pw_decoder w"
  by (auto simp: determine_initial_state_def Let_def split: sum.splits prod.splits)

lemma tail_backfill_keeps:
  "K \<subseteq> db_keys sn (pw_db w) \<Longrightarrow> K \<subseteq> db_keys sn (pw_db (tail_backfill env p sn' i e w))"
  using kept.await_stable [of K sn w env] rows.run_backfill_kept [of K sn _ env p sn' i]
  by (auto simp: tail_backfill_def Let_def split: prod.splits sum.splits)

lemma run_backfills:
  assumes "honest_node (sv_pipe senv) produced blk" and "0 < cfg_backfill_chunk_size (pe_config (sv_pipe senv))"
    and "cache_ok (pw_decoder w) i" and "\<not> pw_cancelled w"
    and "determine_initial_state (sv_pipe senv) sn w = (Inr (InitBackfill a b), w1)"
    and "run_backfill (sv_pipe senv) p sn i a b w1 = (Inr u, w2)" and "\<not> pw_cancelled w2"
  shows "\<exists>cp. read_checkpoint (pe_read_fault (sv_pipe senv) (pw_tick w1)) (pw_db (await (sv_pipe senv) w1)) sn ''backfill'' = Inr cp \<and>
    slot_keys (sv_pipe senv) p i produced blk (slots_of (resume_from cp a, b)) \<subseteq>
      db_keys sn (pw_db (snd (run senv p sn i first_conn conns joined w)))"
proof -
  have "cache_ok (pw_decoder w1) i" using determine_initial_state_decoder [OF assms(5)] assms(3) by simp
  from run_backfill_covers [OF assms(1,2) this assms(6,7)] obtain cp where
    cp: "read_checkpoint (pe_read_fault (sv_pipe senv) (pw_tick w1)) (pw_db (await (sv_pipe senv) w1)) sn ''backfill'' = Inr cp"
      "slot_keys (sv_pipe senv) p i produced blk (slots_of (resume_from cp a, b)) \<subseteq> db_keys sn (pw_db w2)"
    by (elim exE conjE) (rule that)
  have "snd (run senv p sn i first_conn conns joined w) = await (sv_pipe senv) (tail_backfill (sv_pipe senv) p sn i b w2)"
    using assms(4-6) by (simp add: run_def Let_def)
  with kept.await_stable [OF tail_backfill_keeps [OF cp(2)]] cp(1) show ?thesis by simp
qed

section \<open>The gap after a disconnect\<close>

text \<open>The mini-backfill closes the gap: when it returns without error and uncancelled, every
  instruction that decodes from a block the node serves for a slot after the slot of the
  disconnect, up to the chain tip it was told, is in the table.\<close>

theorem mini_backfill_closes_gap:
  assumes "honest_node env produced blk" and "0 < cfg_backfill_chunk_size (pe_config env)"
    and "cache_ok (pw_decoder w) i" and "mini_backfill env p sn i d w = (Inr u, w')" and "\<not> pw_cancelled w'"
  shows "\<exists>tip. fst (get_slot (pe_rpc env (pw_tick w)) (pw_stats (await env w))) = Inr tip \<and>
    (\<Union>s \<in> {s. produced s \<and> unat d < s \<and> s \<le> unat tip}. decoded_keys env p i (blk s)) \<subseteq> db_keys sn (pw_db w')"
proof -
  obtain r st where g: "get_slot (pe_rpc env (pw_tick w)) (pw_stats (await env w)) = (r, st)" by fastforce
  let ?w2 = "(await env w)\<lparr> pw_stats := st \<rparr>"
  from assms(4) g obtain tip where r: "r = Inr tip" by (auto simp: mini_backfill_def Let_def split: sum.splits)
  let ?a = "saturating_add d 1"
  have range: "s \<in> set (slots_of (?a, tip))" if "unat d < s" "s \<le> unat tip" for s
  proof -
    have "unat ?a \<le> s" using that unat_u64_le [of tip] unfolding unat_saturating_add by (simp add: min_def)
    then show ?thesis using that(2) by (auto simp: slots_of_def)
  qed
  show ?thesis
  proof (cases "tip < ?a")
    case True
    then have "unat tip \<le> unat d" unfolding word_less_nat_alt unat_saturating_add by (simp add: min_def split: if_splits)
    then show ?thesis using g r by auto
  next
    case False
    have t: "backfill_chunks_through env p sn i ''catchup'' False ?a tip ?w2 = (Inr u, w')"
      using assms(4) g r False by (simp add: mini_backfill_def Let_def)
    have "slot_keys env p i produced blk (slots_of (?a, tip)) \<subseteq> db_keys sn (pw_db w')"
      by (rule backfill_through_accounts [OF assms(1) _ assms(2) t assms(5)]) (simp add: assms(3))
    then show ?thesis using g r range by (fastforce simp: slot_keys_def)
  qed
qed

section \<open>Concrete runs\<close>

lemma demo_chunks_gap: "compute_backfill_chunks 5 9 50000 = [(5, 9)]"
  by (simp add: compute_backfill_chunks_def) (subst chunks_from.simps, simp add: saturating_add_def)

lemma demo_blocks_gap: "get_blocks demo_node 5 9 st = (Inr [5], incr_rpc_retry st)"
proof -
  have "compute_block_chunks 5 9 = [(5, 9)]"
    by (simp add: compute_block_chunks_def MAX_GET_BLOCKS_RANGE_def) (subst chunks_from.simps, simp add: saturating_add_def)
  then show ?thesis
    by (simp add: get_blocks_def demo_node_request) (simp add: demo_node_def demo_rpc_def upt_rec)
qed

lemma demo_tip: "get_slot demo_node st = (Inr 9, incr_rpc_retry st)"
  by (simp add: get_slot_def demo_node_request) (simp add: demo_node_def demo_rpc_def)

lemma demo_mini: "\<exists>w'. mini_backfill demo_pipe_env ''P'' ''s'' demo_idl_empty 4 demo_pipe = (Inr (), w') \<and> \<not> pw_cancelled w'"
  by (simp add: mini_backfill_def demo_env_simps demo_tip demo_chunks_gap demo_blocks_gap saturating_add_def demo_pipe_def demo_db_def
     backfill_chunks_through_def process_chunk_def Let_def chan_send_def send_permit_def channel_new_def set_chan_def
     join_writer_def writer_task_def writer_recv_def write_batch_now_def write_block_def write_instructions_def write_accounts_inner_def
     update_checkpoint_def demo_batch char_count_def insert_ixs_def add_totals_def writer_finish_def increment_indexer_counters_def
     unnest_decompose insert_ix_def ix_row_def ix_key_def)

theorem mini_backfill_closes_gap_witness:
  "\<exists>w'. mini_backfill demo_pipe_env ''P'' ''s'' demo_idl_empty 4 demo_pipe = (Inr (), w') \<and>
     decoded_keys demo_pipe_env ''P'' demo_idl_empty (Some (demo_block 5)) \<subseteq> db_keys ''s'' (pw_db w')"
proof -
  obtain w' where w': "mini_backfill demo_pipe_env ''P'' ''s'' demo_idl_empty 4 demo_pipe = (Inr (), w')" "\<not> pw_cancelled w'"
    using demo_mini by blast
  from mini_backfill_closes_gap [OF demo_honest _ _ w'] show ?thesis
    using w'(1) by (auto simp: demo_pipe_def demo_tip)
qed

definition demo_stream_node :: rpc_env where
  "demo_stream_node = demo_rpc\<lparr> re_get_tx := \<lambda>_. Inr \<lparr> rgt_slot = 5,
     rgt_transaction = \<lparr> raw_msg = \<lparr> raw_account_keys = [''P''],
        raw_instructions = [\<lparr> raw_program_id_index = 0, raw_data = [CHR 0x07], raw_accounts = [] \<rparr>] \<rparr>, raw_signatures = [''sig''] \<rparr>,
     rgt_meta = None, rgt_block_time = None \<rparr> \<rparr>"

definition demo_stream_tx :: rpc_transaction where
  "demo_stream_tx = \<lparr> rt_signature = ''sig'', rt_slot = 5, rt_success = True, rt_account_keys = [''P''],
     rt_instructions = [\<lparr> ri_program_id_index = 0, ri_data = [7], ri_accounts = [] \<rparr>], rt_inner_instructions = [] \<rparr>"

lemma demo_get_transaction: "get_transaction demo_stream_node sig st = (Inr (Some demo_stream_tx), incr_rpc_retry st)"
proof -
  have "json_get ''params'' (rpc_body m params) = Some params" for m params
    by (simp add: rpc_body_def json_obj_def btree_collect_def json_get_def)
  then show ?thesis
    by (simp add: get_transaction_def rpc_request_optional_def demo_stream_node_def demo_rpc_def send_rpc_request_optional_def
        is_retryable_def is_success_status_def parse_raw_instruction_def tx_inner_def tx_success_def tx_account_keys_def
        demo_stream_tx_def as_bytes_def byte_of_char_def)
qed

lemma demo_stream_decoded:
  "dr_decoded (decode_transaction (\<lambda>_. []) id False ''P'' demo_stream_tx demo_idl_empty chainparser_new st) =
   [\<lparr> di_signature = ''sig'', di_slot = 5, di_block_time = None, di_instruction_name = ''tick'', di_args = JObj [],
      di_program_id = ''P'', di_accounts = [], di_instruction_index = 0, di_inner_index = None \<rparr>]"
proof -
  have "dr_decoded (decode_transaction (\<lambda>_. []) id False ''P'' demo_stream_tx demo_idl_empty chainparser_new st) =
      tx_decoded (\<lambda>_. []) id False ''P'' demo_stream_tx demo_idl_empty"
    using decode_transaction_through [OF cache_ok_new] by (simp add: Let_def)
  also have "\<dots> = [\<lparr> di_signature = ''sig'', di_slot = 5, di_block_time = None, di_instruction_name = ''tick'', di_args = JObj [],
      di_program_id = ''P'', di_accounts = [], di_instruction_index = 0, di_inner_index = None \<rparr>]"
    by (simp add: demo_stream_tx_def tx_decoded_def tx_places_def targeted_def nth_opt_def decoded_at_def List.map_filter_def
        decodes_to_def decode_instruction_def find_instruction_with_fallback_def find_instruction_def disc_matches_def
        demo_idl_empty_def get_or_build_registry_def chainparser_new_def disc_len_def Let_def enrich_instruction_def
        instruction_from_decoded_def)
  finally show ?thesis .
qed

end
