(* ===== verification/Reconnect_Correct.thy ===== *)
theory Reconnect_Correct
  imports Streaming_Correct
begin

text \<open>
  Correctness of the streaming loop across reconnections: whatever sequence of connections the
  loop goes through, what each of them delivered is in the table, and so is what happened while
  there was none.
\<close>

section \<open>Cancellation is permanent\<close>

interpretation cancelled: pipe_stable env pw_cancelled for env
  by unfold_locales (simp_all add: cancelled_event)

lemma cancelled_send: "pw_cancelled w \<Longrightarrow> pw_cancelled (snd (chan_send env b w))"
  using cancelled.permit_stable [of w env] by (simp add: chan_send_def set_chan_def Let_def split: task_state.splits)

lemma cancelled_join: "pw_cancelled w \<Longrightarrow> pw_cancelled (snd (join_writer env w))"
  using cancelled.task_pow_stable [OF cancelled.await_stable, of "set_chan ((pw_chan w)\<lparr> ch_sender_dropped := True \<rparr>) w"]
  by (simp add: join_writer_def set_chan_def Let_def del: funpow.simps)

interpretation cancelled_run: pipe_invariant env pw_cancelled for env
  by unfold_locales (simp_all add: cancelled_send cancelled_join)

section \<open>A catch-up keeps the decoder\<close>

lemma decoder_join: "pw_decoder (snd (join_writer env w)) = pw_decoder w"
proof -
  have "pw_decoder ((writer_task env ^^ n) v) = pw_decoder v" for n v
    by (induction n) simp_all
  then show ?thesis by (simp add: join_writer_def set_chan_def Let_def del: funpow.simps)
qed

lemma mini_backfill_cache:
  assumes "honest_node env produced blk" and "cache_ok (pw_decoder w) i" and "mini_backfill env p sn i d w = (Inr u, w')"
  shows "cache_ok (pw_decoder w') i"
proof -
  obtain r st where g: "get_slot (pe_rpc env (pw_tick w)) (pw_stats (await env w)) = (r, st)" by fastforce
  from assms(3) g obtain tip where r: "r = Inr tip" by (auto simp: mini_backfill_def Let_def split: sum.splits)
  let ?a = "saturating_add d 1" and ?w2 = "(await env w)\<lparr> pw_stats := st \<rparr>"
  let ?w3 = "?w2\<lparr> pw_chan := channel_new p, pw_progress := progress_new ?a tip \<rparr>"
  let ?cs = "compute_backfill_chunks ?a tip (cfg_backfill_chunk_size (pe_config env))"
  show ?thesis
  proof (cases "tip < ?a")
    case True
    then show ?thesis using assms(2,3) g r by (auto simp: mini_backfill_def)
  next
    case False
    then obtain w4 where w4: "run_chunks env p sn i ''catchup'' False ?cs ?w3 = (Inr (), w4)" "join_writer env w4 = (Inr (), w')"
      using assms(3) g r by (auto simp: mini_backfill_def backfill_chunks_through_def Let_def split: prod.splits sum.splits)
    have "accounts_for sn i (slot_keys env p i produced blk (concat (map slots_of ?cs))) ?w3 w4"
      using run_chunks_accounts [OF assms(1) _ w4(1)] assms(2) by simp
    then have "cache_ok (pw_decoder w4) i" using assms(2) by (simp add: accounts_for_def)
    then show ?thesis using decoder_join [of env w4] w4(2) by simp
  qed
qed

section \<open>One connection\<close>

lemma kept_state_step: "db_keys sn (pw_db w) \<subseteq> db_keys sn (pw_db (snd (set_state env pid status slot (await env w))))"
  using kept_await [of sn w env] kept_state [of sn "await env w" env] by blast

definition session_log ::
  "stream_env \<Rightarrow> string \<Rightarrow> string \<Rightarrow> idl \<Rightarrow> ws_input list \<Rightarrow> ws_stream \<Rightarrow> pipe \<Rightarrow> fetch list" where
  "session_log senv p sn i inputs s w =
     fetches senv p sn i 0 inputs s (snd (set_state (sv_pipe senv) p ''streaming'' None (await (sv_pipe senv) w)))"

lemma stream_once_rows:
  assumes cache: "cache_ok (pw_decoder w) i" and once: "stream_once senv p sn i inputs s w = (x, w')"
    and live: "\<not> pw_cancelled w'" and ok: "\<And>e. x \<noteq> Inl (Some (Inl e))"
  shows "db_keys sn (pw_db w) \<subseteq> db_keys sn (pw_db w') \<and> cache_ok (pw_decoder w') i \<and>
    (\<forall>x \<in> set (session_log senv p sn i inputs s w). fetch_rows senv p sn i (pw_db w') x)"
proof -
  let ?env = "sv_pipe senv"
  have run: "\<not> pw_cancelled w" using once live by (auto simp: stream_once_def)
  obtain r1 w1 where s1: "set_state ?env p ''streaming'' None (await ?env w) = (r1, w1)" by fastforce
  then have r1: "r1 = Inr ()" using once ok run by (cases r1) (auto simp: stream_once_def)
  obtain r2 w2 where e: "stream_events senv p sn i 0 inputs s w1 = (r2, w2)" by fastforce
  have w1: "db_keys sn (pw_db w) \<subseteq> db_keys sn (pw_db w1)" "cache_ok (pw_decoder w1) i"
    using kept_state_step [of sn w ?env p "''streaming''" None] decoder_state [of ?env p "''streaming''" None "await ?env w"] s1 cache
    by simp_all
  have nf: "r2 \<noteq> Some (Inl (FatalInterrupt e))" for e
    using once ok [of e] run s1 r1 e by (auto simp: stream_once_def Let_def)
  have w': "w' = w2 \<or> (\<exists>slot. w' = snd (set_state ?env p ''catching_up'' (Some slot) (await ?env w2)))"
    using once run s1 r1 e nf
    by (auto simp: stream_once_def Let_def split: option.splits sum.splits stream_interrupt.splits)
  then have "\<not> pw_cancelled w2" using live cancelled.set_state_stable [OF cancelled.await_stable] by blast
  from stream_events_rows [OF w1(2) e this nf]
  have "db_keys sn (pw_db w1) \<subseteq> db_keys sn (pw_db w2)" "cache_ok (pw_decoder w2) i"
    "\<forall>x \<in> set (session_log senv p sn i inputs s w). fetch_rows senv p sn i (pw_db w2) x"
    using s1 by (simp_all add: session_log_def)
  moreover have "db_keys sn (pw_db w2) \<subseteq> db_keys sn (pw_db w')" "pw_decoder w' = pw_decoder w2"
    using w' kept_state_step [of sn w2 ?env p "''catching_up''"] by auto
  ultimately show ?thesis using w1(1) fetch_rows_mono by (metis subset_trans)
qed

section \<open>The slot to catch up from\<close>

definition cursor_of :: "ws_stream \<Rightarrow> u64" where
  "cursor_of s = (case ws_last_seen_slot s of None \<Rightarrow> 0 | Some x \<Rightarrow> x)"

lemma cursor_of_update [simp]:
  "cursor_of (s\<lparr> ws_last_message_time := t \<rparr>) = cursor_of s" "cursor_of (s\<lparr> ws_pending_ping := b \<rparr>) = cursor_of s"
  "cursor_of (s\<lparr> ws_last_ping_time := t \<rparr>) = cursor_of s" "cursor_of (s\<lparr> ws_pending_frames := fs \<rparr>) = cursor_of s"
  by (simp_all add: cursor_of_def)

text \<open>A step of the stream moves the cursor up, and an event it hands out is at or below it.\<close>

definition seen_by :: "ws_stream \<Rightarrow> ws_stream \<Rightarrow> stream_event option \<Rightarrow> bool" where
  "seen_by s s' event = (cursor_of s \<le> cursor_of s' \<and> (\<forall>ev. event = Some ev \<longrightarrow> se_slot ev \<le> cursor_of s'))"

lemma on_text_seen:
  assumes "on_text env text s = (r, s')"
  shows "seen_by s s' (case r of Inr ev \<Rightarrow> ev | Inl _ \<Rightarrow> None)"
  using assms
  by (auto simp: on_text_def parse_logs_notification_def seen_by_def cursor_of_def Let_def
      split: sum.splits option.splits if_splits prod.splits)

lemma seen_by_trans: "seen_by s y None \<Longrightarrow> seen_by y s' ev \<Longrightarrow> seen_by s s' ev"
  by (auto simp: seen_by_def)

lemma seen_by_same: "cursor_of y = cursor_of s \<Longrightarrow> seen_by y s' ev \<Longrightarrow> seen_by s s' ev"
  by (simp add: seen_by_def)

abbreviation handed :: "(pipeline_error + stream_event) option \<Rightarrow> stream_event option" where
  "handed x \<equiv> (case x of Some (Inr ev) \<Rightarrow> Some ev | _ \<Rightarrow> None)"

lemma next_inputs_seen: "next_inputs env inputs s = (x, s', rest) \<Longrightarrow> seen_by s s' (handed x)"
proof (induction inputs arbitrary: s)
  case (Cons i inputs)
  show ?case
  proof (cases "\<exists>t text sent. i = WsFrame t (FText text) sent \<and> ws_connected s")
    case True
    then obtain t "text" sent where i: "i = WsFrame t (FText text) sent" "ws_connected s" by blast
    obtain r y where r: "on_text env text (s\<lparr> ws_last_message_time := t \<rparr>) = (r, y)" by fastforce
    note o = on_text_seen [OF r]
    show ?thesis
    proof (cases "r = Inr None")
      case True
      then have "seen_by s y None" "seen_by y s' (handed x)" using Cons i r o by (simp_all add: seen_by_def)
      then show ?thesis by (rule seen_by_trans)
    next
      case False
      then show ?thesis using Cons.prems i r o by (auto simp: seen_by_def split: sum.splits option.splits)
    qed
  next
    case False
    then show ?thesis using Cons
      by (fastforce simp: seen_by_def intro: seen_by_same split: ws_input.splits ws_frame.splits option.splits if_splits)
  qed
qed (auto simp: seen_by_def split: if_splits)

lemma next_pending_seen: "next_pending env frames inputs s = (x, s', rest) \<Longrightarrow> seen_by s s' (handed x)"
proof (induction frames arbitrary: s)
  case Nil
  then show ?case using next_inputs_seen [of env inputs "s\<lparr> ws_pending_frames := [] \<rparr>"] by (simp add: seen_by_def)
next
  case (Cons f frames)
  obtain r y where r: "on_text env f (s\<lparr> ws_pending_frames := frames \<rparr>) = (r, y)" by fastforce
  note o = on_text_seen [OF r]
  show ?case
  proof (cases "r = Inr None")
    case True
    then have "seen_by s y None" "seen_by y s' (handed x)" using Cons r o by (simp_all add: seen_by_def)
    then show ?thesis by (rule seen_by_trans)
  next
    case False
    then show ?thesis using Cons.prems r o by (auto simp: seen_by_def split: sum.splits option.splits)
  qed
qed

lemma ws_next_seen: "ws_next env inputs s = (x, s', rest) \<Longrightarrow> seen_by s s' (handed x)"
  unfolding ws_next_def by (rule next_pending_seen)

lemma stream_events_disconnect:
  "stream_events senv p sn i fails inputs s w = (Some (Inl (Disconnect slot)), w') \<Longrightarrow>
   cursor_of s \<le> slot \<and> (\<forall>event \<in> set (delivered (sv_ws senv) inputs s). se_slot event \<le> slot)"
proof (induction "length (ws_pending_frames s) + length inputs" arbitrary: fails inputs s w rule: less_induct)
  case less
  note se = less.prems [unfolded stream_events.simps [of senv p sn i fails inputs s w]]
  obtain x s' rest where nx: "ws_next (sv_ws senv) inputs s = (x, s', rest)" by (metis prod_cases3)
  note seen = ws_next_seen [OF nx]
  show ?case
  proof (cases "\<exists>event. x = Some (Inr event)")
    case False
    then have "delivered (sv_ws senv) inputs s = []"
      using nx by (subst delivered.simps) (auto split: option.splits sum.splits)
    moreover have "cursor_of s' \<le> slot"
      using se nx False
      by (auto simp: Let_def disconnect_slot_def cursor_of_def split: if_splits option.splits sum.splits pipeline_error.splits)
    ultimately show ?thesis using seen by (auto simp: seen_by_def)
  next
    case True
    then obtain event where x: "x = Some (Inr event)" by blast
    then have shrink: "length (ws_pending_frames s') + length rest < length (ws_pending_frames s) + length inputs"
      using nx ws_next_shrinks by blast
    have del: "delivered (sv_ws senv) inputs s = event # delivered (sv_ws senv) rest s'"
      using nx x by (subst delivered.simps) simp
    obtain fails' v where "stream_events senv p sn i fails' rest s' v = (Some (Inl (Disconnect slot)), w')"
      using se nx x by (auto simp: Let_def split: if_splits option.splits sum.splits prod.splits)
    from less.hyps [OF shrink this] show ?thesis using seen x del by (auto simp: seen_by_def)
  qed
qed

section \<open>The loop\<close>

text \<open>
  The connections the loop goes through, each with its frames, its stream and its log, and, when it
  was lost and another one took its place, with the slot of the disconnect and the state then.
\<close>

record session =
  ss_inputs :: "ws_input list"
  ss_stream :: ws_stream
  ss_log :: "fetch list"
  ss_lost :: "(u64 \<times> pipe) option"

fun sessions ::
  "stream_env \<Rightarrow> string \<Rightarrow> string \<Rightarrow> idl \<Rightarrow> (ws_conn \<times> ws_conn list) list \<Rightarrow> ws_input list \<Rightarrow> ws_stream \<Rightarrow> pipe \<Rightarrow> session list" where
  "sessions senv p sn i [] inputs s w =
     [\<lparr> ss_inputs = inputs, ss_stream = s, ss_log = session_log senv p sn i inputs s w, ss_lost = None \<rparr>]"
| "sessions senv p sn i ((c, cs) # conns) inputs s w =
     (let now = \<lparr> ss_inputs = inputs, ss_stream = s, ss_log = session_log senv p sn i inputs s w, ss_lost = None \<rparr>
      in case stream_once senv p sn i inputs s w of
           (Inl r, w1) \<Rightarrow> [now]
         | (Inr slot, w1) \<Rightarrow>
             (case fst (retry_call (connect_stream senv p) c cs runtime_stats_new) of
                Inl e \<Rightarrow> [now]
              | Inr (s', inputs') \<Rightarrow>
                  now\<lparr> ss_lost := Some (slot, w1) \<rparr> #
                  (if 0 < slot then
                     (case mini_backfill (sv_pipe senv) p sn i slot w1 of
                        (Inl e, w2) \<Rightarrow> [] | (Inr _, w2) \<Rightarrow> sessions senv p sn i conns inputs' s' w2)
                   else sessions senv p sn i conns inputs' s' w1)))"

text \<open>
  What a session leaves. Its log is of the events it was handed; a wanted event was fetched, and
  what decodes from a transaction the node returned is in the table. When the connection was lost
  and replaced, no event was newer than the slot of the disconnect, and unless that slot is zero
  everything served after it, up to the tip the catch-up was told, is in the table.
\<close>

definition session_rows ::
  "stream_env \<Rightarrow> string \<Rightarrow> string \<Rightarrow> idl \<Rightarrow> (nat \<Rightarrow> bool) \<Rightarrow> (nat \<Rightarrow> rpc_block option) \<Rightarrow> database \<Rightarrow> session \<Rightarrow> bool" where
  "session_rows senv p sn i produced blk db x =
     (let env = sv_pipe senv
      in map fst (ss_log x) = delivered (sv_ws senv) (ss_inputs x) (ss_stream x) \<and>
         (\<forall>y \<in> set (ss_log x). fetch_rows senv p sn i db y) \<and>
         (case ss_lost x of
            None \<Rightarrow> True
          | Some (slot, w) \<Rightarrow>
              (\<forall>event \<in> set (delivered (sv_ws senv) (ss_inputs x) (ss_stream x)). se_slot event \<le> slot) \<and>
              (0 < slot \<longrightarrow>
                (\<exists>tip. fst (get_slot (pe_rpc env (pw_tick w)) (pw_stats (await env w))) = Inr tip \<and>
                  (\<forall>k. produced k \<and> unat slot < k \<and> k \<le> unat tip \<longrightarrow> decoded_keys env p i (blk k) \<subseteq> db_keys sn db)))))"

lemma session_rows_mono:
  assumes "session_rows senv p sn i produced blk db x" and "db_keys sn db \<subseteq> db_keys sn db'"
  shows "session_rows senv p sn i produced blk db' x"
proof -
  have "\<forall>y \<in> set (ss_log x). fetch_rows senv p sn i db' y"
    using assms fetch_rows_mono unfolding session_rows_def Let_def by blast
  then show ?thesis using assms unfolding session_rows_def Let_def by (force split: option.splits)
qed

lemma session_rows_lost:
  "session_rows senv p sn i produced blk db (x\<lparr> ss_lost := None \<rparr>) \<Longrightarrow>
   \<forall>event \<in> set (delivered (sv_ws senv) (ss_inputs x) (ss_stream x)). se_slot event \<le> slot \<Longrightarrow>
   (0 < slot \<Longrightarrow>
     \<exists>tip. fst (get_slot (pe_rpc (sv_pipe senv) (pw_tick w)) (pw_stats (await (sv_pipe senv) w))) = Inr tip \<and>
       (\<forall>k. produced k \<and> unat slot < k \<and> k \<le> unat tip \<longrightarrow> decoded_keys (sv_pipe senv) p i (blk k) \<subseteq> db_keys sn db)) \<Longrightarrow>
   session_rows senv p sn i produced blk db (x\<lparr> ss_lost := Some (slot, w) \<rparr>)"
  by (simp add: session_rows_def Let_def)

lemma stream_once_slot:
  "stream_once senv p sn i inputs s w = (Inr slot, w1) \<Longrightarrow> \<forall>event \<in> set (delivered (sv_ws senv) inputs s). se_slot event \<le> slot"
  using stream_events_disconnect
  by (fastforce simp: stream_once_def Let_def split: if_splits prod.splits sum.splits option.splits stream_interrupt.splits)

lemma stream_loop_cancelled: "stream_loop senv p sn i conns inputs s w = (r, w') \<Longrightarrow> pw_cancelled w \<Longrightarrow> pw_cancelled w'"
  by (cases conns) (auto simp: stream_once_def)

text \<open>The session of one pass of the loop.\<close>

abbreviation session_now ::
  "stream_env \<Rightarrow> string \<Rightarrow> string \<Rightarrow> idl \<Rightarrow> ws_input list \<Rightarrow> ws_stream \<Rightarrow> pipe \<Rightarrow> session" where
  "session_now senv p sn i inputs s w \<equiv>
     \<lparr> ss_inputs = inputs, ss_stream = s, ss_log = session_log senv p sn i inputs s w, ss_lost = None \<rparr>"

lemma session_now_rows:
  assumes "cache_ok (pw_decoder w) i" and "stream_once senv p sn i inputs s w = (x, w')"
    and "\<not> pw_cancelled w'" and "\<And>e. x \<noteq> Inl (Some (Inl e))"
  shows "db_keys sn (pw_db w) \<subseteq> db_keys sn (pw_db w') \<and> cache_ok (pw_decoder w') i \<and>
    session_rows senv p sn i produced blk (pw_db w') (session_now senv p sn i inputs s w)"
  using stream_once_rows [OF assms] by (simp add: session_rows_def Let_def session_log_def fetches_delivered)

lemma stream_loop_rows:
  assumes honest: "honest_node (sv_pipe senv) produced blk" "0 < cfg_backfill_chunk_size (pe_config (sv_pipe senv))"
    and live: "\<not> pw_cancelled w'" and ok: "\<And>e. r \<noteq> Some (Inl e)"
  shows "stream_loop senv p sn i conns inputs s w = (r, w') \<Longrightarrow> cache_ok (pw_decoder w) i \<Longrightarrow>
    db_keys sn (pw_db w) \<subseteq> db_keys sn (pw_db w') \<and>
    (\<forall>x \<in> set (sessions senv p sn i conns inputs s w). session_rows senv p sn i produced blk (pw_db w') x)"
proof (induction conns arbitrary: inputs s w)
  case Nil
  then obtain x where x: "stream_once senv p sn i inputs s w = (x, w')" "x = Inl r \<or> (\<exists>slot. x = Inr slot)"
    by (auto split: prod.splits sum.splits)
  show ?case using session_now_rows [OF Nil.prems(2) x(1) live] x(2) ok by auto
next
  case (Cons a conns)
  obtain c cs where a: "a = (c, cs)" by (cases a)
  let ?env = "sv_pipe senv" and ?now = "session_now senv p sn i inputs s w"
  obtain x w1 where x: "stream_once senv p sn i inputs s w = (x, w1)" by fastforce
  note loop = Cons.prems(1) [unfolded a stream_loop.simps x]
  show ?case
  proof (cases x)
    case (Inl r1)
    then have "r1 = r" "w1 = w'" using loop by simp_all
    then show ?thesis using session_now_rows [OF Cons.prems(2) x] live ok Inl by (auto simp: a x)
  next
    case (Inr slot)
    obtain s' inputs' where rc: "fst (retry_call (connect_stream senv p) c cs runtime_stats_new) = Inr (s', inputs')"
      using loop Inr ok by (cases "fst (retry_call (connect_stream senv p) c cs runtime_stats_new)") (auto simp: Let_def)
    obtain y w2 where y: "(if 0 < slot then mini_backfill ?env p sn i slot w1 else (Inr (), w1)) = (y, w2)" by fastforce
    then have yv: "y = Inr ()" using loop Inr rc ok by (cases y) (auto simp: Let_def split: if_splits)
    have rec: "stream_loop senv p sn i conns inputs' s' w2 = (r, w')"
      using loop Inr rc y yv by (auto simp: Let_def split: if_splits)
    have l2: "\<not> pw_cancelled w2" using stream_loop_cancelled [OF rec] live by blast
    then have l1: "\<not> pw_cancelled w1" using cancelled_run.mini_backfill_kept [of w1 ?env p sn i slot] y by (auto split: if_splits)
    have o: "db_keys sn (pw_db w) \<subseteq> db_keys sn (pw_db w1)" "cache_ok (pw_decoder w1) i" "session_rows senv p sn i produced blk (pw_db w1) ?now"
      using session_now_rows [OF Cons.prems(2) x l1] Inr by auto
    have k: "db_keys sn (pw_db w1) \<subseteq> db_keys sn (pw_db w2)"
      using rows.mini_backfill_kept [OF subset_refl, of sn w1 ?env p sn i slot] y by (auto split: if_splits)
    have c2: "cache_ok (pw_decoder w2) i"
      using mini_backfill_cache [OF honest(1) o(2)] y yv o(2) by (auto split: if_splits)
    have lost: "session_rows senv p sn i produced blk (pw_db w2) (?now\<lparr> ss_lost := Some (slot, w1) \<rparr>)"
    proof (rule session_rows_lost)
      show "session_rows senv p sn i produced blk (pw_db w2) (?now\<lparr> ss_lost := None \<rparr>)" using session_rows_mono [OF o(3) k] by simp
      show "\<forall>event \<in> set (delivered (sv_ws senv) (ss_inputs ?now) (ss_stream ?now)). se_slot event \<le> slot"
        using stream_once_slot x Inr by fastforce
      assume "0 < slot"
      then have "mini_backfill ?env p sn i slot w1 = (Inr (), w2)" using y yv by simp
      from mini_backfill_closes_gap [OF honest o(2) this l2]
      show "\<exists>tip. fst (get_slot (pe_rpc ?env (pw_tick w1)) (pw_stats (await ?env w1))) = Inr tip \<and>
          (\<forall>k. produced k \<and> unat slot < k \<and> k \<le> unat tip \<longrightarrow> decoded_keys ?env p i (blk k) \<subseteq> db_keys sn (pw_db w2))"
        by blast
    qed
    have IH: "db_keys sn (pw_db w2) \<subseteq> db_keys sn (pw_db w')"
        "\<forall>x \<in> set (sessions senv p sn i conns inputs' s' w2). session_rows senv p sn i produced blk (pw_db w') x"
      using Cons.IH [OF rec c2] by blast+
    have "sessions senv p sn i (a # conns) inputs s w =
        ?now\<lparr> ss_lost := Some (slot, w1) \<rparr> # sessions senv p sn i conns inputs' s' w2"
      using x Inr rc y yv by (auto simp: a Let_def split: if_splits)
    then show ?thesis using IH o(1) k session_rows_mono [OF lost IH(1)] by auto
  qed
qed

text \<open>C12. Streaming survives reconnections: take any number of connections, each ending in a disconnect of any
  kind, a node that serves its blocks, and any schedule of the other tasks. As long as the streaming
  task has not returned an error and the token is not cancelled, for every connection so far: every
  event handed out was fetched unless it reports a failed transaction that is not to be indexed,
  and for every fetch the node answered with a transaction every instruction that decodes from it
  is in the table (an event whose fetch failed, or that the node did not know, is skipped). When
  the connection was lost and replaced, no event of it is newer than the slot of the disconnect;
  and if that slot is not zero, every instruction the node serves for a later slot up to the chain
  tip at the catch-up is in the table. A disconnect at slot zero gets no catch-up.\<close>

theorem run_streaming_durable:
  assumes "honest_node (sv_pipe senv) produced blk" and "0 < cfg_backfill_chunk_size (pe_config (sv_pipe senv))"
    and "connect_stream senv p first_conn = Inr (s, inputs)" and "cache_ok (pw_decoder w) i"
    and "run_streaming senv p sn i first_conn conns w = (r, w')" and "\<not> pw_cancelled w'" and "\<And>e. r \<noteq> Some (Inl e)"
  shows "\<forall>x \<in> set (sessions senv p sn i conns inputs s w). session_rows senv p sn i produced blk (pw_db w') x"
  using stream_loop_rows [OF assms(1,2,6,7), of p sn i conns inputs s w] assms(3-5) by (simp add: run_streaming_def)

section \<open>A run with a reconnection\<close>

text \<open>A first connection delivers an event of slot 4 and ends; the catch-up to slot 9 finds the block of slot 5.\<close>

definition demo_full_node :: rpc_env where
  "demo_full_node = demo_node\<lparr> re_get_tx := re_get_tx demo_stream_node \<rparr>"

definition demo_reconnect_env :: stream_env where
  "demo_reconnect_env = \<lparr> sv_pipe = demo_pipe_env\<lparr> pe_rpc := \<lambda>_. demo_full_node \<rparr>,
     sv_ws = demo_ws_env\<lparr> we_notification := \<lambda>_. Inr \<lparr> ln_signature = ''sig'', ln_err = None, ln_slot = 4 \<rparr> \<rparr>,
     sv_heartbeat_due = (\<lambda>_. False) \<rparr>"

definition demo_session :: "ws_input list \<Rightarrow> ws_conn" where
  "demo_session inputs = \<lparr> wc_connect = None, wc_sub_sent = None, wc_handshake = [WsFrame 1 (FText ''ok'') None],
     wc_inputs = inputs, wc_now = 0, wc_now_after = 1 \<rparr>"

lemma demo_params: "json_get ''params'' (rpc_body m params) = Some params"
  by (simp add: rpc_body_def json_obj_def btree_collect_def json_get_def)

lemma demo_full_request: "rpc_request demo_full_node m params st = (Inr params, incr_rpc_retry st)"
  by (simp add: rpc_request_def demo_full_node_def demo_node_def demo_rpc_def send_rpc_request_def is_retryable_def
      is_success_status_def demo_params)

lemma demo_full_transaction: "get_transaction demo_full_node sig st = (Inr (Some demo_stream_tx), incr_rpc_retry st)"
  by (simp add: get_transaction_def rpc_request_optional_def demo_full_node_def demo_node_def demo_stream_node_def demo_rpc_def
      send_rpc_request_optional_def is_retryable_def is_success_status_def parse_raw_instruction_def tx_inner_def
      tx_success_def tx_account_keys_def demo_stream_tx_def as_bytes_def byte_of_char_def demo_params)

lemma demo_full_block: "get_block demo_full_node flag k st = (Inr (Some (demo_block k)), incr_rpc_retry st)"
  by (simp add: get_block_def demo_full_request)
    (simp add: parse_block_def demo_full_node_def demo_node_def demo_rpc_def demo_raw_block_def parse_block_tx_def tx_success_def
      tx_inner_def tx_account_keys_def parse_raw_instruction_def demo_block_def as_bytes_def byte_of_char_def)

lemma demo_full_slot: "get_slot demo_full_node st = (Inr 9, incr_rpc_retry st)"
  by (simp add: get_slot_def demo_full_request) (simp add: demo_full_node_def demo_node_def demo_rpc_def)

lemma demo_full_blocks: "get_blocks demo_full_node 5 9 st = (Inr [5], incr_rpc_retry st)"
proof -
  have "compute_block_chunks 5 9 = [(5, 9)]"
    by (simp add: compute_block_chunks_def MAX_GET_BLOCKS_RANGE_def) (subst chunks_from.simps, simp add: saturating_add_def)
  then show ?thesis
    by (simp add: get_blocks_def demo_full_request) (simp add: demo_full_node_def demo_node_def demo_rpc_def upt_rec)
qed

lemma demo_full_honest:
  "honest_node (sv_pipe demo_reconnect_env) (\<lambda>k. k = 3 \<or> k = 5) (\<lambda>k. Some (demo_block (of_nat k)))"
proof -
  have "serves_slots demo_full_node (\<lambda>k. k = 3 \<or> k = 5)"
    unfolding serves_slots_def
    by (simp add: demo_full_request) (simp add: demo_full_node_def demo_node_def demo_rpc_def get_blocks_params_def slots_of_def)
  then show ?thesis by (simp add: honest_node_def demo_reconnect_env_def demo_full_block)
qed

lemma demo_reconnect_fields [simp]:
  "sv_heartbeat_due demo_reconnect_env t = False" "pe_rpc (sv_pipe demo_reconnect_env) t = demo_full_node"
  "pe_config (sv_pipe demo_reconnect_env) = test_default" "pe_faults (sv_pipe demo_reconnect_env) t = (\<lambda>_. None)"
  "pe_b58 (sv_pipe demo_reconnect_env) = (\<lambda>_. [])" "pe_sha256 (sv_pipe demo_reconnect_env) = id"
  "pe_state_fault (sv_pipe demo_reconnect_env) t = None"
  "await (sv_pipe demo_reconnect_env) w = next_tick w"
  by (simp_all add: demo_reconnect_env_def demo_pipe_env_def await_def)

text \<open>The stream after a handshake, and what it does with one event and the end of the connection.\<close>

definition demo_open :: ws_stream where
  "demo_open = (ws_new (cfg_ws_url test_default) (cfg_rpc_url test_default) (cfg_dedup_cache_size test_default)
     (unat (cfg_ws_ping_interval_secs test_default)) (unat (cfg_ws_pong_timeout_secs test_default)) 0)\<lparr>
     ws_connected := True, ws_subscription_id := Some 7, ws_program_id := Some ''P'', ws_last_message_time := 1 \<rparr>"

lemma demo_connect: "connect_stream demo_reconnect_env ''P'' (demo_session inputs) = Inr (demo_open, inputs)"
  by (simp add: connect_stream_def demo_session_def demo_open_def demo_ws_defs demo_reconnect_env_def)

abbreviation demo_event :: stream_event where
  "demo_event \<equiv> \<lparr> se_signature = ''sig'', se_slot = 4, se_error = None \<rparr>"

lemma demo_open_next:
  "\<exists>s'. ws_next (sv_ws demo_reconnect_env) [WsFrame 2 (FText ''n'') None, WsEnd] demo_open = (Some (Inr demo_event), s', [WsEnd]) \<and>
     ws_next (sv_ws demo_reconnect_env) [WsEnd] s' = (Some (Inl (WebSocketDisconnect ''stream ended'')), s', []) \<and>
     ws_last_seen_slot s' = Some 4"
  by (simp add: ws_next_def demo_open_def ws_new_def on_text_def parse_logs_notification_def demo_reconnect_env_def demo_ws_env_def
      dedup_new_def dedup_insert_def MAX_SIGNATURE_LEN_def test_default_def)

lemma demo_open_waits: "ws_next (sv_ws demo_reconnect_env) [] demo_open = (None, demo_open, [])"
  by (simp add: ws_next_def demo_open_def ws_new_def)

text \<open>With no failing statement every write succeeds.\<close>

definition demo_ready :: "pipe \<Rightarrow> bool" where
  "demo_ready w \<longleftrightarrow> \<not> pw_cancelled w \<and> cache_ok (pw_decoder w) demo_idl_empty \<and> db_schemas (pw_db w) ''s'' \<noteq> None"

lemma demo_ready_tick [simp]: "demo_ready (w\<lparr> pw_tick := t \<rparr>) = demo_ready w" "demo_ready (w\<lparr> pw_stats := st \<rparr>) = demo_ready w"
  "demo_ready (w\<lparr> pw_chan := c, pw_progress := pr \<rparr>) = demo_ready w" "demo_ready (w\<lparr> pw_progress := pr \<rparr>) = demo_ready w"
  "demo_ready (set_chan c w) = demo_ready w"
  by (simp_all add: demo_ready_def set_chan_def)

lemma demo_ready_state:
  "demo_ready w \<Longrightarrow> \<exists>w'. set_state (sv_pipe demo_reconnect_env) pid status slot w = (Inr (), w') \<and> demo_ready w'"
  by (auto simp: set_state_def update_indexer_state_def demo_ready_def split: option.splits)

lemma demo_ready_write:
  assumes "demo_ready w" and "wb_schema_name b = ''s''" "wb_accounts b = []" "wb_signature b = Some sig" "char_count sig \<le> 88"
  shows "\<exists>r w'. write_batch_now (sv_pipe demo_reconnect_env) b w = (Inr r, w') \<and> demo_ready w' \<and> pw_chan w' = pw_chan w"
  using assms
  by (auto simp: write_batch_now_def write_block_def write_instructions_def write_accounts_inner_def update_checkpoint_def
      demo_ready_def Let_def split: prod.splits)

lemma demo_ready_once:
  assumes "demo_ready w"
  shows "\<exists>w'. stream_once demo_reconnect_env ''P'' ''s'' demo_idl_empty [WsFrame 2 (FText ''n'') None, WsEnd] demo_open w = (Inr 4, w') \<and> demo_ready w'"
proof -
  let ?env = "sv_pipe demo_reconnect_env"
  obtain s' where n: "ws_next (sv_ws demo_reconnect_env) [WsFrame 2 (FText ''n'') None, WsEnd] demo_open = (Some (Inr demo_event), s', [WsEnd])"
     "ws_next (sv_ws demo_reconnect_env) [WsEnd] s' = (Some (Inl (WebSocketDisconnect ''stream ended'')), s', [])"
     "ws_last_seen_slot s' = Some 4" using demo_open_next by blast
  obtain w1 where w1: "set_state ?env ''P'' ''streaming'' None (next_tick w) = (Inr (), w1)" "demo_ready w1"
    using demo_ready_state [of "next_tick w" "''P''" "''streaming''" None] assms by auto
  let ?w3 = "(next_tick (next_tick w1))\<lparr> pw_stats := incr_rpc_retry (pw_stats w1) \<rparr>"
  define run where "run = decode_transaction (\<lambda>_. []) id False ''P'' demo_stream_tx demo_idl_empty (pw_decoder w1) (incr_rpc_retry (pw_stats w1))"
  have cache: "cache_ok (pw_decoder w1) demo_idl_empty" using w1(2) by (simp add: demo_ready_def)
  have "cache_ok (dr_decoder run) demo_idl_empty" using decode_transaction_through [OF cache] by (simp add: run_def Let_def)
  then have r4: "demo_ready (next_tick (?w3\<lparr> pw_decoder := dr_decoder run, pw_stats := dr_stats run \<rparr>))"
    using w1(2) by (simp add: demo_ready_def)
  obtain r w4 where w4: "write_batch_now ?env (realtime_batch ''s'' demo_event (dr_decoded run))
      (next_tick (?w3\<lparr> pw_decoder := dr_decoder run, pw_stats := dr_stats run \<rparr>)) = (Inr r, w4)" "demo_ready w4"
    using demo_ready_write [OF r4, of "realtime_batch ''s'' demo_event (dr_decoded run)" "''sig''"]
    by (auto simp: realtime_batch_def char_count_def)
  have "handle_transaction demo_reconnect_env ''P'' ''s'' demo_idl_empty demo_event demo_stream_tx ?w3 = (Inr (), w4)" if "dr_decoded run \<noteq> []"
    using that w4(1) by (simp add: handle_transaction_def run_def [symmetric] Let_def)
  moreover have "dr_decoded run = dr_decoded (decode_transaction (\<lambda>_. []) id False ''P'' demo_stream_tx demo_idl_empty chainparser_new st)" for st
    using decode_transaction_through [OF cache] decode_transaction_through [OF cache_ok_new [of demo_idl_empty]] by (simp add: run_def Let_def)
  then have "dr_decoded run \<noteq> []" by (simp add: demo_stream_decoded)
  ultimately have h: "handle_transaction demo_reconnect_env ''P'' ''s'' demo_idl_empty demo_event demo_stream_tx ?w3 = (Inr (), w4)" by blast
  have l: "\<not> pw_cancelled w" "\<not> pw_cancelled w1" "\<not> pw_cancelled w4" using assms w1(2) w4(2) by (simp_all add: demo_ready_def)
  have e2: "stream_events demo_reconnect_env ''P'' ''s'' demo_idl_empty 0 [WsEnd] s' w4 = (Some (Inl (Disconnect 4)), next_tick w4)"
    by (subst stream_events.simps) (simp add: l n disconnect_slot_def)
  have e1: "stream_events demo_reconnect_env ''P'' ''s'' demo_idl_empty 0 [WsFrame 2 (FText ''n'') None, WsEnd] demo_open w1 =
      (Some (Inl (Disconnect 4)), next_tick w4)"
    by (subst stream_events.simps) (use h in \<open>simp add: l n demo_full_transaction e2\<close>)
  obtain w5 where "set_state ?env ''P'' ''catching_up'' (Some 4) (next_tick (next_tick w4)) = (Inr (), w5)" "demo_ready w5"
    using demo_ready_state [of "next_tick (next_tick w4)" "''P''" "''catching_up''" "Some 4"] w4(2) by auto
  then show ?thesis using l w1 e1 by (simp add: stream_once_def)
qed

lemma demo_ready_finish:
  "demo_ready w \<Longrightarrow> demo_ready (writer_finish (sv_pipe demo_reconnect_env) w)"
  using writer_finish_effect [of "sv_pipe demo_reconnect_env" w]
  by (auto simp: demo_ready_def writer_finish_def Let_def increment_indexer_counters_def split: option.splits if_splits sum.splits)

lemma demo_ready_mini:
  assumes "demo_ready w"
  shows "\<exists>w'. mini_backfill (sv_pipe demo_reconnect_env) ''P'' ''s'' demo_idl_empty 4 w = (Inr (), w') \<and> demo_ready w'"
proof -
  let ?env = "sv_pipe demo_reconnect_env"
  let ?w1 = "(next_tick w)\<lparr> pw_stats := incr_rpc_retry (pw_stats w), pw_chan := channel_new ''P'', pw_progress := progress_new 5 9 \<rparr>"
  let ?st = "incr_rpc_retry (incr_rpc_retry (incr_rpc_retry (pw_stats w)))"
  define run where "run = decode_block (\<lambda>_. []) id False ''P'' (demo_block 5) demo_idl_empty (pw_decoder w) ?st"
  have cache: "cache_ok (pw_decoder w) demo_idl_empty" using assms by (simp add: demo_ready_def)
  have "dr_decoded run = dr_decoded (decode_block (\<lambda>_. []) id False ''P'' (demo_block 5) demo_idl_empty chainparser_new ?st)"
    using decode_block_decoded(1) [OF cache] decode_block_decoded(1) [OF cache_ok_new [of demo_idl_empty]] by (simp add: run_def)
  then have ne: "dr_decoded run \<noteq> []" by (simp add: demo_decode)
  let ?b = "block_batch ''s'' ''catchup'' (demo_block 5) (dr_decoded run)"
  let ?w2 = "(next_tick (next_tick (next_tick ?w1)))\<lparr> pw_decoder := dr_decoder run, pw_stats := dr_stats run,
      pw_chan := (channel_new ''P'')\<lparr> ch_queue := [?b] \<rparr>, pw_progress := note_block 5 (length (dr_decoded run)) (progress_new 5 9) \<rparr>"
  have l: "\<not> pw_cancelled w" using assms by (simp add: demo_ready_def)
  have chunks: "run_chunks ?env ''P'' ''s'' demo_idl_empty ''catchup'' False [(5, 9)] ?w1 = (Inr (), ?w2)"
    by (simp add: l process_chunk_def demo_full_blocks demo_full_block run_def [symmetric] ne chan_send_def send_permit_def channel_new_def
        set_chan_def Let_def)
  let ?w3 = "next_tick (set_chan ((pw_chan ?w2)\<lparr> ch_sender_dropped := True \<rparr>) ?w2)"
  have "cache_ok (dr_decoder run) demo_idl_empty" using decode_block_decoded(2) [OF cache] by (simp add: run_def)
  then have "demo_ready (set_chan ((pw_chan ?w3)\<lparr> ch_queue := [] \<rparr>) ?w3)" using assms by (simp add: demo_ready_def set_chan_def)
  then obtain r w4 where w4: "write_batch_now ?env ?b (set_chan ((pw_chan ?w3)\<lparr> ch_queue := [] \<rparr>) ?w3) = (Inr r, w4)" "demo_ready w4"
      "pw_chan w4 = (pw_chan ?w3)\<lparr> ch_queue := [] \<rparr>"
    using demo_ready_write [of _ ?b "''S''"] by (fastforce simp: demo_batch char_count_def set_chan_def)
  let ?w5 = "set_chan (add_totals r (pw_chan w4)) w4"
  have t1: "writer_task ?env ?w3 = ?w5"
    using w4(1,3) by (simp add: writer_task_def writer_recv_def set_chan_def channel_new_def Let_def)
  have t2: "writer_task ?env ?w5 = writer_finish ?env ?w5"
    by (simp add: writer_task_def writer_recv_def set_chan_def channel_new_def add_totals_def w4(3))
  have j: "join_writer ?env ?w2 = (Inr (), writer_finish ?env ?w5)"
    using t1 t2 by (simp add: join_writer_def set_chan_def channel_new_def writer_finish_effect)
  have "mini_backfill ?env ''P'' ''s'' demo_idl_empty 4 w = (Inr (), writer_finish ?env ?w5)"
    using chunks j by (simp add: mini_backfill_def demo_full_slot saturating_add_def backfill_chunks_through_def demo_chunks_gap)
  then show ?thesis using demo_ready_finish [of ?w5] w4(2) by simp
qed

lemma demo_ready_waits:
  assumes "demo_ready w"
  shows "\<exists>w'. stream_once demo_reconnect_env ''P'' ''s'' demo_idl_empty [] demo_open w = (Inl None, w') \<and> demo_ready w'"
proof -
  obtain w1 where w1: "set_state (sv_pipe demo_reconnect_env) ''P'' ''streaming'' None (next_tick w) = (Inr (), w1)" "demo_ready w1"
    using demo_ready_state [of "next_tick w" "''P''" "''streaming''" None] assms by auto
  have l: "\<not> pw_cancelled w" "\<not> pw_cancelled w1" using assms w1(2) by (simp_all add: demo_ready_def)
  have "stream_events demo_reconnect_env ''P'' ''s'' demo_idl_empty 0 [] demo_open w1 = (None, next_tick w1)"
    by (subst stream_events.simps) (simp add: l demo_open_waits)
  then show ?thesis using l w1 by (simp add: stream_once_def)
qed

theorem run_streaming_durable_witness:
  "\<exists>w'. run_streaming demo_reconnect_env ''P'' ''s'' demo_idl_empty (demo_session [WsFrame 2 (FText ''n'') None, WsEnd])
        [(demo_session [], [])] demo_pipe = (None, w') \<and>
     tx_keys (sv_pipe demo_reconnect_env) ''P'' demo_idl_empty (Some demo_stream_tx) \<subseteq> db_keys ''s'' (pw_db w') \<and>
     decoded_keys (sv_pipe demo_reconnect_env) ''P'' demo_idl_empty (Some (demo_block 5)) \<subseteq> db_keys ''s'' (pw_db w')"
proof -
  let ?in = "[WsFrame 2 (FText ''n'') None, WsEnd]" and ?env = "sv_pipe demo_reconnect_env"
  have r0: "demo_ready demo_pipe" by (simp add: demo_ready_def demo_pipe_def demo_db_def)
  obtain w1 where w1: "stream_once demo_reconnect_env ''P'' ''s'' demo_idl_empty ?in demo_open demo_pipe = (Inr 4, w1)" "demo_ready w1"
    using demo_ready_once [OF r0] by blast
  obtain w2 where w2: "mini_backfill ?env ''P'' ''s'' demo_idl_empty 4 w1 = (Inr (), w2)" "demo_ready w2"
    using demo_ready_mini [OF w1(2)] by blast
  obtain w3 where w3: "stream_once demo_reconnect_env ''P'' ''s'' demo_idl_empty [] demo_open w2 = (Inl None, w3)" "demo_ready w3"
    using demo_ready_waits [OF w2(2)] by blast
  have run: "run_streaming demo_reconnect_env ''P'' ''s'' demo_idl_empty (demo_session ?in) [(demo_session [], [])] demo_pipe = (None, w3)"
    using w1(1) w2(1) w3(1) by (simp add: run_streaming_def demo_connect)
  let ?x = "(session_now demo_reconnect_env ''P'' ''s'' demo_idl_empty ?in demo_open demo_pipe)\<lparr> ss_lost := Some (4, w1) \<rparr>"
  have ses: "?x \<in> set (sessions demo_reconnect_env ''P'' ''s'' demo_idl_empty [(demo_session [], [])] ?in demo_open demo_pipe)"
    using w1(1) w2(1) by (simp add: demo_connect)
  have rows: "session_rows demo_reconnect_env ''P'' ''s'' demo_idl_empty (\<lambda>k. k = 3 \<or> k = 5)
      (\<lambda>k. Some (demo_block (of_nat k))) (pw_db w3) ?x"
  proof (rule run_streaming_durable [OF demo_full_honest _ demo_connect _ run, THEN bspec, OF _ _ _ _ ses])
    show "\<not> pw_cancelled w3" "cache_ok (pw_decoder demo_pipe) demo_idl_empty"
      using w3(2) r0 by (simp_all add: demo_ready_def)
  qed simp_all
  have "(demo_event, Some (Inr (Some demo_stream_tx))) \<in> set (ss_log ?x)"
  proof -
    obtain s' where "ws_next (sv_ws demo_reconnect_env) ?in demo_open = (Some (Inr demo_event), s', [WsEnd])"
      using demo_open_next by blast
    then show ?thesis by (simp add: session_log_def, subst fetches.simps) (simp add: wanted_def demo_full_transaction Let_def)
  qed
  then have "tx_keys ?env ''P'' demo_idl_empty (Some demo_stream_tx) \<subseteq> db_keys ''s'' (pw_db w3)"
    using rows by (fastforce simp: session_rows_def fetch_rows_def Let_def)
  moreover have "\<forall>k. (k = 3 \<or> k = 5) \<and> 4 < k \<and> k \<le> 9 \<longrightarrow>
      decoded_keys ?env ''P'' demo_idl_empty (Some (demo_block (of_nat k))) \<subseteq> db_keys ''s'' (pw_db w3)"
    using rows by (simp add: session_rows_def demo_full_slot Let_def) (elim conjE)
  from this [rule_format, of 5] have "decoded_keys ?env ''P'' demo_idl_empty (Some (demo_block 5)) \<subseteq> db_keys ''s'' (pw_db w3)" by simp
  ultimately show ?thesis using run by blast
qed

end
