(* ===== verification/Snapshot_Correct.thy ===== *)
theory Snapshot_Correct
  imports Reconnect_Correct
begin

text \<open>
  Correctness of the account snapshot: every account of the program that decodes ends up in the
  table of its type with the state of the snapshot, unless the table had a state at least as new.
\<close>

section \<open>Rows of the account tables\<close>

text \<open>What an account state makes of the row of its key: the row as it was when it is at least as new, the state otherwise.\<close>

definition settled :: "decoded_account \<Rightarrow> account_row option \<Rightarrow> account_row option \<Rightarrow> bool" where
  "settled a old new =
     (case old of
        Some r \<Rightarrow> if sint (da_slot_updated a) \<le> ar_slot_updated r then new = old
                   else (\<exists>r'. new = Some r' \<and> ar_slot_updated r' = sint (da_slot_updated a) \<and>
                          ar_lamports r' = sint (da_lamports a) \<and> ar_data r' = da_data a)
      | None \<Rightarrow> \<exists>r'. new = Some r' \<and> ar_slot_updated r' = sint (da_slot_updated a) \<and>
                  ar_lamports r' = sint (da_lamports a) \<and> ar_data r' = da_data a)"

definition rows_settled ::
  "decoded_account list \<Rightarrow> (string \<Rightarrow> string \<Rightarrow> account_row option) \<Rightarrow> (string \<Rightarrow> string \<Rightarrow> account_row option) \<Rightarrow> bool" where
  "rows_settled as f g =
     ((\<forall>tn k. (\<forall>a \<in> set as. (table_of a, da_pubkey a) \<noteq> (tn, k)) \<longrightarrow> g tn k = f tn k) \<and>
      (\<forall>a \<in> set as. settled a (f (table_of a) (da_pubkey a)) (g (table_of a) (da_pubkey a))))"

lemma newest_rows_settled:
  assumes "newest_rows (set as) f g" and "distinct (map da_pubkey as)"
  shows "rows_settled as f g"
  unfolding rows_settled_def
proof (intro conjI allI impI ballI)
  fix tn k
  assume "\<forall>a \<in> set as. (table_of a, da_pubkey a) \<noteq> (tn, k)"
  then have "states_for (set as) tn k = {}" by (auto simp: states_for_def)
  then show "g tn k = f tn k" using assms(1) by (metis newest_rows_def newest_row_empty)
next
  fix a
  assume a: "a \<in> set as"
  have "states_for (set as) (table_of a) (da_pubkey a) = {a}"
    using a assms(2) unfolding states_for_def by (auto simp: distinct_map dest: inj_onD)
  then have "newest_row {a} (f (table_of a) (da_pubkey a)) (g (table_of a) (da_pubkey a))"
    using assms(1) by (metis newest_rows_def)
  then show "settled a (f (table_of a) (da_pubkey a)) (g (table_of a) (da_pubkey a))"
    by (auto simp: newest_row_def settled_def newer_def state_row_def split: option.splits)
qed

lemma rows_settled_empty: "rows_settled [] f g \<longleftrightarrow> g = f"
  by (auto simp: rows_settled_def fun_eq_iff)

lemma rows_settled_other: "rows_settled as f g \<Longrightarrow> k \<notin> da_pubkey ` set as \<Longrightarrow> g tn k = f tn k"
  unfolding rows_settled_def by (metis image_eqI prod.inject)

lemma rows_settled_append:
  assumes "rows_settled as f g" and "rows_settled bs g h" and "distinct (map da_pubkey (as @ bs))"
  shows "rows_settled (as @ bs) f h"
proof -
  have "h (table_of a) (da_pubkey a) = g (table_of a) (da_pubkey a)" if "a \<in> set as" for a
    using that assms(3) by (intro rows_settled_other [OF assms(2)]) auto
  moreover have "g (table_of b) (da_pubkey b) = f (table_of b) (da_pubkey b)" if "b \<in> set bs" for b
    using that assms(3) by (intro rows_settled_other [OF assms(1)]) auto
  ultimately show ?thesis using assms(1,2) by (auto simp: rows_settled_def)
qed

lemma write_batch_now_rows:
  assumes "some_order (pe_hash_order env)" and "distinct (map da_pubkey (wb_accounts b))" and "write_batch_now env b w = (r, w')"
  shows "rows_settled (case r of Inl _ \<Rightarrow> [] | Inr _ \<Rightarrow> if wb_schema_name b = sn then wb_accounts b else [])
    (row_at (db_schemas (pw_db w) sn)) (row_at (db_schemas (pw_db w') sn))"
proof -
  obtain sw db where wb: "write_block (pe_faults env (pw_tick w)) (pe_pg_eval env) (pe_hash_order env)
            (wb_schema_name b) (wb_stream b) (wb_instructions b) (wb_accounts b) (wb_slot b) (wb_signature b)
            (pw_writer w) (pw_db w) = (r, sw, db)" "pw_db w' = db"
    using assms(3) by (auto simp: write_batch_now_def split: prod.splits)
  show ?thesis
  proof (cases r)
    case (Inl e)
    then show ?thesis using write_block_Inl wb by (fastforce simp: rows_settled_empty)
  next
    case (Inr x)
    note wr = newest_rows_settled [OF write_block_accounts(1) [OF wb(1) [unfolded Inr] assms(1)] assms(2)]
    show ?thesis using wr write_block_Inr [OF wb(1) [unfolded Inr]] wb(2) Inr
      by (cases "wb_schema_name b = sn") (auto simp: rows_settled_empty)
  qed
qed

section \<open>The other tasks write no accounts\<close>

definition no_account_writers :: "pipe_env \<Rightarrow> bool" where
  "no_account_writers env = (\<forall>t b. EvOtherWrite b \<in> set (pe_events env t) \<longrightarrow> wb_accounts b = [])"

text \<open>The rows are \<open>f\<close> and the batches in the channel carry none.\<close>

definition rows_are :: "string \<Rightarrow> (string \<Rightarrow> string \<Rightarrow> account_row option) \<Rightarrow> pipe \<Rightarrow> bool" where
  "rows_are sn f w = (row_at (db_schemas (pw_db w) sn) = f \<and> (\<forall>b \<in> set (ch_queue (pw_chan w)). wb_accounts b = []))"

lemma rows_are_write:
  "some_order (pe_hash_order env) \<Longrightarrow> wb_accounts b = [] \<Longrightarrow> rows_are sn f w \<Longrightarrow> rows_are sn f (snd (write_batch_now env b w))"
  using write_batch_now_rows [of env b w "fst (write_batch_now env b w)" "snd (write_batch_now env b w)" sn]
    write_batch_now_effect(1) [of env b w "fst (write_batch_now env b w)" "snd (write_batch_now env b w)"]
  by (auto simp: rows_are_def rows_settled_empty split: sum.splits if_splits)

lemma rows_are_chan:
  "rows_are sn f w \<Longrightarrow> \<forall>b \<in> set (ch_queue c). wb_accounts b = [] \<Longrightarrow> rows_are sn f (set_chan c w)"
  by (simp add: rows_are_def set_chan_def)

lemma rows_are_queue: "rows_are sn f w \<Longrightarrow> b \<in> set (ch_queue (pw_chan w)) \<Longrightarrow> wb_accounts b = []"
  by (simp add: rows_are_def)

lemma rows_are_task:
  assumes "some_order (pe_hash_order env)" and "rows_are sn f w"
  shows "rows_are sn f (writer_task env w)"
proof (cases "ch_queue (pw_chan w)")
  case Nil
  then show ?thesis using assms(2)
    by (auto simp: writer_task_def writer_recv_def writer_drain_def rows_are_def writer_finish_effect split: task_state.splits)
next
  case (Cons b q)
  let ?w = "set_chan ((pw_chan w)\<lparr> ch_queue := q \<rparr>) w"
  obtain r w' where r: "write_batch_now env b ?w = (r, w')" by fastforce
  have q: "\<forall>x \<in> set (b # q). wb_accounts x = []" using assms(2) Cons by (simp add: rows_are_def)
  then have w': "rows_are sn f w'"
    using rows_are_write [OF assms(1), of b sn f ?w] rows_are_chan [OF assms(2), of "(pw_chan w)\<lparr> ch_queue := q \<rparr>"] r by simp
  then have "rows_are sn f (set_chan (add_totals x (pw_chan w')) w')"
      "rows_are sn f (set_chan ((pw_chan w')\<lparr> ch_queue := [], ch_task := d \<rparr>) w')" for x d
    by (auto intro!: rows_are_chan dest: rows_are_queue simp: add_totals_def)
  then show ?thesis using Cons r assms(2) w'
    by (simp add: writer_task_def writer_recv_def writer_drain_def Let_def split: task_state.splits sum.splits)
qed

lemma rows_are_event:
  assumes "some_order (pe_hash_order env)" and "\<And>b. e = EvOtherWrite b \<Longrightarrow> wb_accounts b = []" and "rows_are sn f w"
  shows "rows_are sn f (run_event env e w)"
proof (cases e)
  case EvWriter
  then show ?thesis using rows_are_task [OF assms(1,3)] by simp
next
  case EvWriterCancelled
  then show ?thesis using assms(3) by (simp add: writer_cancelled_def rows_are_def set_chan_def)
next
  case EvCancel
  then show ?thesis using assms(3) by (simp add: rows_are_def)
next
  case (EvOtherWrite b)
  then show ?thesis using rows_are_write [OF assms(1) _ assms(3), of b] assms(2) [of b] by simp
next
  case (EvOtherState pid status slot)
  obtain r w' where r: "set_state env pid status slot w = (r, w')" by fastforce
  then show ?thesis using EvOtherState assms(3) set_state_effect(1,3) [OF r] by (simp add: rows_are_def)
qed

lemma rows_are_await:
  assumes "some_order (pe_hash_order env)" and "no_account_writers env" and "rows_are sn f w"
  shows "rows_are sn f (await env w)"
proof -
  have "\<forall>b. EvOtherWrite b \<in> set es \<longrightarrow> wb_accounts b = [] \<Longrightarrow> rows_are sn f v \<Longrightarrow> rows_are sn f (fold (run_event env) es v)" for es v
  proof (induction es arbitrary: v)
    case (Cons e es)
    then have "rows_are sn f (run_event env e v)" using rows_are_event [OF assms(1), of e] by simp
    then show ?case using Cons by simp
  qed simp
  note evs = this
  have "\<forall>b. EvOtherWrite b \<in> set (pe_events env (pw_tick w)) \<longrightarrow> wb_accounts b = []"
    using assms(2) unfolding no_account_writers_def by blast
  moreover have "rows_are sn f (next_tick w)" using assms(3) unfolding rows_are_def by simp
  ultimately show ?thesis unfolding await_def by (rule evs)
qed

section \<open>The snapshot\<close>

text \<open>What an account decodes to, whatever the cache holds, with the slot and the balance of the snapshot.\<close>

definition account_state :: "pipe_env \<Rightarrow> string \<Rightarrow> idl \<Rightarrow> u64 \<Rightarrow> rpc_account_info \<Rightarrow> decoded_account option" where
  "account_state env p i slot info =
     (case fst (decode_account (pe_b58 env) (pe_sha256 env) chainparser_new p (rai_pubkey info) (rai_data info) i) of
        Inl e \<Rightarrow> None
      | Inr da \<Rightarrow> Some (da\<lparr> da_slot_updated := slot, da_lamports := rai_lamports info \<rparr>))"

lemma decode_account_ok:
  assumes "cache_ok dec i"
  shows "fst (decode_account b58 sha256 dec p k data i) = fst (decode_account b58 sha256 chainparser_new p k data i) \<and>
    cache_ok (snd (decode_account b58 sha256 dec p k data i)) i"
proof -
  obtain reg dec' where r: "get_or_build_registry dec i = (reg, dec')" by fastforce
  obtain reg2 dec2 where r2: "get_or_build_registry chainparser_new i = (reg2, dec2)" by fastforce
  have "reg = registry_from_idl i" "cache_ok dec' i" "reg2 = registry_from_idl i"
    using get_or_build_registry_ok [OF assms] get_or_build_registry_ok [OF cache_ok_new, of i] r r2 by auto
  then show ?thesis using assms by (simp add: decode_account_def r r2 Let_def split: sum.splits)
qed

lemma decode_accounts_states:
  assumes others: "some_order (pe_hash_order env)" "no_account_writers env"
  shows "decode_accounts env p i slot infos w = (x, w') \<Longrightarrow> cache_ok (pw_decoder w) i \<Longrightarrow> rows_are sn f w \<Longrightarrow>
    rows_are sn f w' \<and> (case x of None \<Rightarrow> pw_cancelled w' | Some das \<Rightarrow> das = List.map_filter (account_state env p i slot) infos)"
proof (induction infos arbitrary: w x)
  case (Cons info infos)
  let ?w0 = "await env w"
  have r0: "rows_are sn f ?w0" using rows_are_await [OF others Cons.prems(3)] .
  show ?case
  proof (cases "pw_cancelled ?w0")
    case True
    then show ?thesis using Cons.prems(1) r0 by (auto simp: Let_def)
  next
    case False
    obtain r dec where d: "decode_account (pe_b58 env) (pe_sha256 env) (pw_decoder ?w0) p (rai_pubkey info) (rai_data info) i = (r, dec)"
      by fastforce
    have ok: "cache_ok dec i" "r = fst (decode_account (pe_b58 env) (pe_sha256 env) chainparser_new p (rai_pubkey info) (rai_data info) i)"
      using decode_account_ok [of "pw_decoder ?w0" i "pe_b58 env" "pe_sha256 env" p "rai_pubkey info" "rai_data info"] Cons.prems(2) d
      by simp_all
    have keep: "rows_are sn f (?w0\<lparr> pw_decoder := dec \<rparr>)" "rows_are sn f (?w0\<lparr> pw_decoder := dec, pw_stats := st \<rparr>)" for st
      using r0 by (simp_all add: rows_are_def)
    show ?thesis
    proof (cases r)
      case (Inl e)
      then have rec: "decode_accounts env p i slot infos (?w0\<lparr> pw_decoder := dec, pw_stats := incr_decode_failure (pw_stats ?w0) \<rparr>) = (x, w')"
        using Cons.prems(1) d False by (simp add: Let_def)
      moreover have "account_state env p i slot info = None" using Inl by (simp add: account_state_def flip: ok(2))
      ultimately show ?thesis using Cons.IH [OF rec _ keep(2)] ok(1) by (simp add: map_filter_def split: option.splits)
    next
      case (Inr da)
      then obtain rest where rec: "decode_accounts env p i slot infos (?w0\<lparr> pw_decoder := dec \<rparr>) = (rest, w')"
        "x = map_option ((#) (da\<lparr> da_slot_updated := slot, da_lamports := rai_lamports info \<rparr>)) rest"
        using Cons.prems(1) d False by (auto simp: Let_def split: prod.splits)
      moreover have "account_state env p i slot info = Some (da\<lparr> da_slot_updated := slot, da_lamports := rai_lamports info \<rparr>)"
        using Inr by (simp add: account_state_def flip: ok(2))
      ultimately show ?thesis using Cons.IH [OF rec(1) _ keep(1)] ok(1) by (auto simp: map_filter_def split: option.splits)
    qed
  qed
qed (simp add: map_filter_def)

text \<open>When nothing else runs, the loop changes neither the database nor the writer and is not cancelled.\<close>

lemma decode_accounts_quiet:
  assumes "\<And>w. await env w = next_tick w"
  shows "decode_accounts env p i slot infos w = (x, w') \<Longrightarrow> \<not> pw_cancelled w \<Longrightarrow>
    x \<noteq> None \<and> pw_db w' = pw_db w \<and> pw_writer w' = pw_writer w \<and> \<not> pw_cancelled w'"
proof (induction infos arbitrary: w x)
  case (Cons info infos)
  obtain r dec where d: "decode_account (pe_b58 env) (pe_sha256 env) (pw_decoder w) p (rai_pubkey info) (rai_data info) i = (r, dec)"
    by fastforce
  then obtain y v where "decode_accounts env p i slot infos v = (y, w')" "pw_db v = pw_db w" "pw_writer v = pw_writer w" "\<not> pw_cancelled v"
    "y \<noteq> None \<longrightarrow> x \<noteq> None"
    using Cons.prems by (cases r) (auto simp: assms Let_def split: prod.splits)
  then show ?case using Cons.IH by auto
qed simp

lemma account_state_pubkey: "account_state env p i slot info = Some a \<Longrightarrow> da_pubkey a = rai_pubkey info"
  by (auto simp: account_state_def decode_account_def account_from_decoded_def resR Let_def
      split: sum.splits prod.splits if_splits)

lemma account_keys_distinct:
  "distinct (map rai_pubkey infos) \<Longrightarrow> distinct (map da_pubkey (List.map_filter (account_state env p i slot) infos))"
proof (induction infos)
  case (Cons info infos)
  have "da_pubkey ` set (List.map_filter (account_state env p i slot) infos) \<subseteq> rai_pubkey ` set infos"
    by (force simp: map_filter_def dest: account_state_pubkey)
  moreover have "rai_pubkey info \<notin> rai_pubkey ` set infos" using Cons.prems by simp
  ultimately have "rai_pubkey info \<notin> da_pubkey ` set (List.map_filter (account_state env p i slot) infos)" by blast
  then show ?case using Cons by (auto simp: List.map_filter_simps dest: account_state_pubkey split: option.splits)
qed (simp add: map_filter_def)

lemma write_account_batches_rows:
  assumes "some_order (pe_hash_order env)" and "no_account_writers env"
  shows "write_account_batches env sn slot batches w = (Inr u, w') \<Longrightarrow> rows_are sn f w \<Longrightarrow>
    distinct (map da_pubkey (concat batches)) \<Longrightarrow> \<exists>g. rows_are sn g w' \<and> rows_settled (concat batches) f g"
proof (induction batches arbitrary: w f)
  case Nil
  then show ?case by (auto simp: rows_settled_empty)
next
  case (Cons as batches)
  let ?b = "\<lparr> wb_schema_name = sn, wb_stream = ''accounts'', wb_instructions = [], wb_accounts = as, wb_slot = slot, wb_signature = None \<rparr>"
  obtain x w1 where w1: "write_batch_now env ?b (await env w) = (Inr x, w1)" and rest: "write_account_batches env sn slot batches w1 = (Inr u, w')"
    using Cons.prems(1) by (auto split: prod.splits sum.splits)
  have r0: "rows_are sn f (await env w)" using rows_are_await [OF assms Cons.prems(2)] .
  have d: "distinct (map da_pubkey as)" using Cons.prems(3) by simp
  let ?g = "row_at (db_schemas (pw_db w1) sn)"
  have s1: "rows_settled as f ?g" using write_batch_now_rows [OF assms(1) _ w1, of sn] d r0 by (simp add: rows_are_def)
  have "rows_are sn ?g w1" using r0 write_batch_now_effect(1) [OF w1] by (simp add: rows_are_def)
  from Cons.IH [OF rest this] Cons.prems(3)
  obtain h where h: "rows_are sn h w'" "rows_settled (concat batches) ?g h" by auto
  then show ?case using rows_settled_append [OF s1 h(2)] Cons.prems(3) by auto
qed

text \<open>C13. The account snapshot is complete: when it returns without error and uncancelled, every account that
  the node lists for the program and that decodes by the IDL is in the table of its type, with the
  slot of the snapshot, its balance and its decoded data, unless the row of that key was already at
  least as new, in which case that row is kept; and no other row of any account table has changed.
  This holds for any number of batches and account types and under every schedule of the other
  tasks, which write no accounts.\<close>

theorem account_snapshot_complete:
  assumes run: "run_account_snapshot env p sn i w = (Inr u, w')" and live: "\<not> pw_cancelled w'"
    and keys: "\<And>t st. fst (get_program_accounts (pe_rpc env t) p st) = Inr pubkeys"
    and slot: "\<And>t st. fst (get_slot (pe_rpc env t) st) = Inr slot"
    and infos: "\<And>t st. fst (get_multiple_accounts (pe_rpc env t) pubkeys st) = Inr infos"
    and sane: "distinct (map rai_pubkey infos)" "pubkeys = [] \<longrightarrow> infos = []"
    and others: "some_order (pe_hash_order env)" "no_account_writers env" "\<forall>b \<in> set (ch_queue (pw_chan w)). wb_accounts b = []"
    and cache: "cache_ok (pw_decoder w) i"
  shows "rows_settled (List.map_filter (account_state env p i slot) infos)
    (row_at (db_schemas (pw_db w) sn)) (row_at (db_schemas (pw_db w') sn))"
proof -
  let ?f = "row_at (db_schemas (pw_db w) sn)"
  have r0: "rows_are sn ?f w" using others(3) by (simp add: rows_are_def)
  note aw = rows_are_await [OF others(1,2)]
  have upd: "rows_are sn ?f (v\<lparr> pw_stats := st \<rparr>) = rows_are sn ?f v" for v st by (simp add: rows_are_def)
  obtain r1 st1 where g1: "get_program_accounts (pe_rpc env (pw_tick w)) p (pw_stats (await env w)) = (r1, st1)" by fastforce
  then have r1: "r1 = Inr pubkeys" using keys by (metis fst_conv)
  let ?w2 = "(await env w)\<lparr> pw_stats := st1 \<rparr>"
  show ?thesis
  proof (cases "pubkeys = []")
    case True
    then have "w' = ?w2" using run g1 r1 by (simp add: run_account_snapshot_def)
    then show ?thesis using aw [OF r0] sane(2) True by (simp add: rows_are_def map_filter_def rows_settled_empty)
  next
    case False
    obtain r2 st2 where g2: "get_slot (pe_rpc env (pw_tick ?w2)) (pw_stats (await env ?w2)) = (r2, st2)" by fastforce
    then have r2: "r2 = Inr slot" using slot by (metis fst_conv)
    let ?w4 = "(await env ?w2)\<lparr> pw_stats := st2 \<rparr>"
    obtain r3 st3 where g3: "get_multiple_accounts (pe_rpc env (pw_tick ?w4)) pubkeys (pw_stats (await env ?w4)) = (r3, st3)" by fastforce
    then have r3: "r3 = Inr infos" using infos by (metis fst_conv)
    let ?w6 = "(await env ?w4)\<lparr> pw_stats := st3 \<rparr>"
    have w6: "rows_are sn ?f ?w6" "cache_ok (pw_decoder ?w6) i" using aw upd r0 cache by simp_all
    obtain x w7 where d: "decode_accounts env p i slot infos ?w6 = (x, w7)" by fastforce
    note ds = decode_accounts_states [OF others(1,2) d w6(2,1)]
    have "run_account_snapshot env p sn i w = (case x of None \<Rightarrow> (Inr (), w7)
        | Some das \<Rightarrow> write_account_batches env sn slot (list_chunks ACCOUNT_WRITE_BATCH das) w7)"
      using g1 r1 False g2 r2 g3 r3 d by (simp add: run_account_snapshot_def Let_def)
    then obtain das where das: "x = Some das" and wr: "write_account_batches env sn slot (list_chunks ACCOUNT_WRITE_BATCH das) w7 = (Inr u, w')"
      using run live ds by (cases x) auto
    have w7: "rows_are sn ?f w7" and ds: "das = List.map_filter (account_state env p i slot) infos" using ds das by simp_all
    have "distinct (map da_pubkey (concat (list_chunks ACCOUNT_WRITE_BATCH das)))"
      using account_keys_distinct [OF sane(1)] ds by (simp add: concat_list_chunks)
    from write_account_batches_rows [OF others(1,2) wr w7 this]
    obtain g where "rows_are sn g w'" "rows_settled das ?f g" by (auto simp: concat_list_chunks)
    then show ?thesis using ds by (simp add: rows_are_def)
  qed
qed

text \<open>A node that lists two accounts: a vault whose counter is 5, and one of an unknown type.\<close>

definition demo_vault_idl :: idl where
  "demo_vault_idl = demo_idl_empty\<lparr> idl_accounts := [\<lparr> acct_name = ''vault'', acct_discriminator = [9] \<rparr>],
     idl_types := [\<lparr> td_name = ''vault'', td_serialization = Borsh, td_generics = [],
       td_ty = TdStruct (Some (Named [\<lparr> fld_name = ''n'', fld_ty = TyU8 \<rparr>])) \<rparr>] \<rparr>"

definition demo_account_node :: rpc_env where
  "demo_account_node = demo_node\<lparr> re_pubkeys := \<lambda>_. Inr [''a'', ''c''],
     re_accounts := \<lambda>_. Inr [Some \<lparr> rac_data = [[CHR 0x09, CHR 0x05]], rac_lamports = 30, rac_owner = ''P'' \<rparr>,
                             Some \<lparr> rac_data = [[CHR 0x08]], rac_lamports = 1, rac_owner = ''P'' \<rparr>] \<rparr>"

definition demo_account_env :: pipe_env where
  "demo_account_env = demo_pipe_env\<lparr> pe_rpc := \<lambda>_. demo_account_node \<rparr>"

definition demo_account_pipe :: pipe where
  "demo_account_pipe = demo_pipe\<lparr> pw_db := demo_db\<lparr> db_schemas := [''s'' \<mapsto> \<lparr>
     ps_accounts = [''vault'' \<mapsto> \<lparr> at_columns = [], at_rows = Map.empty \<rparr>], ps_instructions = [], ps_next_id = 1,
     ps_metadata = Map.empty, ps_checkpoints = Map.empty \<rparr>] \<rparr> \<rparr>"

definition demo_infos :: "rpc_account_info list" where
  "demo_infos = [\<lparr> rai_pubkey = ''a'', rai_data = [9, 5], rai_lamports = 30, rai_owner = ''P'' \<rparr>,
                 \<lparr> rai_pubkey = ''c'', rai_data = [8], rai_lamports = 1, rai_owner = ''P'' \<rparr>]"

definition demo_vault :: decoded_account where
  "demo_vault = (account_from_decoded ''P'' ''vault'' ''a'' (JObj [(''n'', JInt 5)]))\<lparr> da_slot_updated := 9, da_lamports := 30 \<rparr>"

lemma demo_account_request: "rpc_request demo_account_node m params st = (Inr params, incr_rpc_retry st)"
  by (simp add: rpc_request_def demo_account_node_def demo_node_def demo_rpc_def send_rpc_request_def is_retryable_def
      is_success_status_def demo_params)

lemma demo_account_answers:
  "get_program_accounts demo_account_node p st = (Inr [''a'', ''c''], incr_rpc_retry st)"
  "get_slot demo_account_node st = (Inr 9, incr_rpc_retry st)"
  "get_multiple_accounts demo_account_node [''a'', ''c''] st = (Inr demo_infos, incr_rpc_retry st)"
  by (simp_all add: get_program_accounts_def get_slot_def get_multiple_accounts_def batch_pubkeys_def demo_account_request demo_infos_def)
    (simp_all add: demo_account_node_def demo_node_def demo_rpc_def decode_base64_account_data_def as_bytes_def byte_of_char_def
      MAX_MULTIPLE_ACCOUNTS_BATCH_def)

lemma demo_vault_decodes:
  "fst (decode_account (\<lambda>_. []) id chainparser_new ''P'' ''a'' [9, 5] demo_vault_idl) =
     Inr (account_from_decoded ''P'' ''vault'' ''a'' (JObj [(''n'', JInt 5)]))"
  by (simp add: decode_account_def demo_vault_idl_def demo_idl_empty_def find_account_with_fallback_def find_account_def
      disc_matches_def disc_len_def get_or_build_registry_def chainparser_new_def registry_from_idl_def registry_resolve_def
      check_serialization_def ensure_bytes_def Let_def ok_orR_def decode_typedef.simps decode_struct_fields.simps decode_type.simps
      MAX_DECODE_DEPTH_def read_u8_def read_le_def checked_add_def usize_bound_def)

lemma demo_other_fails: "\<exists>e. fst (decode_account (\<lambda>_. []) id chainparser_new ''P'' ''c'' [8] demo_vault_idl) = Inl e"
  by (simp add: decode_account_def demo_vault_idl_def demo_idl_empty_def find_account_with_fallback_def find_account_def
      disc_matches_def disc_len_def)

lemma demo_account_states: "List.map_filter (account_state demo_account_env ''P'' demo_vault_idl 9) demo_infos = [demo_vault]"
  using demo_other_fails
  by (auto simp: List.map_filter_simps demo_infos_def account_state_def demo_account_env_def demo_vault_decodes demo_vault_def)

lemma demo_snapshot_runs:
  "\<exists>w'. run_account_snapshot demo_account_env ''P'' ''s'' demo_vault_idl demo_account_pipe = (Inr (), w') \<and> \<not> pw_cancelled w'"
proof -
  let ?env = demo_account_env
  have env: "pe_rpc ?env t = demo_account_node" "await ?env w = next_tick w" for t w
    by (simp_all add: demo_account_env_def demo_pipe_env_def await_def)
  have faults: "pe_faults ?env t = (\<lambda>_. None)" "pe_hash_order ?env = id" for t
    by (simp_all add: demo_account_env_def demo_pipe_env_def)
  define w6 where "w6 = (next_tick (next_tick (next_tick demo_account_pipe)))\<lparr> pw_stats := incr_rpc_retry (incr_rpc_retry (incr_rpc_retry runtime_stats_new)) \<rparr>"
  obtain x w7 where d: "decode_accounts ?env ''P'' demo_vault_idl 9 demo_infos w6 = (x, w7)" by fastforce
  have ord: "some_order (pe_hash_order ?env)" "no_account_writers ?env"
    by (simp_all add: some_order_def no_account_writers_def demo_account_env_def demo_pipe_env_def)
  have "rows_are ''s'' (row_at (db_schemas (pw_db w6) ''s'')) w6"
    by (simp add: rows_are_def w6_def demo_account_pipe_def demo_pipe_def channel_new_def)
  from decode_accounts_states [OF ord d _ this] decode_accounts_quiet [OF env(2) d]
  have d': "x = Some [demo_vault]" "pw_db w7 = pw_db demo_account_pipe" "\<not> pw_cancelled w7" "pw_writer w7 = storage_writer_new"
    using demo_account_states by (auto simp: w6_def demo_account_pipe_def demo_pipe_def cache_ok_new)
  have "list_chunks ACCOUNT_WRITE_BATCH [demo_vault] = [[demo_vault]]"
    by (simp add: ACCOUNT_WRITE_BATCH_def)
  then have "\<exists>w'. write_account_batches ?env ''s'' 9 (list_chunks ACCOUNT_WRITE_BATCH [demo_vault]) w7 = (Inr (), w') \<and> \<not> pw_cancelled w'"
    using d' by (simp add: env faults write_batch_now_def write_block_def write_instructions_def write_accounts_inner_def
      get_or_discover_promoted_def discover_promoted_columns_def demo_account_pipe_def demo_vault_def account_from_decoded_def
      demo_vault_table write_accounts_batch_def upsert_account_def update_checkpoint_def
      storage_writer_new_def promoted_values_def Let_def)
  then show ?thesis
    using d d'(1) by (simp add: run_account_snapshot_def env demo_account_answers w6_def demo_account_pipe_def demo_pipe_def Let_def)
qed

theorem account_snapshot_complete_witness:
  "\<exists>w' r. run_account_snapshot demo_account_env ''P'' ''s'' demo_vault_idl demo_account_pipe = (Inr (), w') \<and>
     row_at (db_schemas (pw_db w') ''s'') ''vault'' ''a'' = Some r \<and>
     ar_slot_updated r = 9 \<and> ar_lamports r = 30 \<and> ar_data r = JObj [(''n'', JInt 5)]"
proof -
  obtain w' where w': "run_account_snapshot demo_account_env ''P'' ''s'' demo_vault_idl demo_account_pipe = (Inr (), w')"
    "\<not> pw_cancelled w'" using demo_snapshot_runs by (elim exE conjE) (rule that)
  have env: "pe_rpc demo_account_env t = demo_account_node" for t by (simp add: demo_account_env_def)
  have "rows_settled (List.map_filter (account_state demo_account_env ''P'' demo_vault_idl 9) demo_infos)
      (row_at (db_schemas (pw_db demo_account_pipe) ''s'')) (row_at (db_schemas (pw_db w') ''s''))"
  proof (rule account_snapshot_complete [OF w'])
    show "fst (get_program_accounts (pe_rpc demo_account_env t) ''P'' st) = Inr [''a'', ''c'']" for t st
      by (simp add: env demo_account_answers)
    show "fst (get_slot (pe_rpc demo_account_env t) st) = Inr 9" for t st by (simp add: env demo_account_answers)
    show "fst (get_multiple_accounts (pe_rpc demo_account_env t) [''a'', ''c''] st) = Inr demo_infos" for t st
      by (simp add: env demo_account_answers)
    show "distinct (map rai_pubkey demo_infos)" by (simp add: demo_infos_def)
    show "some_order (pe_hash_order demo_account_env)" by (simp add: some_order_def demo_account_env_def demo_pipe_env_def)
    show "no_account_writers demo_account_env" by (simp add: no_account_writers_def demo_account_env_def demo_pipe_env_def)
    show "cache_ok (pw_decoder demo_account_pipe) demo_vault_idl" by (simp add: demo_account_pipe_def demo_pipe_def cache_ok_new)
  qed (simp_all add: demo_account_pipe_def demo_pipe_def channel_new_def)
  then show ?thesis using w'(1) unfolding demo_account_states
    by (simp add: rows_settled_def settled_def demo_vault_def account_from_decoded_def demo_vault_table row_at_def
        demo_account_pipe_def)
qed

end
