(* ===== verification/Registry.thy ===== *)
theory Registry
  imports Writer Idl_Manager
begin

text \<open>
  Program registration (\<open>src/registry.rs\<close>): the IDL is resolved into the cache and copied out, then
  the rows of \<open>programs\<close> and \<open>indexer_state\<close> are written in one transaction, the schema is
  generated, its metadata seeded and the status moved on.

  \<open>re_fault\<close> says which statements fail and with which text, \<open>re_ddl\<close> is PostgreSQL executing the
  generated DDL, \<open>re_seed_fault\<close> and \<open>re_now\<close> are the parameters of \<open>seed_metadata\<close>, and
  \<open>re_others k\<close> is what the other tasks do to the database while phase two waits for the k-th
  time. A transaction works on a copy of the database that is dropped unless the commit succeeds.
\<close>

record program_info =
  pi_program_id :: string
  pi_program_name :: string
  pi_schema_name :: string
  pi_idl_hash :: string
  pi_idl_source :: string
  pi_status :: string

datatype registration_error =
    RegIdl idl_error
  | AlreadyRegistered string
  | DatabaseError string
  | SchemaFailed storage_error

fun show_registration_error :: "registration_error \<Rightarrow> string" where
  "show_registration_error (RegIdl e) = ''IDL error: '' @ show_idl_error e"
| "show_registration_error (AlreadyRegistered p) = ''program '' @ p @ '' is already registered''"
| "show_registration_error (DatabaseError s) = ''database error: '' @ s"
| "show_registration_error (SchemaFailed e) = ''schema generation failed: '' @ show_storage_error e"

record registration_data =
  rd_program_id :: string
  rd_program_name :: string
  rd_schema_name :: string
  rd_idl_hash :: string
  rd_idl_source :: string
  rd_idl :: idl
  rd_idl_json :: string
  rd_was_cached :: bool

record program_registry =
  reg_idl_manager :: idl_manager

definition program_registry_new :: "idl_manager \<Rightarrow> program_registry" where
  "program_registry_new m = \<lparr> reg_idl_manager = m \<rparr>"

section \<open>Phase one: the cache\<close>

definition prepare_registration ::
  "idl_env \<Rightarrow> string \<Rightarrow> string option \<Rightarrow> program_registry \<Rightarrow>
   (registration_error + registration_data) \<times> program_registry" where
  "prepare_registration env program_id idl_json reg =
     (let was_cached = (get_cached (reg_idl_manager reg) program_id \<noteq> None);
          uploaded = (case idl_json of
                        Some js \<Rightarrow>
                          if \<not> was_cached then
                            bindR (map_errR RegIdl (upload_idl env (reg_idl_manager reg) program_id js))
                              (\<lambda>(_, m). Inr (reg\<lparr> reg_idl_manager := m \<rparr>))
                          else Inr reg
                      | None \<Rightarrow> if \<not> was_cached then Inl (RegIdl (NotFound program_id)) else Inr reg)
      in case uploaded of
           Inl e \<Rightarrow> (Inl e, reg)
         | Inr reg' \<Rightarrow>
             (case get_cached_entry (reg_idl_manager reg') program_id of
                None \<Rightarrow> (Inl (RegIdl (NotFound program_id)), reg')
              | Some cached \<Rightarrow>
                  (let program_name = idl_metadata_name (ce_idl cached)
                   in (Inr \<lparr> rd_program_id = program_id, rd_program_name = program_name,
                             rd_schema_name = derive_schema_name program_name program_id,
                             rd_idl_hash = ce_hash cached, rd_idl_source = idl_source_as_str (ce_source cached),
                             rd_idl = ce_idl cached, rd_idl_json = ce_raw_json cached,
                             rd_was_cached = was_cached \<rparr>, reg'))))"

definition rollback_cache :: "string \<Rightarrow> program_registry \<Rightarrow> program_registry" where
  "rollback_cache program_id reg = reg\<lparr> reg_idl_manager := remove_cached (reg_idl_manager reg) program_id \<rparr>"

definition remove_program :: "string \<Rightarrow> program_registry \<Rightarrow> program_registry" where
  "remove_program program_id reg = reg\<lparr> reg_idl_manager := remove_cached (reg_idl_manager reg) program_id \<rparr>"

definition registry_get_idl :: "program_registry \<Rightarrow> string \<Rightarrow> idl option" where
  "registry_get_idl reg program_id = get_cached (reg_idl_manager reg) program_id"

section \<open>Phase two: the database\<close>

datatype reg_stmt =
    RBegin | RInsertProgram | RInsertState | RCommit | RSetStatus string
  | RMarkBegin | RMarkProgram | RMarkState | RMarkCommit

record reg_env =
  re_fault :: "reg_stmt \<Rightarrow> string option"
  re_ddl :: "string \<Rightarrow> database \<Rightarrow> string + database"
  re_seed_fault :: "nat \<Rightarrow> string option"
  re_now :: string
  re_others :: "nat \<Rightarrow> database \<Rightarrow> database"

definition too_long :: "nat \<Rightarrow> string" where
  "too_long n = ''error returned from database: value too long for type character varying('' @ show_nat n @ '')''"

definition schema_name_taken :: "string \<Rightarrow> database \<Rightarrow> bool" where
  "schema_name_taken schema_name db = (\<exists>r \<in> ran (db_programs db). pr_schema_name r = schema_name)"

text \<open>
  \<open>INSERT INTO "programs" ... ON CONFLICT ("program_id") DO NOTHING\<close>, with the number of rows: the
  widths of the columns are checked first, a row of the same program is left alone, and the schema
  name has a unique index of its own.
\<close>

definition insert_program :: "string \<Rightarrow> program_row \<Rightarrow> database \<Rightarrow> string + nat \<times> database" where
  "insert_program program_id row db =
     (if 44 < char_count program_id then Inl (too_long 44)
      else if pr_idl_hash row \<noteq> None \<and> 64 < char_count (the (pr_idl_hash row)) then Inl (too_long 64)
      else if db_programs db program_id \<noteq> None then Inr (0, db)
      else if schema_name_taken (pr_schema_name row) db then
        Inl (''error returned from database: duplicate key value violates unique constraint '' @
             dq ''programs_schema_name_key'')
      else Inr (1, db\<lparr> db_programs := (db_programs db)(program_id \<mapsto> row) \<rparr>))"

text \<open>\<open>INSERT INTO "indexer_state"\<close>: the primary key and the reference to \<open>programs\<close>.\<close>

definition insert_indexer_row :: "string \<Rightarrow> indexer_row \<Rightarrow> database \<Rightarrow> string + database" where
  "insert_indexer_row program_id row db =
     (if db_indexer_state db program_id \<noteq> None then
        Inl (''error returned from database: duplicate key value violates unique constraint '' @ dq ''indexer_state_pkey'')
      else if db_programs db program_id = None then
        Inl (''error returned from database: insert or update on table '' @ dq ''indexer_state'' @
             '' violates foreign key constraint '' @ dq ''indexer_state_program_id_fkey'')
      else Inr (db\<lparr> db_indexer_state := (db_indexer_state db)(program_id \<mapsto> row) \<rparr>))"

definition or_fault :: "string option \<Rightarrow> string + 'a \<Rightarrow> string + 'a" where
  "or_fault f r = (case f of Some e \<Rightarrow> Inl e | None \<Rightarrow> r)"

definition write_registration ::
  "reg_env \<Rightarrow> registration_data \<Rightarrow> database \<Rightarrow> registration_error + database" where
  "write_registration env d db =
     bindR (map_errR DatabaseError (or_fault (re_fault env RBegin) (Inr ()))) (\<lambda>_.
     bindR (map_errR DatabaseError (or_fault (re_fault env RInsertProgram)
              (insert_program (rd_program_id d)
                 \<lparr> pr_program_name = rd_program_name d, pr_schema_name = rd_schema_name d,
                   pr_idl_hash = Some (rd_idl_hash d), pr_idl_source = Some (rd_idl_source d),
                   pr_idl_json = Some (rd_idl_json d), pr_status = ''registered'' \<rparr> db))) (\<lambda>(affected, tx).
     if affected = 0 then Inl (AlreadyRegistered (rd_program_id d))
     else
     bindR (map_errR DatabaseError (or_fault (re_fault env RInsertState)
              (insert_indexer_row (rd_program_id d)
                 \<lparr> st_status = ''initializing'', st_last_processed_slot = None, st_error_message = None,
                   st_total_instructions = 0, st_total_accounts = 0 \<rparr> tx))) (\<lambda>tx'.
     map_errR DatabaseError (or_fault (re_fault env RCommit) (Inr tx')))))"

definition set_program_status :: "string \<Rightarrow> string \<Rightarrow> database \<Rightarrow> database" where
  "set_program_status program_id status db =
     db\<lparr> db_programs := (db_programs db)(program_id :=
           map_option (\<lambda>r. r\<lparr> pr_status := status \<rparr>) (db_programs db program_id)) \<rparr>"

definition update_program_status ::
  "reg_env \<Rightarrow> string \<Rightarrow> string \<Rightarrow> database \<Rightarrow> (registration_error + unit) \<times> database" where
  "update_program_status env program_id status db =
     (case re_fault env (RSetStatus status) of
        Some e \<Rightarrow> (Inl (DatabaseError e), db)
      | None \<Rightarrow> (Inr (), set_program_status program_id status db))"

definition mark_program_error ::
  "reg_env \<Rightarrow> string \<Rightarrow> string \<Rightarrow> database \<Rightarrow> (registration_error + unit) \<times> database" where
  "mark_program_error env program_id error_message db =
     (case bindR (or_fault (re_fault env RMarkBegin) (Inr ())) (\<lambda>_.
           bindR (or_fault (re_fault env RMarkProgram) (Inr (set_program_status program_id ''error'' db))) (\<lambda>tx.
           bindR (or_fault (re_fault env RMarkState)
                    (Inr (tx\<lparr> db_indexer_state := (db_indexer_state tx)(program_id :=
                       map_option (\<lambda>r. r\<lparr> st_status := ''error'', st_error_message := Some error_message \<rparr>)
                         (db_indexer_state tx program_id)) \<rparr>))) (\<lambda>tx'.
           or_fault (re_fault env RMarkCommit) (Inr tx')))) of
        Inl e \<Rightarrow> (Inl (DatabaseError e), db)
      | Inr db' \<Rightarrow> (Inr (), db'))"

definition commit_registration ::
  "reg_env \<Rightarrow> registration_data \<Rightarrow> database \<Rightarrow> (registration_error + program_info) \<times> database" where
  "commit_registration env d db =
     (case write_registration env d db of
        Inl e \<Rightarrow> (Inl e, db)
      | Inr db1 \<Rightarrow>
          (case generate_schema (re_ddl env) (rd_idl d) (rd_schema_name d) (re_others env 0 db1) of
             (Inl e, db2) \<Rightarrow>
               (Inl (SchemaFailed e), snd (update_program_status env (rd_program_id d) ''error'' (re_others env 1 db2)))
           | (Inr _, db2) \<Rightarrow>
               (let db3 = snd (seed_metadata (re_seed_fault env) (re_now env) (rd_idl d) (rd_program_id d)
                                 (rd_idl_hash d) (rd_schema_name d) (re_others env 1 db2))
                in case update_program_status env (rd_program_id d) ''schema_created'' (re_others env 2 db3) of
                     (Inr _, db4) \<Rightarrow>
                       (Inr \<lparr> pi_program_id = rd_program_id d, pi_program_name = rd_program_name d,
                              pi_schema_name = rd_schema_name d, pi_idl_hash = rd_idl_hash d,
                              pi_idl_source = rd_idl_source d, pi_status = ''schema_created'' \<rparr>, db4)
                   | (Inl e, db4) \<Rightarrow>
                       (Inl (DatabaseError (show_registration_error e)),
                        snd (update_program_status env (rd_program_id d) ''error'' (re_others env 3 db4))))))"

end
