(* ===== verification/Api_Error.thy ===== *)
theory Api_Error
  imports Registry
begin

text \<open>
  The errors of the HTTP interface and their answers (\<open>src/api/mod.rs\<close>). An answer is a status
  code and a JSON body. The request-id and tracing layers of the router only add headers and log
  lines and are left out.
\<close>

datatype api_error =
    InvalidFilter string "string list"
  | ProgramNotFound string
  | ProgramAlreadyRegistered string
  | ApiQueryFailed string
  | InvalidRequest string
  | IdlError string
  | InvalidValue string
  | InstructionNotFound string
  | AccountTypeNotFound string
  | AccountNotFound string
  | StorageError string

type_synonym response = "nat \<times> json"

definition error_body :: "string \<Rightarrow> string \<Rightarrow> json" where
  "error_body code message =
     json_obj [(''error'', json_obj [(''code'', JStr code), (''message'', JStr message)])]"

fun into_response :: "api_error \<Rightarrow> response" where
  "into_response (ProgramNotFound i) =
     (404, error_body ''PROGRAM_NOT_FOUND'' (''Program '' @ sq i @ '' is not registered''))"
| "into_response (ProgramAlreadyRegistered i) =
     (409, error_body ''PROGRAM_ALREADY_REGISTERED'' (''Program '' @ sq i @ '' is already registered''))"
| "into_response (InvalidFilter message available_fields) =
     (400, json_obj [(''error'', json_obj [(''code'', JStr ''INVALID_FILTER''), (''message'', JStr message),
        (''available_fields'', JArr (map JStr available_fields))])])"
| "into_response (InvalidRequest msg) = (400, error_body ''INVALID_REQUEST'' msg)"
| "into_response (InvalidValue msg) = (400, error_body ''INVALID_VALUE'' msg)"
| "into_response (InstructionNotFound name) =
     (404, error_body ''INSTRUCTION_NOT_FOUND'' (''Instruction '' @ sq name @ '' not found in IDL''))"
| "into_response (AccountTypeNotFound name) =
     (404, error_body ''ACCOUNT_TYPE_NOT_FOUND'' (''Account type '' @ sq name @ '' not found in IDL''))"
| "into_response (AccountNotFound key) =
     (404, error_body ''ACCOUNT_NOT_FOUND'' (''Account '' @ sq key @ '' not found''))"
| "into_response (IdlError msg) = (422, error_body ''IDL_ERROR'' msg)"
| "into_response (StorageError msg) = (500, error_body ''STORAGE_ERROR'' ''Internal storage error'')"
| "into_response (ApiQueryFailed msg) = (500, error_body ''QUERY_FAILED'' ''Query execution failed'')"

fun api_error_of :: "registration_error \<Rightarrow> api_error" where
  "api_error_of (AlreadyRegistered i) = ProgramAlreadyRegistered i"
| "api_error_of (RegIdl e) = IdlError (show_idl_error e)"
| "api_error_of (DatabaseError msg) = StorageError msg"
| "api_error_of (SchemaFailed e) = StorageError (show_storage_error e)"

end
