(* ===== verification/Filters.thy ===== *)
theory Filters
  imports Api_Error
begin

text \<open>
  Query parameters to filters (\<open>src/api/filters.rs\<close>). A \<open>HashMap\<close> of parameters is the list of its
  entries in the order it is iterated, with distinct keys.
\<close>

type_synonym params = "(string \<times> string) list"

datatype filter_op = OpEq | OpNe | OpGt | OpGte | OpLt | OpLte | OpContains | OpIn

fun as_sql :: "filter_op \<Rightarrow> string" where
  "as_sql OpEq = ''=''"
| "as_sql OpNe = ''!=''"
| "as_sql OpGt = ''>''"
| "as_sql OpGte = ''>=''"
| "as_sql OpLt = ''<''"
| "as_sql OpLte = ''<=''"
| "as_sql OpContains = ''@>''"
| "as_sql OpIn = ''= ANY''"

definition OPERATOR_SUFFIXES :: "(string \<times> filter_op) list" where
  "OPERATOR_SUFFIXES =
     [(''_contains'', OpContains), (''_gte'', OpGte), (''_lte'', OpLte), (''_gt'', OpGt), (''_lt'', OpLt),
      (''_eq'', OpEq), (''_ne'', OpNe), (''_in'', OpIn)]"

definition RESERVED_PARAMS :: "string list" where
  "RESERVED_PARAMS = [''limit'', ''offset'', ''cursor'', ''sort'', ''order'']"

record parsed_filter =
  pf_field :: string
  pf_op :: filter_op
  pf_value :: string

datatype column_expr = Promoted string "string option" | Jsonb string

record resolved_filter =
  rf_column_expr :: column_expr
  rf_op :: filter_op
  rf_value :: string

text \<open>The loop over the suffixes.\<close>

fun match_suffix :: "string \<Rightarrow> (string \<times> filter_op) list \<Rightarrow> string \<times> filter_op" where
  "match_suffix key [] = (key, OpEq)"
| "match_suffix key ((suf, op) # rest) =
     (case strip_suffix suf key of
        Some field \<Rightarrow> if field \<noteq> [] then (field, op) else match_suffix key rest
      | None \<Rightarrow> match_suffix key rest)"

definition extract_field_and_op :: "string \<Rightarrow> string \<times> filter_op" where
  "extract_field_and_op key = match_suffix key OPERATOR_SUFFIXES"

fun parse_filters :: "params \<Rightarrow> parsed_filter list" where
  "parse_filters [] = []"
| "parse_filters ((key, val) # params) =
     (if key \<in> set RESERVED_PARAMS then parse_filters params
      else let (field, op) = extract_field_and_op key
           in if field \<noteq> [] then \<lparr> pf_field = field, pf_op = op, pf_value = val \<rparr> # parse_filters params
              else parse_filters params)"

definition INSTRUCTION_FIXED_COLUMNS :: "(string \<times> string) list" where
  "INSTRUCTION_FIXED_COLUMNS =
     [(''slot'', ''BIGINT''), (''signature'', ''TEXT''), (''block_time'', ''BIGINT''),
      (''instruction_name'', ''TEXT''), (''instruction_index'', ''SMALLINT''), (''is_inner_ix'', ''BOOLEAN'')]"

definition ACCOUNT_FIXED_COLUMNS :: "(string \<times> string) list" where
  "ACCOUNT_FIXED_COLUMNS =
     [(''pubkey'', ''TEXT''), (''slot_updated'', ''BIGINT''), (''lamports'', ''BIGINT''), (''is_closed'', ''BOOLEAN'')]"

definition fixed_column_pg_type :: "string \<Rightarrow> (string \<times> string) list \<Rightarrow> string option" where
  "fixed_column_pg_type name columns = map_option snd (find (\<lambda>(c, _). c = name) columns)"

datatype filter_context = CtxInstructions | CtxAccounts

definition fixed_columns :: "filter_context \<Rightarrow> (string \<times> string) list" where
  "fixed_columns context =
     (case context of CtxInstructions \<Rightarrow> INSTRUCTION_FIXED_COLUMNS | CtxAccounts \<Rightarrow> ACCOUNT_FIXED_COLUMNS)"

text \<open>One pass of the loop: the column of a filter, and the refusal of \<open>_contains\<close> on a promoted one.\<close>

definition resolve_column ::
  "idl_field list \<Rightarrow> idl_typedef list \<Rightarrow> filter_context \<Rightarrow> parsed_filter \<Rightarrow> api_error + column_expr" where
  "resolve_column flds types context f =
     (case fixed_column_pg_type (pf_field f) (fixed_columns context) of
        Some pg_type \<Rightarrow> Inr (Promoted (pf_field f) (Some pg_type))
      | None \<Rightarrow>
          (case find (\<lambda>fld. fld_name fld = pf_field f) flds of
             Some fld \<Rightarrow>
               (case map_idl_type_to_pg (fld_ty fld) types of
                  Some pg_type \<Rightarrow> Inr (Promoted (pf_field f) (Some pg_type))
                | None \<Rightarrow> Inr (Jsonb (pf_field f)))
           | None \<Rightarrow> Inl (InvalidFilter (''Unknown field '' @ sq (pf_field f))
                           (map fst (fixed_columns context) @ map fld_name flds))))"

definition is_promoted :: "column_expr \<Rightarrow> bool" where
  "is_promoted c = (case c of Promoted _ _ \<Rightarrow> True | Jsonb _ \<Rightarrow> False)"

definition resolve_filter ::
  "idl_field list \<Rightarrow> idl_typedef list \<Rightarrow> filter_context \<Rightarrow> parsed_filter \<Rightarrow> api_error + resolved_filter" where
  "resolve_filter flds types context f =
     bindR (resolve_column flds types context f) (\<lambda>column_expr.
       if pf_op f = OpContains \<and> is_promoted column_expr then
         Inl (InvalidFilter (''Operator '' @ sq ''_contains'' @ '' is not supported on column '' @ sq (pf_field f)) [])
       else Inr \<lparr> rf_column_expr = column_expr, rf_op = pf_op f, rf_value = pf_value f \<rparr>)"

definition resolve_filters ::
  "parsed_filter list \<Rightarrow> idl_field list \<Rightarrow> idl_typedef list \<Rightarrow> filter_context \<Rightarrow> api_error + resolved_filter list" where
  "resolve_filters parsed flds types context = collectR (resolve_filter flds types context) parsed"

end
