(* ===== verification/Queries.thy ===== *)
theory Queries
  imports Filters
begin

text \<open>
  The query builder (\<open>src/storage/queries.rs\<close>). A \<open>QueryBuilder\<close> is the list of what was pushed onto
  it: SQL text and bound values; sqlx numbers the placeholders.
\<close>

datatype bind_value = BindText string | BindTexts "string list" | BindInt int | BindJson json

datatype query_piece = Push string | PushBind bind_value

type_synonym query_builder = "query_piece list"

datatype query_target = TInstructions string | TAccounts string string

section \<open>Text helpers\<close>

text \<open>
  \<open>char::is_whitespace\<close>: the UTF-8 encodings of the characters with the White_Space property.
\<close>

definition utf8_bytes :: "nat list \<Rightarrow> string" where
  "utf8_bytes bs = map char_of bs"

definition whitespace :: "string list" where
  "whitespace = map utf8_bytes
     ([[9], [10], [11], [12], [13], [32], [0xC2, 0x85], [0xC2, 0xA0], [0xE1, 0x9A, 0x80]] @
      map (\<lambda>k. [0xE2, 0x80, k]) [0x80, 0x81, 0x82, 0x83, 0x84, 0x85, 0x86, 0x87, 0x88, 0x89, 0x8A, 0xA8, 0xA9, 0xAF] @
      [[0xE2, 0x81, 0x9F], [0xE3, 0x80, 0x80]])"

definition strip_one :: "string list \<Rightarrow> string \<Rightarrow> string" where
  "strip_one ws s = (case find (\<lambda>w. prefix w s) ws of Some w \<Rightarrow> drop (length w) s | None \<Rightarrow> s)"

text \<open>\<open>str::trim\<close>: a string of n bytes has at most n characters to strip at either end.\<close>

definition trim :: "string \<Rightarrow> string" where
  "trim s =
     (let front = (strip_one whitespace ^^ length s) s
      in rev ((strip_one (map rev whitespace) ^^ length front) (rev front)))"

fun split_char :: "char \<Rightarrow> string \<Rightarrow> string list" where
  "split_char sep [] = [[]]"
| "split_char sep (c # cs) =
     (if c = sep then [] # split_char sep cs
      else case split_char sep cs of [] \<Rightarrow> [[c]] | w # ws \<Rightarrow> (c # w) # ws)"

definition in_values :: "string \<Rightarrow> string list" where
  "in_values v = filter (\<lambda>s. s \<noteq> []) (map trim (split_char CHR '','' v))"

definition escape_jsonb_key :: "string \<Rightarrow> string" where
  "escape_jsonb_key key = replace_char CHR 0x27 [CHR 0x27, CHR 0x27] key"

section \<open>Clauses\<close>

definition data_text :: "string \<Rightarrow> string" where
  "data_text field = dq ''data'' @ ''->>'' @ sq (escape_jsonb_key field)"

fun append_filter_clause :: "(string \<Rightarrow> string + json) \<Rightarrow> query_builder \<Rightarrow> resolved_filter \<Rightarrow> query_builder" where
  "append_filter_clause from_str qb f =
     (case rf_column_expr f of
        Promoted column pg_type \<Rightarrow>
          if rf_op f = OpIn then
            (if in_values (rf_value f) = [] then qb @ [Push ''FALSE'']
             else qb @ [Push (quote_ident column @ ''::text = ANY(''), PushBind (BindTexts (in_values (rf_value f))), Push '')''])
          else qb @ [Push (quote_ident column @ '' '' @ as_sql (rf_op f) @ '' ''), PushBind (BindText (rf_value f))] @
                 (case pg_type of Some t \<Rightarrow> [Push (''::'' @ t)] | None \<Rightarrow> [])
      | Jsonb field \<Rightarrow>
          if rf_op f = OpEq \<or> rf_op f = OpContains then
            qb @ [Push (dq ''data'' @ '' @> ''),
                  PushBind (BindJson (JObj [(field,
                    case from_str (rf_value f) of Inr v \<Rightarrow> v | Inl _ \<Rightarrow> JStr (rf_value f))]))]
          else if rf_op f = OpIn then
            (if in_values (rf_value f) = [] then qb @ [Push ''FALSE'']
             else qb @ [Push (data_text field @ '' = ANY(''), PushBind (BindTexts (in_values (rf_value f))), Push '')''])
          else qb @ [Push (''('' @ data_text field @ '') '' @ as_sql (rf_op f) @ '' ''), PushBind (BindText (rf_value f))])"

fun append_filters ::
  "(string \<Rightarrow> string + json) \<Rightarrow> query_builder \<Rightarrow> bool \<Rightarrow> resolved_filter list \<Rightarrow> query_builder \<times> bool" where
  "append_filters from_str qb has_where [] = (qb, has_where)"
| "append_filters from_str qb has_where (f # fs) =
     append_filters from_str
       (append_filter_clause from_str (qb @ [Push (if has_where then '' AND '' else '' WHERE '')]) f) True fs"

definition comma_quoted :: "string list \<Rightarrow> string" where
  "comma_quoted cols = join '', '' (map dq cols)"

definition build_query_base ::
  "(string \<Rightarrow> string + json) \<Rightarrow> query_target \<Rightarrow> resolved_filter list \<Rightarrow> query_builder \<times> bool" where
  "build_query_base from_str target filters =
     (let (qualified_table, select_cols) =
            (case target of
               TInstructions schema \<Rightarrow>
                 (quote_ident schema @ ''.'' @ quote_ident ''_instructions'',
                  comma_quoted [''signature'', ''slot'', ''block_time'', ''instruction_name'', ''args'', ''accounts'', ''data''])
             | TAccounts schema table \<Rightarrow>
                 (quote_ident schema @ ''.'' @ quote_ident table,
                  comma_quoted [''pubkey'', ''slot_updated'', ''lamports'', ''data'']))
      in append_filters from_str [Push (''SELECT '' @ select_cols @ '' FROM '' @ qualified_table)] False filters)"

definition append_order_and_limit :: "query_builder \<Rightarrow> query_target \<Rightarrow> int \<Rightarrow> int \<Rightarrow> query_builder" where
  "append_order_and_limit qb target limit offset =
     qb @ [Push '' ORDER BY '',
           Push (case target of
                   TInstructions _ \<Rightarrow> dq ''slot'' @ '' DESC, '' @ dq ''signature'' @ '' DESC''
                 | TAccounts _ _ \<Rightarrow> dq ''slot_updated'' @ '' DESC''),
           Push '' LIMIT '', PushBind (BindInt limit)] @
     (if 0 < offset then [Push '' OFFSET '', PushBind (BindInt offset)] else [])"

definition build_query ::
  "(string \<Rightarrow> string + json) \<Rightarrow> query_target \<Rightarrow> resolved_filter list \<Rightarrow> int \<Rightarrow> int \<Rightarrow> query_builder" where
  "build_query from_str target filters limit offset =
     append_order_and_limit (fst (build_query_base from_str target filters)) target limit offset"

end
