(* ===== verification/Api_Programs.thy ===== *)
theory Api_Programs
  imports Api_Error
begin

text \<open>
  The program endpoints (\<open>src/api/handlers.rs\<close>): health, registration, listing and deletion.

  The handlers share the registry (behind a lock) and the database. \<open>ae_others k\<close> is what the other
  tasks do to them while a handler waits at its k-th lock or statement. \<open>ae_fault\<close> says which
  statements fail, \<open>ae_program_ids\<close> gives the rows of \<open>programs\<close> in the order a query returns them
  and \<open>ae_times\<close> the time columns of a row (creation, update, heartbeat) in RFC 3339.
\<close>

record api_world =
  aw_registry :: program_registry
  aw_db :: database

datatype api_stmt =
    QPing | QHealth | QList | QProgram | QSchemaName | QStop | QDropSchema | QDelBegin | QDelState | QDelProgram | QDelCommit

record api_env =
  ae_idl :: idl_env
  ae_reg :: reg_env
  ae_others :: "nat \<Rightarrow> api_world \<Rightarrow> api_world"
  ae_fault :: "api_stmt \<Rightarrow> string option"
  ae_program_ids :: "database \<Rightarrow> string list"
  ae_times :: "string \<Rightarrow> string \<times> string option \<times> string option"
  ae_join :: "string option"

record register_program_request =
  rq_program_id :: string
  rq_idl :: "json option"

definition json_opt :: "('a \<Rightarrow> json) \<Rightarrow> 'a option \<Rightarrow> json" where
  "json_opt f x = (case x of None \<Rightarrow> JNull | Some y \<Rightarrow> f y)"

definition validate_program_id :: "idl_env \<Rightarrow> string \<Rightarrow> api_error + unit" where
  "validate_program_id env program_id =
     (case env_parse_pubkey env program_id of
        Inl _ \<Rightarrow> Inl (InvalidRequest (''invalid program_id: '' @ sq program_id))
      | Inr _ \<Rightarrow> Inr ())"

section \<open>Health\<close>

definition health_row :: "api_env \<Rightarrow> database \<Rightarrow> string \<Rightarrow> json" where
  "health_row env db p =
     (let i = db_indexer_state db p
      in json_obj [(''program_id'', JStr p), (''status'', json_opt (JStr \<circ> st_status) i),
           (''last_processed_slot'', json_opt JInt (Option.bind i st_last_processed_slot)),
           (''last_heartbeat'', json_opt JStr (Option.bind i (\<lambda>_. snd (snd (ae_times env p))))),
           (''total_instructions'', JInt (case i of None \<Rightarrow> 0 | Some r \<Rightarrow> st_total_instructions r)),
           (''total_accounts'', JInt (case i of None \<Rightarrow> 0 | Some r \<Rightarrow> st_total_accounts r))])"

definition health :: "api_env \<Rightarrow> string \<Rightarrow> int \<Rightarrow> api_world \<Rightarrow> response" where
  "health env version uptime w =
     (let db_ok = (ae_fault env QPing = None);
          programs = (if db_ok \<and> ae_fault env QHealth = None
                      then JArr (map (health_row env (aw_db w)) (ae_program_ids env (aw_db w))) else JNull)
      in (if db_ok then 200 else 503,
          json_obj [(''status'', JStr (if db_ok then ''healthy'' else ''unhealthy'')),
            (''database'', JStr (if db_ok then ''connected'' else ''disconnected'')),
            (''uptime_seconds'', JInt uptime), (''version'', JStr version), (''programs'', programs)]))"

section \<open>Registration\<close>

definition idl_manager_of :: "api_world \<Rightarrow> idl_manager" where
  "idl_manager_of w = reg_idl_manager (aw_registry w)"

definition auto_fetch_idl :: "api_env \<Rightarrow> string \<Rightarrow> api_world \<Rightarrow> (api_error + bool) \<times> api_world" where
  "auto_fetch_idl env program_id w =
     (let w1 = ae_others env 0 w
      in if get_cached (idl_manager_of w1) program_id \<noteq> None then (Inr False, w1)
         else
           let (rpc_url, bundled) = fetch_params (idl_manager_of w1)
           in case fetch_idl_standalone (ae_idl env) rpc_url bundled program_id of
                Inl e \<Rightarrow> (Inl (IdlError (show_idl_error e)), w1)
              | Inr (idl_json, source) \<Rightarrow>
                  (let w2 = ae_others env 1 w1
                   in case insert_fetched_idl (ae_idl env) (idl_manager_of w2) program_id idl_json source of
                        Inl e \<Rightarrow> (Inl (IdlError (show_idl_error e)), w2)
                      | Inr (_, m) \<Rightarrow> (Inr True, w2\<lparr> aw_registry := (aw_registry w2)\<lparr> reg_idl_manager := m \<rparr> \<rparr>)))"

definition registered_response :: "program_info \<Rightarrow> response" where
  "registered_response i =
     (201, json_obj [(''data'', json_obj [(''program_id'', JStr (pi_program_id i)), (''status'', JStr ''schema_created''),
              (''idl_source'', JStr (pi_idl_source i))]),
            (''meta'', json_obj [(''message'', JStr ''Program registered. Indexing will begin on next restart.'')])])"

definition do_register ::
  "api_env \<Rightarrow> register_program_request \<Rightarrow> api_world \<Rightarrow> (api_error + response) \<times> api_world" where
  "do_register env body w =
     (case validate_program_id (ae_idl env) (rq_program_id body) of
        Inl e \<Rightarrow> (Inl e, w)
      | Inr _ \<Rightarrow>
          (let idl_json = map_option (env_to_string (ae_idl env)) (rq_idl body);
               (fetched, w1) = (if idl_json = None then auto_fetch_idl env (rq_program_id body) w else (Inr False, w))
           in case fetched of
                Inl e \<Rightarrow> (Inl e, w1)
              | Inr idl_was_auto_fetched \<Rightarrow>
                  (let w2 = ae_others env 2 w1;
                       (prepared, reg) = prepare_registration (ae_idl env) (rq_program_id body) idl_json (aw_registry w2);
                       w3 = w2\<lparr> aw_registry := reg \<rparr>
                   in case prepared of
                        Inl e \<Rightarrow> (Inl (api_error_of e), w3)
                      | Inr data \<Rightarrow>
                          (let w4 = ae_others env 3 w3;
                               (result, db) = commit_registration (ae_reg env) data (aw_db w4);
                               w5 = w4\<lparr> aw_db := db \<rparr>
                           in case result of
                                Inr program_info \<Rightarrow> (Inr (registered_response program_info), w5)
                              | Inl e \<Rightarrow>
                                  (Inl (api_error_of e),
                                   if \<not> rd_was_cached data \<or> idl_was_auto_fetched
                                   then (let w6 = ae_others env 4 w5
                                         in w6\<lparr> aw_registry := rollback_cache (rd_program_id data) (aw_registry w6) \<rparr>)
                                   else w5)))))"

text \<open>The handler spawns the registration; \<open>ae_join\<close> is the error of joining that task.\<close>

definition register_program ::
  "api_env \<Rightarrow> register_program_request \<Rightarrow> api_world \<Rightarrow> (api_error + response) \<times> api_world" where
  "register_program env body w =
     (let (r, w') = do_register env body w
      in (case ae_join env of Some e \<Rightarrow> Inl (StorageError (''task failed: '' @ e)) | None \<Rightarrow> r, w'))"

section \<open>Listing\<close>

definition list_row :: "api_env \<Rightarrow> database \<Rightarrow> string \<Rightarrow> json" where
  "list_row env db p =
     json_obj [(''program_id'', JStr p),
       (''program_name'', json_opt (JStr \<circ> pr_program_name) (db_programs db p)),
       (''status'', json_opt (JStr \<circ> pr_status) (db_programs db p)),
       (''created_at'', JStr (fst (ae_times env p)))]"

definition list_programs :: "api_env \<Rightarrow> api_world \<Rightarrow> api_error + response" where
  "list_programs env w =
     (case ae_fault env QList of
        Some e \<Rightarrow> Inl (ApiQueryFailed e)
      | None \<Rightarrow>
          (let ids = ae_program_ids env (aw_db w)
           in Inr (200, json_obj [(''data'', JArr (map (list_row env (aw_db w)) ids)),
                           (''meta'', json_obj [(''total'', JInt (int (length ids)))])])))"

definition get_program :: "api_env \<Rightarrow> string \<Rightarrow> api_world \<Rightarrow> api_error + response" where
  "get_program env pid w =
     bindR (validate_program_id (ae_idl env) pid) (\<lambda>_.
     bindR (map_errR ApiQueryFailed (or_fault (ae_fault env QProgram) (Inr (db_programs (aw_db w) pid)))) (\<lambda>found.
     bindR (ok_orR (ProgramNotFound pid) found) (\<lambda>row.
       let i = db_indexer_state (aw_db w) pid
       in Inr (200, json_obj [(''data'', json_obj [
            (''program_id'', JStr pid), (''program_name'', JStr (pr_program_name row)),
            (''schema_name'', JStr (pr_schema_name row)), (''idl_source'', json_opt JStr (pr_idl_source row)),
            (''idl_hash'', json_opt JStr (pr_idl_hash row)), (''status'', JStr (pr_status row)),
            (''created_at'', JStr (fst (ae_times env pid))),
            (''updated_at'', json_opt JStr (fst (snd (ae_times env pid)))),
            (''total_instructions'', JInt (case i of None \<Rightarrow> 0 | Some r \<Rightarrow> st_total_instructions r)),
            (''total_accounts'', JInt (case i of None \<Rightarrow> 0 | Some r \<Rightarrow> st_total_accounts r)),
            (''last_processed_slot'', json_opt JInt (Option.bind i st_last_processed_slot))])]))))"

section \<open>Deletion\<close>

definition drop_schema :: "string \<Rightarrow> database \<Rightarrow> database" where
  "drop_schema schema_name db = db\<lparr> db_schemas := (db_schemas db)(schema_name := None) \<rparr>"

text \<open>The schema is dropped on its own, the rows go in one transaction; other tasks may run between the two.\<close>

definition hard_delete :: "api_env \<Rightarrow> string \<Rightarrow> string \<Rightarrow> api_world \<Rightarrow> (api_error + unit) \<times> api_world" where
  "hard_delete env schema_name program_id w =
     (case ae_fault env QDropSchema of
        Some e \<Rightarrow> (Inl (StorageError e), w)
      | None \<Rightarrow>
          (let w1 = ae_others env 1 (w\<lparr> aw_db := drop_schema schema_name (aw_db w) \<rparr>)
           in case bindR (or_fault (ae_fault env QDelBegin) (Inr (aw_db w1))) (\<lambda>tx.
                   bindR (or_fault (ae_fault env QDelState)
                            (Inr (tx\<lparr> db_indexer_state := (db_indexer_state tx)(program_id := None) \<rparr>))) (\<lambda>tx.
                   bindR (or_fault (ae_fault env QDelProgram)
                            (Inr (tx\<lparr> db_programs := (db_programs tx)(program_id := None) \<rparr>))) (\<lambda>tx.
                   or_fault (ae_fault env QDelCommit) (Inr tx)))) of
                Inl e \<Rightarrow> (Inl (StorageError e), w1)
              | Inr db \<Rightarrow> (Inr (), w1\<lparr> aw_db := db \<rparr>)))"

definition deleted_response :: "string \<Rightarrow> string \<Rightarrow> bool \<Rightarrow> response" where
  "deleted_response pid action dropped =
     (200, json_obj [(''data'', json_obj [(''program_id'', JStr pid), (''action'', JStr action), (''drop_tables'', JBool dropped)])])"

definition delete_program ::
  "api_env \<Rightarrow> string \<Rightarrow> bool \<Rightarrow> api_world \<Rightarrow> (api_error + response) \<times> api_world" where
  "delete_program env pid drop_tables w =
     (case validate_program_id (ae_idl env) pid of
        Inl e \<Rightarrow> (Inl e, w)
      | Inr _ \<Rightarrow>
          if drop_tables then
            (case ae_fault env QSchemaName of
               Some e \<Rightarrow> (Inl (ApiQueryFailed e), w)
             | None \<Rightarrow>
                 (case db_programs (aw_db w) pid of
                    None \<Rightarrow> (Inl (ProgramNotFound pid), w)
                  | Some row \<Rightarrow>
                      (let w1 = ae_others env 0 w;
                           (r, w2) = hard_delete env (pr_schema_name row) pid w1
                       in case r of
                            Inl e \<Rightarrow> (Inl e, w2)
                          | Inr _ \<Rightarrow>
                              (let w3 = ae_others env 2 w2
                               in (Inr (deleted_response pid ''deleted'' True),
                                   w3\<lparr> aw_registry := remove_program pid (aw_registry w3) \<rparr>)))))
          else
            (case ae_fault env QStop of
               Some e \<Rightarrow> (Inl (StorageError e), w)
             | None \<Rightarrow>
                 if db_programs (aw_db w) pid = None then (Inl (ProgramNotFound pid), w)
                 else (Inr (deleted_response pid ''stopped'' False),
                       w\<lparr> aw_db := set_program_status pid ''stopped'' (aw_db w) \<rparr>)))"

end
