(* ===== verification/Api_Queries.thy ===== *)
theory Api_Queries
  imports Queries Api_Programs Config Decoder
begin

text \<open>
  The query endpoints (\<open>src/api/handlers.rs\<close>): pages of instructions by cursor, pages of accounts by
  offset, single accounts, counts per interval and program statistics.

  \<open>qe_instructions\<close>, \<open>qe_accounts\<close>, \<open>qe_count\<close> and \<open>qe_buckets\<close> stand for PostgreSQL running a built query,
  \<open>qe_encode\<close> and \<open>qe_decode\<close> for the standard base64 engine. \<open>qe_count_first\<close> says which of two
  failing concurrent queries fails first, \<open>qe_group_order\<close> in which order groups come back. A
  handler that panics is the value \<open>None\<close>.
\<close>

text \<open>A database error has an optional code; the text is what \<open>to_string\<close> gives.\<close>

datatype sqlx_error = SqlxDatabase "string option" string | SqlxOther string

fun show_sqlx_error :: "sqlx_error \<Rightarrow> string" where
  "show_sqlx_error (SqlxDatabase code s) = s"
| "show_sqlx_error (SqlxOther s) = s"

record query_env =
  qe_api :: api_env
  qe_config :: config
  qe_from_str :: "string \<Rightarrow> string + json"
  qe_encode :: "string \<Rightarrow> string"
  qe_decode :: "string \<Rightarrow> bytes option"
  qe_instructions :: "query_builder \<Rightarrow> database \<Rightarrow> sqlx_error + instruction_row list"
  qe_accounts :: "query_builder \<Rightarrow> database \<Rightarrow> sqlx_error + (string \<times> account_row) list"
  qe_count :: "string \<Rightarrow> database \<Rightarrow> sqlx_error + int"
  qe_count_first :: bool
  qe_buckets :: "query_builder \<Rightarrow> database \<Rightarrow> sqlx_error + (string \<times> int) list"
  qe_group_order :: "string list \<Rightarrow> string list"
  qe_account_fault :: "sqlx_error option"
  qe_state_fault :: "sqlx_error option"
  qe_stats_fault :: "sqlx_error option"
  qe_elapsed_ms :: int

section \<open>Pagination\<close>

definition clamp_limit :: "params \<Rightarrow> config \<Rightarrow> int" where
  "clamp_limit params cfg =
     (case Option.bind (Option.bind (map_of params ''limit'') parse_i64)
             (\<lambda>v. if v \<le> 0 then None else Some (min v (uint (cfg_api_max_page_size cfg)))) of
        Some v \<Rightarrow> v | None \<Rightarrow> uint (cfg_api_default_page_size cfg))"

definition clamp_offset :: "params \<Rightarrow> int" where
  "clamp_offset params =
     (case Option.bind (map_of params ''offset'') parse_i64 of Some v \<Rightarrow> max v 0 | None \<Rightarrow> 0)"

definition encode_cursor :: "query_env \<Rightarrow> int \<Rightarrow> string \<Rightarrow> string" where
  "encode_cursor env slot signature = qe_encode env (show_int slot @ ''_'' @ signature)"

definition decode_cursor :: "query_env \<Rightarrow> string \<Rightarrow> api_error + int \<times> string" where
  "decode_cursor env cursor =
     bindR (ok_orR (InvalidValue ''invalid cursor encoding'') (qe_decode env cursor)) (\<lambda>decoded.
     bindR (ok_orR (InvalidValue ''invalid cursor encoding'')
              (if utf8_error 0 decoded = None then Some (of_bytes decoded) else None)) (\<lambda>s.
     bindR (ok_orR (InvalidValue ''invalid cursor format'') (split_once CHR ''_'' s)) (\<lambda>(slot_str, sig).
     bindR (ok_orR (InvalidValue ''invalid cursor slot'') (parse_i64 slot_str)) (\<lambda>slot.
       Inr (slot, sig)))))"

section \<open>Shared helpers\<close>

definition map_query_error :: "sqlx_error \<Rightarrow> api_error" where
  "map_query_error e =
     (case e of
        SqlxDatabase (Some code) _ \<Rightarrow>
          if code = ''22P02'' \<or> code = ''22003'' \<or> code = ''22008'' then InvalidValue ''filter value type mismatch''
          else ApiQueryFailed (show_sqlx_error e)
      | _ \<Rightarrow> ApiQueryFailed (show_sqlx_error e))"

definition get_schema_name :: "api_env \<Rightarrow> database \<Rightarrow> string \<Rightarrow> api_error + string" where
  "get_schema_name env db program_id =
     bindR (map_errR ApiQueryFailed (or_fault (ae_fault env QSchemaName) (Inr (db_programs db program_id)))) (\<lambda>found.
     bindR (ok_orR (ProgramNotFound program_id) found) (\<lambda>row. Inr (pr_schema_name row)))"

definition get_account_fields :: "string \<Rightarrow> idl_typedef list \<Rightarrow> api_error + idl_field list" where
  "get_account_fields account_name types =
     bindR (ok_orR (AccountTypeNotFound account_name) (find (\<lambda>t. td_name t = account_name) types)) (\<lambda>type_def.
       Inr (case td_ty type_def of TdStruct (Some (Named named)) \<Rightarrow> named | _ \<Rightarrow> []))"

definition instruction_row_to_json :: "instruction_row \<Rightarrow> json" where
  "instruction_row_to_json row =
     json_obj [(''signature'', JStr (ir_signature row)), (''slot'', JInt (ir_slot row)),
       (''block_time'', json_opt JInt (ir_block_time row)), (''instruction_name'', JStr (ir_instruction_name row)),
       (''args'', ir_args row), (''accounts'', ir_accounts row), (''data'', ir_data row)]"

definition account_row_to_json :: "string \<Rightarrow> account_row \<Rightarrow> json" where
  "account_row_to_json pubkey row =
     json_obj [(''pubkey'', JStr pubkey), (''slot_updated'', JInt (ar_slot_updated row)),
       (''lamports'', JInt (ar_lamports row)), (''data'', ar_data row)]"

definition cached_idl_of :: "string \<Rightarrow> api_world \<Rightarrow> api_error + idl" where
  "cached_idl_of pid w = ok_orR (ProgramNotFound pid) (registry_get_idl (aw_registry w) pid)"

definition names_response :: "string \<Rightarrow> string list \<Rightarrow> response" where
  "names_response pid names =
     (200, json_obj [(''data'', JArr (map JStr names)),
        (''meta'', json_obj [(''program_id'', JStr pid), (''total'', JInt (int (length names)))])])"

section \<open>Instructions\<close>

definition list_instruction_types :: "api_env \<Rightarrow> string \<Rightarrow> api_world \<Rightarrow> api_error + response" where
  "list_instruction_types env pid w =
     bindR (validate_program_id (ae_idl env) pid) (\<lambda>_.
     bindR (cached_idl_of pid (ae_others env 0 w)) (\<lambda>i.
       Inr (names_response pid (map ix_name (idl_instructions i)))))"

definition append_cursor :: "query_builder \<Rightarrow> bool \<Rightarrow> int \<times> string \<Rightarrow> query_builder" where
  "append_cursor qb has_where c =
     qb @ [Push (if has_where then '' AND ('' else '' WHERE (''),
           Push (dq ''slot'' @ '' < ''), PushBind (BindInt (fst c)),
           Push ('' OR ('' @ dq ''slot'' @ '' = ''), PushBind (BindInt (fst c)),
           Push ('' AND '' @ dq ''signature'' @ '' < ''), PushBind (BindText (snd c)), Push ''))'']"

definition name_filter :: "string \<Rightarrow> resolved_filter" where
  "name_filter name = \<lparr> rf_column_expr = Promoted ''instruction_name'' (Some ''TEXT''), rf_op = OpEq, rf_value = name \<rparr>"

text \<open>The query of one page, from the resolved filters and the cursor parameter.\<close>

definition instructions_query ::
  "query_env \<Rightarrow> string \<Rightarrow> resolved_filter list \<Rightarrow> string option \<Rightarrow> int \<Rightarrow> api_error + query_builder" where
  "instructions_query env schema_name resolved cursor_param fetch_limit =
     (let target = TInstructions schema_name;
          (qb, has_where) = build_query_base (qe_from_str env) target resolved
      in bindR (case cursor_param of
                  None \<Rightarrow> Inr qb
                | Some cursor \<Rightarrow> bindR (decode_cursor env cursor) (\<lambda>c. Inr (append_cursor qb has_where c))) (\<lambda>qb'.
           Inr (append_order_and_limit qb' target fetch_limit 0)))"

definition instruction_rows ::
  "query_env \<Rightarrow> string \<Rightarrow> string \<Rightarrow> params \<Rightarrow> api_world \<Rightarrow> api_error + instruction_row list" where
  "instruction_rows env pid name params w =
     (let api = qe_api env; w1 = ae_others api 0 w; w2 = ae_others api 1 w1; w3 = ae_others api 2 w2
      in bindR (validate_program_id (ae_idl api) pid) (\<lambda>_.
         bindR (cached_idl_of pid w1) (\<lambda>i.
         bindR (ok_orR (InstructionNotFound name) (find (\<lambda>x. ix_name x = name) (idl_instructions i))) (\<lambda>instruction.
         bindR (resolve_filters (parse_filters params) (ix_args instruction) (idl_types i) CtxInstructions) (\<lambda>resolved.
         bindR (get_schema_name api (aw_db w2) pid) (\<lambda>schema_name.
         bindR (instructions_query env schema_name (resolved @ [name_filter name]) (map_of params ''cursor'')
                  (clamp_limit params (qe_config env) + 1)) (\<lambda>qb.
           map_errR map_query_error (qe_instructions env qb (aw_db w3)))))))))"

text \<open>The page of the rows that were fetched: at most \<open>limit\<close> of them, and whether there were more.\<close>

definition page_rows :: "int \<Rightarrow> 'r list \<Rightarrow> 'r list \<times> bool" where
  "page_rows limit rows =
     (let has_more = (limit < int (length rows)) in (if has_more then take (nat limit) rows else rows, has_more))"

definition query_instructions ::
  "query_env \<Rightarrow> string \<Rightarrow> string \<Rightarrow> params \<Rightarrow> api_world \<Rightarrow> (api_error + response) option" where
  "query_instructions env pid name params w =
     (case instruction_rows env pid name params w of
        Inl e \<Rightarrow> Some (Inl e)
      | Inr rows \<Rightarrow>
          (let limit = clamp_limit params (qe_config env);
               (result_rows, has_more) = page_rows limit rows
           in if has_more \<and> result_rows = [] then None
              else
                let next_cursor = (if has_more
                                   then Some (encode_cursor env (ir_slot (last result_rows)) (ir_signature (last result_rows)))
                                   else None)
                in Some (Inr (200, json_obj [
                     (''data'', JArr (map instruction_row_to_json result_rows)),
                     (''pagination'', json_obj [(''limit'', JInt limit), (''has_more'', JBool has_more),
                        (''next_cursor'', json_opt JStr next_cursor)]),
                     (''meta'', json_obj [(''program_id'', JStr pid), (''instruction'', JStr name),
                        (''query_time_ms'', JInt (qe_elapsed_ms env))])]))))"

section \<open>Accounts\<close>

definition list_account_types :: "api_env \<Rightarrow> string \<Rightarrow> api_world \<Rightarrow> api_error + response" where
  "list_account_types env pid w =
     bindR (validate_program_id (ae_idl env) pid) (\<lambda>_.
     bindR (cached_idl_of pid (ae_others env 0 w)) (\<lambda>i.
       Inr (names_response pid (map acct_name (idl_accounts i)))))"

text \<open>The page query and the count run concurrently; the first failure ends both.\<close>

definition try_join :: "bool \<Rightarrow> 'e + 'a \<Rightarrow> 'e + 'b \<Rightarrow> 'e + 'a \<times> 'b" where
  "try_join second_first a b =
     (case (a, b) of
        (Inr x, Inr y) \<Rightarrow> Inr (x, y)
      | (Inl e, Inl e') \<Rightarrow> Inl (if second_first then e' else e)
      | (Inl e, _) \<Rightarrow> Inl e
      | (_, Inl e) \<Rightarrow> Inl e)"

definition count_sql :: "string \<Rightarrow> string \<Rightarrow> string" where
  "count_sql schema_name table_name =
     ''SELECT COUNT(*) as count FROM '' @ quote_ident schema_name @ ''.'' @ quote_ident table_name"

definition query_accounts ::
  "query_env \<Rightarrow> string \<Rightarrow> string \<Rightarrow> params \<Rightarrow> api_world \<Rightarrow> api_error + response" where
  "query_accounts env pid account_type params w =
     (let api = qe_api env; w1 = ae_others api 0 w; w2 = ae_others api 1 w1; w3 = ae_others api 2 w2;
          limit = clamp_limit params (qe_config env); offset = clamp_offset params
      in bindR (validate_program_id (ae_idl api) pid) (\<lambda>_.
         bindR (cached_idl_of pid w1) (\<lambda>i.
         if \<not> list_ex (\<lambda>a. acct_name a = account_type) (idl_accounts i) then Inl (AccountTypeNotFound account_type)
         else
         bindR (get_account_fields account_type (idl_types i)) (\<lambda>flds.
         bindR (resolve_filters (parse_filters params) flds (idl_types i) CtxAccounts) (\<lambda>resolved.
         bindR (get_schema_name api (aw_db w2) pid) (\<lambda>schema_name.
         let table_name = sanitize_identifier account_type;
             qb = build_query (qe_from_str env) (TAccounts schema_name table_name) resolved (limit + 1) offset
         in bindR (try_join (qe_count_first env)
                     (map_errR map_query_error (qe_accounts env qb (aw_db w3)))
                     (map_errR map_query_error (qe_count env (count_sql schema_name table_name) (aw_db w3)))) (\<lambda>(rows, total).
            let (result_rows, has_more) = page_rows limit rows
            in Inr (200, json_obj [
                 (''data'', JArr (map (\<lambda>(k, r). account_row_to_json k r) result_rows)),
                 (''pagination'', json_obj [(''total'', JInt total), (''limit'', JInt limit), (''offset'', JInt offset),
                    (''has_more'', JBool has_more)]),
                 (''meta'', json_obj [(''program_id'', JStr pid), (''account_type'', JStr account_type),
                    (''query_time_ms'', JInt (qe_elapsed_ms env))])]))))))))"

text \<open>\<open>SELECT * ... WHERE "pubkey" = $1\<close>: the row of the primary key.\<close>

definition select_account :: "query_env \<Rightarrow> database \<Rightarrow> string \<Rightarrow> string \<Rightarrow> string \<Rightarrow> sqlx_error + account_row option" where
  "select_account env db schema_name table_name pubkey =
     (case Option.bind (db_schemas db schema_name) (\<lambda>ps. ps_accounts ps table_name) of
        None \<Rightarrow> Inl (SqlxDatabase (Some ''42P01'') (no_relation schema_name table_name))
      | Some t \<Rightarrow> (case qe_account_fault env of Some e \<Rightarrow> Inl e | None \<Rightarrow> Inr (at_rows t pubkey)))"

definition get_account ::
  "query_env \<Rightarrow> string \<Rightarrow> string \<Rightarrow> string \<Rightarrow> api_world \<Rightarrow> api_error + response" where
  "get_account env pid account_type pubkey w =
     (let api = qe_api env; w1 = ae_others api 0 w; w2 = ae_others api 1 w1; w3 = ae_others api 2 w2
      in bindR (validate_program_id (ae_idl api) pid) (\<lambda>_.
         bindR (cached_idl_of pid w1) (\<lambda>i.
         if \<not> list_ex (\<lambda>a. acct_name a = account_type) (idl_accounts i) then Inl (AccountTypeNotFound account_type)
         else
         bindR (get_schema_name api (aw_db w2) pid) (\<lambda>schema_name.
         bindR (map_errR map_query_error
                  (select_account env (aw_db w3) schema_name (sanitize_identifier account_type) pubkey)) (\<lambda>found.
         bindR (ok_orR (AccountNotFound pubkey) found) (\<lambda>row.
           Inr (200, json_obj [(''data'', account_row_to_json pubkey row)])))))))"

section \<open>Aggregates\<close>

definition VALID_INTERVALS :: "string list" where
  "VALID_INTERVALS = [''minute'', ''hour'', ''day'', ''week'', ''month'']"

definition validate_interval :: "params \<Rightarrow> api_error + string" where
  "validate_interval params =
     bindR (ok_orR (InvalidValue (sq ''interval'' @ '' parameter is required'')) (map_of params ''interval'')) (\<lambda>raw.
     ok_orR (InvalidValue (''invalid interval '' @ sq raw @ ''. Must be one of: minute, hour, day, week, month''))
       (find (\<lambda>v. v = raw) VALID_INTERVALS))"

definition parse_optional_i64 :: "params \<Rightarrow> string \<Rightarrow> api_error + int option" where
  "parse_optional_i64 params key =
     (case map_of params key of
        None \<Rightarrow> Inr None
      | Some v \<Rightarrow>
          bindR (ok_orR (InvalidValue (sq key @ '' must be a Unix timestamp integer'')) (parse_i64 v)) (\<lambda>i. Inr (Some i)))"

definition MAX_BUCKETS :: int where
  "MAX_BUCKETS = 10000"

definition opt_bind :: "string \<Rightarrow> int option \<Rightarrow> query_builder" where
  "opt_bind s v = (case v of None \<Rightarrow> [] | Some x \<Rightarrow> [Push s, PushBind (BindInt x)])"

definition count_query :: "string \<Rightarrow> string \<Rightarrow> string \<Rightarrow> int option \<Rightarrow> int option \<Rightarrow> query_builder" where
  "count_query interval schema_name name fro til =
     [Push ''SELECT date_trunc('', PushBind (BindText interval),
      Push ('', to_timestamp('' @ dq ''block_time'' @ '')) AS bucket, COUNT(*) AS count FROM ''),
      Push (quote_ident schema_name @ ''.'' @ quote_ident ''_instructions''),
      Push ('' WHERE '' @ dq ''instruction_name'' @ '' = ''), PushBind (BindText name),
      Push ('' AND '' @ dq ''block_time'' @ '' IS NOT NULL'')] @
     opt_bind ('' AND '' @ dq ''block_time'' @ '' >= '') fro @
     opt_bind ('' AND '' @ dq ''block_time'' @ '' <= '') til @
     [Push '' GROUP BY bucket ORDER BY bucket ASC LIMIT '', PushBind (BindInt (MAX_BUCKETS + 1))]"

definition instruction_count ::
  "query_env \<Rightarrow> string \<Rightarrow> string \<Rightarrow> params \<Rightarrow> api_world \<Rightarrow> api_error + response" where
  "instruction_count env pid name params w =
     (let api = qe_api env; w1 = ae_others api 0 w; w2 = ae_others api 1 w1; w3 = ae_others api 2 w2
      in bindR (validate_program_id (ae_idl api) pid) (\<lambda>_.
         bindR (cached_idl_of pid w1) (\<lambda>i.
         if \<not> list_ex (\<lambda>x. ix_name x = name) (idl_instructions i) then Inl (InstructionNotFound name)
         else
         bindR (validate_interval params) (\<lambda>interval.
         bindR (parse_optional_i64 params ''from'') (\<lambda>fro.
         bindR (parse_optional_i64 params ''to'') (\<lambda>til.
         bindR (get_schema_name api (aw_db w2) pid) (\<lambda>schema_name.
         bindR (map_errR map_query_error (qe_buckets env (count_query interval schema_name name fro til) (aw_db w3))) (\<lambda>rows.
           if MAX_BUCKETS < int (length rows) then
             Inl (InvalidValue (''query produced more than '' @ show_int MAX_BUCKETS @
               '' time buckets. Narrow the time range or use a coarser interval''))
           else Inr (200, json_obj [
                  (''data'', JArr (map (\<lambda>(b, n). json_obj [(''bucket'', JStr b), (''count'', JInt n)]) rows)),
                  (''meta'', json_obj [(''program_id'', JStr pid), (''instruction'', JStr name), (''interval'', JStr interval),
                     (''query_time_ms'', JInt (qe_elapsed_ms env))])])))))))))"

text \<open>
  \<open>SELECT MIN("slot"), MAX("slot"), "instruction_name", COUNT(*) ... GROUP BY "instruction_name"\<close>: one row
  per name of the table, in any order.
\<close>

definition group_row :: "instruction_row list \<Rightarrow> string \<Rightarrow> int option \<times> int option \<times> string \<times> int" where
  "group_row rows name =
     (let slots = map ir_slot (filter (\<lambda>r. ir_instruction_name r = name) rows)
      in (if slots = [] then None else Some (fold min slots (hd slots)),
          if slots = [] then None else Some (fold max slots (hd slots)), name, int (length slots)))"

definition group_rows :: "query_env \<Rightarrow> instruction_row list \<Rightarrow> (int option \<times> int option \<times> string \<times> int) list" where
  "group_rows env rows = map (group_row rows) (qe_group_order env (remdups (map ir_instruction_name rows)))"

fun fold_groups ::
  "(int option \<times> int option \<times> string \<times> int) list \<Rightarrow> int option \<Rightarrow> int option \<Rightarrow> (string \<times> json) list \<Rightarrow>
   int option \<times> int option \<times> (string \<times> json) list" where
  "fold_groups [] first_seen last_seen counts = (first_seen, last_seen, counts)"
| "fold_groups ((row_first, row_last, name, n) # rows) first_seen last_seen counts =
     fold_groups rows
       (case row_first of None \<Rightarrow> first_seen | Some f \<Rightarrow> Some (case first_seen of None \<Rightarrow> f | Some cur \<Rightarrow> min cur f))
       (case row_last of None \<Rightarrow> last_seen | Some l \<Rightarrow> Some (case last_seen of None \<Rightarrow> l | Some cur \<Rightarrow> max cur l))
       (map_insert name (JInt n) counts)"

definition program_stats :: "query_env \<Rightarrow> string \<Rightarrow> api_world \<Rightarrow> api_error + response" where
  "program_stats env pid w =
     (let api = qe_api env; w1 = ae_others api 0 w; w2 = ae_others api 1 w1
      in bindR (validate_program_id (ae_idl api) pid) (\<lambda>_.
         bindR (get_schema_name api (aw_db w1) pid) (\<lambda>schema_name.
         bindR (try_join (qe_count_first env)
                  (map_errR map_query_error (case qe_state_fault env of Some e \<Rightarrow> Inl e
                     | None \<Rightarrow> Inr (db_indexer_state (aw_db w2) pid)))
                  (map_errR map_query_error (case db_schemas (aw_db w2) schema_name of
                       None \<Rightarrow> Inl (SqlxDatabase (Some ''42P01'') (no_relation schema_name ''_instructions''))
                     | Some ps \<Rightarrow> (case qe_stats_fault env of Some e \<Rightarrow> Inl e
                                   | None \<Rightarrow> Inr (group_rows env (ps_instructions ps)))))) (\<lambda>(state_row, ix_rows).
         let (total_instructions, total_accounts) =
               (case state_row of Some r \<Rightarrow> (st_total_instructions r, st_total_accounts r) | None \<Rightarrow> (0, 0));
             (first_seen_slot, last_seen_slot, instruction_counts) = fold_groups ix_rows None None []
         in Inr (200, json_obj [
              (''data'', json_obj [(''total_instructions'', JInt total_instructions), (''total_accounts'', JInt total_accounts),
                 (''first_seen_slot'', json_opt JInt first_seen_slot), (''last_seen_slot'', json_opt JInt last_seen_slot),
                 (''instruction_counts'', JObj instruction_counts)]),
              (''meta'', json_obj [(''program_id'', JStr pid), (''query_time_ms'', JInt (qe_elapsed_ms env))])])))))"

end
