(* ===== verification/Router.thy ===== *)
theory Router
  imports Api_Queries
begin

text \<open>
  The router of the HTTP interface (\<open>src/api/mod.rs\<close>): the table of routes as \<open>router\<close> builds it and
  the service it makes of the handlers. Matching a pattern against a path, the answers to a path or
  a method without a route, and the extractors that read the path, the query string and the body
  are axum's and are parameters; an extractor gives its value or the answer with which it refuses
  the request. A HEAD request runs the handler of GET and its answer loses the body, as axum
  documents of \<open>get\<close>. The request-id and tracing layers add a header and log lines and are left out.
\<close>

section \<open>The routes\<close>

datatype http_method = Get | Head | Post | Delete | OtherMethod string

datatype handler =
    HHealth | HRegisterProgram | HListPrograms | HGetProgram | HDeleteProgram
  | HListInstructionTypes | HQueryInstructions | HInstructionCount | HProgramStats
  | HListAccountTypes | HQueryAccounts | HGetAccount

text \<open>A route: the prefix it is nested under, its pattern and the handler of each method.\<close>

type_synonym route = "string \<times> string \<times> (http_method \<times> handler) list"

definition program_routes :: "(string \<times> (http_method \<times> handler) list) list" where
  "program_routes =
     [(''/'', [(Post, HRegisterProgram), (Get, HListPrograms)]),
      (''/{id}'', [(Get, HGetProgram), (Delete, HDeleteProgram)]),
      (''/{id}/instructions'', [(Get, HListInstructionTypes)]),
      (''/{id}/instructions/{name}'', [(Get, HQueryInstructions)]),
      (''/{id}/instructions/{name}/count'', [(Get, HInstructionCount)]),
      (''/{id}/stats'', [(Get, HProgramStats)]),
      (''/{id}/accounts'', [(Get, HListAccountTypes)]),
      (''/{id}/accounts/{type}'', [(Get, HQueryAccounts)]),
      (''/{id}/accounts/{type}/{pubkey}'', [(Get, HGetAccount)])]"

definition routes :: "route list" where
  "routes = map (\<lambda>(pat, hs). (''/api/programs'', pat, hs)) program_routes @ [([], ''/health'', [(Get, HHealth)])]"

section \<open>The service\<close>

record request =
  req_method :: http_method
  req_path :: string
  req_query :: string
  req_body :: string

record router_env =
  ro_matches :: "string \<Rightarrow> string \<Rightarrow> string \<Rightarrow> string list option"
  ro_path :: "string list \<Rightarrow> response + string list"
  ro_params :: "string \<Rightarrow> response + params"
  ro_drop_tables :: "string \<Rightarrow> response + bool"
  ro_register_body :: "string \<Rightarrow> response + register_program_request"
  ro_wrong_arguments :: response
  ro_not_found :: "string \<Rightarrow> response"
  ro_other_method :: "http_method \<Rightarrow> string \<Rightarrow> response"
  ro_version :: string
  ro_uptime :: int

text \<open>The result of a handler as an answer, and a request that an extractor may refuse.\<close>

definition answer :: "api_error + response \<Rightarrow> response" where
  "answer r = (case r of Inl e \<Rightarrow> into_response e | Inr resp \<Rightarrow> resp)"

definition extracted :: "response + 'a \<Rightarrow> ('a \<Rightarrow> response option \<times> api_world) \<Rightarrow> api_world \<Rightarrow> response option \<times> api_world" where
  "extracted x f w = (case x of Inl refusal \<Rightarrow> (Some refusal, w) | Inr v \<Rightarrow> f v)"

text \<open>A handler on the captured segments; \<open>None\<close> is a handler that panics, which closes the connection.\<close>

fun call_handler ::
  "router_env \<Rightarrow> query_env \<Rightarrow> handler \<Rightarrow> string list \<Rightarrow> request \<Rightarrow> api_world \<Rightarrow> response option \<times> api_world" where
  "call_handler ro env HHealth [] req w = (Some (health (qe_api env) (ro_version ro) (ro_uptime ro) w), w)"
| "call_handler ro env HRegisterProgram [] req w =
     extracted (ro_register_body ro (req_body req)) (\<lambda>body.
       let (r, w') = register_program (qe_api env) body w in (Some (answer r), w')) w"
| "call_handler ro env HListPrograms [] req w = (Some (answer (list_programs (qe_api env) w)), w)"
| "call_handler ro env HGetProgram [pid] req w = (Some (answer (get_program (qe_api env) pid w)), w)"
| "call_handler ro env HDeleteProgram [pid] req w =
     extracted (ro_drop_tables ro (req_query req)) (\<lambda>drop_tables.
       let (r, w') = delete_program (qe_api env) pid drop_tables w in (Some (answer r), w')) w"
| "call_handler ro env HListInstructionTypes [pid] req w = (Some (answer (list_instruction_types (qe_api env) pid w)), w)"
| "call_handler ro env HQueryInstructions [pid, name] req w =
     extracted (ro_params ro (req_query req)) (\<lambda>params. (map_option answer (query_instructions env pid name params w), w)) w"
| "call_handler ro env HInstructionCount [pid, name] req w =
     extracted (ro_params ro (req_query req)) (\<lambda>params. (Some (answer (instruction_count env pid name params w)), w)) w"
| "call_handler ro env HProgramStats [pid] req w = (Some (answer (program_stats env pid w)), w)"
| "call_handler ro env HListAccountTypes [pid] req w = (Some (answer (list_account_types (qe_api env) pid w)), w)"
| "call_handler ro env HQueryAccounts [pid, account_type] req w =
     extracted (ro_params ro (req_query req)) (\<lambda>params. (Some (answer (query_accounts env pid account_type params w)), w)) w"
| "call_handler ro env HGetAccount [pid, account_type, pubkey] req w =
     (Some (answer (get_account env pid account_type pubkey w)), w)"
| "call_handler ro env _ _ req w = (Some (ro_wrong_arguments ro), w)"

text \<open>The route of a path, with what its captures matched.\<close>

definition route_of :: "(string \<Rightarrow> string \<Rightarrow> string \<Rightarrow> string list option) \<Rightarrow> string \<Rightarrow> ((http_method \<times> handler) list \<times> string list) option" where
  "route_of matches path =
     (case find (\<lambda>(nest, pat, hs). matches nest pat path \<noteq> None) routes of
        None \<Rightarrow> None
      | Some (nest, pat, hs) \<Rightarrow> Some (hs, the (matches nest pat path)))"

definition handler_of :: "(http_method \<times> handler) list \<Rightarrow> http_method \<Rightarrow> handler option" where
  "handler_of hs m =
     (case map_of hs m of
        Some h \<Rightarrow> Some h
      | None \<Rightarrow> if m = Head then map_of hs Get else None)"

text \<open>What is sent: the status and, unless the request is a HEAD, the body.\<close>

definition sent :: "http_method \<Rightarrow> response option \<Rightarrow> (nat \<times> json option) option" where
  "sent m r = map_option (\<lambda>(status, body). (status, if m = Head then None else Some body)) r"

definition serve :: "router_env \<Rightarrow> query_env \<Rightarrow> request \<Rightarrow> api_world \<Rightarrow> (nat \<times> json option) option \<times> api_world" where
  "serve ro env req w =
     (let (r, w') =
        (case route_of (ro_matches ro) (req_path req) of
           None \<Rightarrow> (Some (ro_not_found ro (req_path req)), w)
         | Some (hs, captures) \<Rightarrow>
             (case handler_of hs (req_method req) of
                None \<Rightarrow> (Some (ro_other_method ro (req_method req) (req_path req)), w)
              | Some h \<Rightarrow> extracted (ro_path ro captures) (\<lambda>args. call_handler ro env h args req w) w))
      in (sent (req_method req) r, w'))"

text \<open>Requests served one after another; each comes with the environment it meets.\<close>

definition serve_all :: "router_env \<Rightarrow> (query_env \<times> request) list \<Rightarrow> api_world \<Rightarrow> api_world" where
  "serve_all ro requests w = fold (\<lambda>(env, req) w. snd (serve ro env req w)) requests w"

end
