(* ===== verification/Registry_Correct.thy ===== *)
theory Registry_Correct
  imports Api_Programs Idl_Correct
begin

text \<open>
  Correctness of registration and deletion: what a registration that answers 201 has stored, what
  one that fails leaves behind, how two registrations of one program interfere, and what a
  deletion removes.
\<close>

section \<open>The two phases\<close>

lemma or_fault_Inr [resR]: "or_fault f r = Inr x \<longleftrightarrow> f = None \<and> r = Inr x"
  by (simp add: or_fault_def split: option.splits)

lemma map_errR_Inl [resR]: "map_errR f m = Inl e \<longleftrightarrow> (\<exists>e'. m = Inl e' \<and> e = f e')"
  by (cases m) auto

definition registered_row :: "registration_data \<Rightarrow> string \<Rightarrow> program_row" where
  "registered_row d status =
     \<lparr> pr_program_name = rd_program_name d, pr_schema_name = rd_schema_name d, pr_idl_hash = Some (rd_idl_hash d),
       pr_idl_source = Some (rd_idl_source d), pr_idl_json = Some (rd_idl_json d), pr_status = status \<rparr>"

definition fresh_state :: indexer_row where
  "fresh_state = \<lparr> st_status = ''initializing'', st_last_processed_slot = None, st_error_message = None,
     st_total_instructions = 0, st_total_accounts = 0 \<rparr>"

lemma write_registration_Inr:
  assumes "write_registration env d db = Inr db'"
  shows "db_programs db (rd_program_id d) = None \<and>
    db' = db\<lparr> db_programs := (db_programs db)(rd_program_id d \<mapsto> registered_row d ''registered''),
             db_indexer_state := (db_indexer_state db)(rd_program_id d \<mapsto> fresh_state) \<rparr> \<and>
    (\<forall>s \<in> {RBegin, RInsertProgram}. re_fault env s = None)"
  using assms
  by (auto simp: write_registration_def resR insert_program_def insert_indexer_row_def registered_row_def fresh_state_def
      split: if_splits)

lemma write_registration_taken:
  assumes "db_programs db (rd_program_id d) \<noteq> None" and "re_fault env RBegin = None" and "re_fault env RInsertProgram = None"
    and "char_count (rd_program_id d) \<le> 44" and "char_count (rd_idl_hash d) \<le> 64"
  shows "write_registration env d db = Inl (AlreadyRegistered (rd_program_id d))"
  using assms by (auto simp: write_registration_def insert_program_def or_fault_def)

lemma write_registration_widths:
  "write_registration env d db = Inr db' \<Longrightarrow> char_count (rd_program_id d) \<le> 44 \<and> char_count (rd_idl_hash d) \<le> 64"
  by (auto simp: write_registration_def resR insert_program_def split: if_splits)

text \<open>The generated DDL names only the program's own schema; PostgreSQL leaves the other tables alone.\<close>

definition ddl_local :: "reg_env \<Rightarrow> bool" where
  "ddl_local env = (\<forall>sql db db'. re_ddl env sql db = Inr db' \<longrightarrow>
     db_programs db' = db_programs db \<and> db_indexer_state db' = db_indexer_state db)"

lemma generate_schema_rows:
  "ddl_local env \<Longrightarrow> generate_schema (re_ddl env) i sn db = (r, db') \<Longrightarrow>
   db_programs db' = db_programs db \<and> db_indexer_state db' = db_indexer_state db"
  by (auto simp: generate_schema_def ddl_local_def split: sum.splits)

lemma seed_entries_rows:
  "db_programs (snd (seed_entries fault k sn kvs db)) = db_programs db \<and>
   db_indexer_state (snd (seed_entries fault k sn kvs db)) = db_indexer_state db"
  by (induction fault k sn kvs db rule: seed_entries.induct) (auto simp: on_schema_def split: option.splits if_splits)

lemma seed_metadata_rows [simp]:
  "db_programs (snd (seed_metadata fault now i p h sn db)) = db_programs db"
  "db_indexer_state (snd (seed_metadata fault now i p h sn db)) = db_indexer_state db"
  using seed_entries_rows by (simp_all add: seed_metadata_def)

lemma update_program_status_row:
  "update_program_status env p s db = (r, db') \<Longrightarrow>
   db_indexer_state db' = db_indexer_state db \<and>
   (r = Inr () \<and> db_programs db' = (db_programs db)(p := map_option (\<lambda>x. x\<lparr> pr_status := s \<rparr>) (db_programs db p)) \<or>
    (\<exists>e. r = Inl e) \<and> db' = db)"
  by (auto simp: update_program_status_def set_program_status_def split: option.splits)

lemma registered_row_status [simp]: "(registered_row d s)\<lparr> pr_status := t \<rparr> = registered_row d t"
  by (simp add: registered_row_def)

text \<open>While phase two waits, the other tasks leave the rows of the program alone.\<close>

definition rows_kept :: "reg_env \<Rightarrow> string \<Rightarrow> bool" where
  "rows_kept env p = (\<forall>k db. db_programs (re_others env k db) p = db_programs db p \<and>
     db_indexer_state (re_others env k db) p = db_indexer_state db p)"

text \<open>The three ways phase two can end.\<close>

lemma commit_registration_cases:
  assumes "ddl_local env" and "rows_kept env (rd_program_id d)" and "commit_registration env d db = (r, db')"
  shows "(\<exists>e. write_registration env d db = Inl e \<and> r = Inl e \<and> db' = db) \<or>
    (db_programs db (rd_program_id d) = None \<and> db_indexer_state db' (rd_program_id d) = Some fresh_state \<and>
     (case r of
        Inr info \<Rightarrow> db_programs db' (rd_program_id d) = Some (registered_row d ''schema_created'')
      | Inl e \<Rightarrow> \<exists>s \<in> {''registered'', ''error''}. db_programs db' (rd_program_id d) = Some (registered_row d s)))"
proof (cases "write_registration env d db")
  case (Inl e)
  then show ?thesis using assms(3) by (simp add: commit_registration_def)
next
  case (Inr db1)
  note w = write_registration_Inr [OF Inr]
  let ?p = "rd_program_id d"
  obtain g db2 where g: "generate_schema (re_ddl env) (rd_idl d) (rd_schema_name d) (re_others env 0 db1) = (g, db2)" by fastforce
  have k: "db_programs (re_others env k x) ?p = db_programs x ?p" "db_indexer_state (re_others env k x) ?p = db_indexer_state x ?p" for k x
    using assms(2) by (simp_all add: rows_kept_def)
  have rows: "db_programs db2 ?p = Some (registered_row d ''registered'')" "db_indexer_state db2 ?p = Some fresh_state"
    using generate_schema_rows [OF assms(1) g] w k by simp_all
  show ?thesis
  proof (cases g)
    case (Inl e)
    obtain u db3 where u: "update_program_status env ?p ''error'' (re_others env 1 db2) = (u, db3)" by fastforce
    show ?thesis using assms(3) Inr g Inl w rows k u update_program_status_row [OF u]
      by (auto simp: commit_registration_def)
  next
    case (Inr x)
    let ?db3 = "snd (seed_metadata (re_seed_fault env) (re_now env) (rd_idl d) ?p (rd_idl_hash d) (rd_schema_name d) (re_others env 1 db2))"
    obtain u db4 where u: "update_program_status env ?p ''schema_created'' (re_others env 2 ?db3) = (u, db4)" by fastforce
    obtain v db5 where v: "update_program_status env ?p ''error'' (re_others env 3 db4) = (v, db5)" by fastforce
    show ?thesis
      using assms(3) \<open>write_registration env d db = Inr db1\<close> g Inr w rows k u update_program_status_row [OF u]
        v update_program_status_row [OF v]
      by (auto simp: commit_registration_def Let_def)
  qed
qed

lemma get_cached_None: "get_cached m p = None \<longleftrightarrow> im_cache m p = None"
  by (simp add: get_cached_def)

lemma upload_idl_Inr:
  "upload_idl env m p js = Inr (i, m') \<Longrightarrow>
   \<exists>c. m' = m\<lparr> im_cache := (im_cache m)(p \<mapsto> c) \<rparr> \<and> (cache_ok env m \<longrightarrow> cache_ok env m')"
  using insert_fetched_idl_Inr insert_fetched_idl_ok unfolding upload_idl_insert by blast

lemma prepare_registration_Inl: "prepare_registration env p js reg = (Inl e, reg') \<Longrightarrow> reg' = reg"
  using upload_idl_Inr [of env "reg_idl_manager reg" p]
  by (auto simp: prepare_registration_def Let_def get_cached_def get_cached_entry_def resR map_errR_Inl
      split: option.splits if_splits sum.splits) fastforce+

lemma prepare_registration_Inr:
  assumes "prepare_registration env p js reg = (Inr d, reg')"
  shows "rd_program_id d = p \<and> (rd_was_cached d \<longleftrightarrow> im_cache (reg_idl_manager reg) p \<noteq> None) \<and>
    (rd_was_cached d \<longrightarrow> reg' = reg) \<and>
    (cache_ok env (reg_idl_manager reg) \<longrightarrow> cache_ok env (reg_idl_manager reg')) \<and>
    (\<exists>c. im_cache (reg_idl_manager reg') p = Some c \<and> rd_idl_hash d = ce_hash c \<and> rd_idl_json d = ce_raw_json c \<and>
       rd_idl d = ce_idl c \<and> rd_schema_name d = derive_schema_name (idl_metadata_name (ce_idl c)) p)"
  using assms upload_idl_Inr [of env "reg_idl_manager reg" p]
  by (auto simp: prepare_registration_def Let_def get_cached_def get_cached_entry_def resR
      split: option.splits if_splits sum.splits)

section \<open>One registration\<close>

abbreviation cache_of :: "api_world \<Rightarrow> string \<Rightarrow> cached_idl option" where
  "cache_of w \<equiv> im_cache (idl_manager_of w)"

text \<open>While a handler waits, the other tasks work on other programs and keep the cache faithful.\<close>

definition elsewhere :: "api_env \<Rightarrow> string \<Rightarrow> bool" where
  "elsewhere env p = (rows_kept (ae_reg env) p \<and> (\<forall>k w. cache_of (ae_others env k w) p = cache_of w p \<and>
     db_programs (aw_db (ae_others env k w)) p = db_programs (aw_db w) p \<and>
     db_indexer_state (aw_db (ae_others env k w)) p = db_indexer_state (aw_db w) p \<and>
     (cache_ok (ae_idl env) (idl_manager_of w) \<longrightarrow> cache_ok (ae_idl env) (idl_manager_of (ae_others env k w)))))"

lemma idl_manager_of_simps [simp]:
  "idl_manager_of (w\<lparr> aw_db := db \<rparr>) = idl_manager_of w"
  "idl_manager_of (w\<lparr> aw_registry := reg \<rparr>) = reg_idl_manager reg"
  by (simp_all add: idl_manager_of_def)

lemma auto_fetch_idl_outcome:
  assumes "elsewhere env p" and "auto_fetch_idl env p w = (r, w')" and "cache_ok (ae_idl env) (idl_manager_of w)"
  shows "db_programs (aw_db w') p = db_programs (aw_db w) p \<and> cache_ok (ae_idl env) (idl_manager_of w') \<and>
    (case r of Inl e \<Rightarrow> cache_of w' p = cache_of w p
     | Inr fetched \<Rightarrow> cache_of w' p \<noteq> None \<and> (if fetched then cache_of w p = None else cache_of w' p = cache_of w p))"
proof -
  let ?w1 = "ae_others env 0 w" and ?w2 = "ae_others env 1 (ae_others env 0 w)"
  have k: "cache_of ?w1 p = cache_of w p" "cache_of ?w2 p = cache_of w p"
    "db_programs (aw_db ?w1) p = db_programs (aw_db w) p" "db_programs (aw_db ?w2) p = db_programs (aw_db w) p"
    "cache_ok (ae_idl env) (idl_manager_of ?w1)" "cache_ok (ae_idl env) (idl_manager_of ?w2)"
    using assms(1,3) by (simp_all add: elsewhere_def)
  show ?thesis
  proof (cases "cache_of w p = None")
    case False
    then show ?thesis using assms(2) k by (auto simp: auto_fetch_idl_def get_cached_None)
  next
    case True
    then show ?thesis
      using assms(2) k insert_fetched_idl_ok [of "ae_idl env" "idl_manager_of ?w2" p]
        insert_fetched_idl_Inr [of "ae_idl env" "idl_manager_of ?w2" p]
      by (fastforce simp: auto_fetch_idl_def get_cached_None Let_def split: prod.splits sum.splits)
  qed
qed

lemma rollback_cache_of [simp]:
  "im_cache (reg_idl_manager (rollback_cache p reg)) = (im_cache (reg_idl_manager reg))(p := None)"
  by (simp add: rollback_cache_def remove_cached_def)

text \<open>Everything before phase two.\<close>

definition stored_faithfully :: "idl_env \<Rightarrow> string \<Rightarrow> api_world \<Rightarrow> bool" where
  "stored_faithfully env p w = (\<exists>c row. cache_of w p = Some c \<and> db_programs (aw_db w) p = Some row \<and>
     pr_status row = ''schema_created'' \<and> pr_schema_name row = derive_schema_name (idl_metadata_name (ce_idl c)) p \<and>
     pr_idl_json row = Some (ce_raw_json c) \<and> pr_idl_hash row = Some (compute_idl_hash env (ce_raw_json c)) \<and>
     (\<exists>v. env_from_str env (ce_raw_json c) = Inr v \<and> validate_idl v = Inr () \<and> env_from_value env v = Inr (ce_idl c)))"

text \<open>A failure leaves the row as it was, or a new row that no start picks up.\<close>

definition row_not_started :: "program_row option \<Rightarrow> program_row option \<Rightarrow> bool" where
  "row_not_started before after = (after = before \<or>
     before = None \<and> (\<exists>row. after = Some row \<and> pr_status row \<in> {''registered'', ''error''}))"

lemma commit_stage:
  assumes e: "elsewhere env p" and ddl: "ddl_local (ae_reg env)"
    and prep: "prepare_registration (ae_idl env) p js (aw_registry w2) = (Inr d, reg)"
    and ok: "cache_ok (ae_idl env) (idl_manager_of w2)"
    and com: "commit_registration (ae_reg env) d (aw_db (ae_others env 3 (w2\<lparr> aw_registry := reg \<rparr>))) = (r, db)"
    and w5: "w5 = (ae_others env 3 (w2\<lparr> aw_registry := reg \<rparr>))\<lparr> aw_db := db \<rparr>"
  shows "(rd_was_cached d \<longleftrightarrow> cache_of w2 p \<noteq> None) \<and> (rd_was_cached d \<longrightarrow> cache_of w5 p = cache_of w2 p) \<and>
    (\<forall>info. r = Inr info \<longrightarrow> db_programs (aw_db w2) p = None \<and> stored_faithfully (ae_idl env) p w5 \<and>
       db_indexer_state (aw_db w5) p = Some fresh_state) \<and>
    (\<forall>e. r = Inl e \<longrightarrow> row_not_started (db_programs (aw_db w2) p) (db_programs (aw_db w5) p))"
proof -
  note pr = prepare_registration_Inr [OF prep]
  have rk: "rows_kept (ae_reg env) (rd_program_id d)" using e pr by (simp add: elsewhere_def)
  let ?w3 = "w2\<lparr> aw_registry := reg \<rparr>" and ?w4 = "ae_others env 3 (w2\<lparr> aw_registry := reg \<rparr>)"
  have k: "cache_of ?w4 p = cache_of ?w3 p" "db_programs (aw_db ?w4) p = db_programs (aw_db w2) p"
    using e by (simp_all add: elsewhere_def)
  have pid: "rd_program_id d = p" using pr by simp
  obtain c where c: "im_cache (reg_idl_manager reg) p = Some c" "rd_idl_hash d = ce_hash c" "rd_idl_json d = ce_raw_json c"
      "rd_schema_name d = derive_schema_name (idl_metadata_name (ce_idl c)) p"
    using pr by blast
  have "cache_ok (ae_idl env) (reg_idl_manager reg)" using pr ok by (simp add: idl_manager_of_def)
  then have ec: "entry_ok (ae_idl env) c" using c(1) by (auto simp: cache_ok_def)
  have "stored_faithfully (ae_idl env) p w5 \<and> db_programs (aw_db w2) p = None \<and>
      db_indexer_state (aw_db w5) p = Some fresh_state" if "r = Inr info" for info
    using commit_registration_cases [OF ddl rk com] that c ec k pid w5
    by (auto simp: stored_faithfully_def registered_row_def entry_ok_def)
  moreover have "row_not_started (db_programs (aw_db w2) p) (db_programs (aw_db w5) p)" if "r = Inl x" for x
    using commit_registration_cases [OF ddl rk com] that k pid w5
    by (auto simp: row_not_started_def registered_row_def)
  ultimately show ?thesis using pr k w5 by (auto simp: idl_manager_of_def)
qed

lemma prepare_registration_cached:
  "im_cache (reg_idl_manager reg) p \<noteq> None \<Longrightarrow> \<exists>d. prepare_registration env p None reg = (Inr d, reg)"
  by (auto simp: prepare_registration_def get_cached_def get_cached_entry_def Let_def)

lemma do_register_cases:
  assumes "elsewhere env (rq_program_id body)" and "ddl_local (ae_reg env)"
    and "cache_ok (ae_idl env) (idl_manager_of w)" and "do_register env body w = (r, w')"
  shows "case r of
      Inr resp \<Rightarrow> fst resp = 201 \<and> db_programs (aw_db w) (rq_program_id body) = None \<and>
        stored_faithfully (ae_idl env) (rq_program_id body) w' \<and>
        db_indexer_state (aw_db w') (rq_program_id body) = Some fresh_state
    | Inl e \<Rightarrow> cache_of w' (rq_program_id body) = cache_of w (rq_program_id body) \<and>
        row_not_started (db_programs (aw_db w) (rq_program_id body)) (db_programs (aw_db w') (rq_program_id body))"
proof (cases "validate_program_id (ae_idl env) (rq_program_id body)")
  case (Inl e)
  then show ?thesis using assms(4) by (auto simp: do_register_def row_not_started_def)
next
  case valid: (Inr u)
  let ?p = "rq_program_id body" and ?js = "map_option (env_to_string (ae_idl env)) (rq_idl body)"
  obtain f w1 where f: "(if ?js = None then auto_fetch_idl env ?p w else (Inr False, w)) = (f, w1)" by fastforce
  have fo: "db_programs (aw_db w1) ?p = db_programs (aw_db w) ?p" "cache_ok (ae_idl env) (idl_manager_of w1)"
    "\<And>e. f = Inl e \<Longrightarrow> cache_of w1 ?p = cache_of w ?p"
    "f = Inr False \<Longrightarrow> cache_of w1 ?p = cache_of w ?p" "f = Inr True \<Longrightarrow> cache_of w ?p = None"
    "\<And>b. ?js = None \<Longrightarrow> f = Inr b \<Longrightarrow> cache_of w1 ?p \<noteq> None" "?js \<noteq> None \<Longrightarrow> f = Inr False"
    using f assms(3) auto_fetch_idl_outcome [OF assms(1) _ assms(3), of f w1] by (auto split: if_splits)
  show ?thesis
  proof (cases f)
    case (Inl e)
    then show ?thesis using assms(4) valid f fo by (auto simp: do_register_def Let_def row_not_started_def)
  next
    case (Inr fetched)
    let ?w2 = "ae_others env 2 w1"
    obtain q reg where q: "prepare_registration (ae_idl env) ?p ?js (aw_registry ?w2) = (q, reg)" by fastforce
    have k2: "cache_of ?w2 ?p = cache_of w1 ?p" "db_programs (aw_db ?w2) ?p = db_programs (aw_db w) ?p"
      "cache_ok (ae_idl env) (idl_manager_of ?w2)" using assms(1) fo by (simp_all add: elsewhere_def)
    show ?thesis
    proof (cases q)
      case (Inl e)
      then have "reg = aw_registry ?w2" using prepare_registration_Inl q by blast
      moreover have "f = Inr False"
        using prepare_registration_cached [of "aw_registry ?w2" ?p "ae_idl env"] q Inl Inr fo(6,7) k2
        by (cases ?js) (auto simp: idl_manager_of_def)
      ultimately show ?thesis using assms(4) valid f Inr q Inl k2 fo
        by (auto simp: do_register_def Let_def row_not_started_def)
    next
      case (Inr d)
      let ?w4 = "ae_others env 3 (?w2\<lparr> aw_registry := reg \<rparr>)"
      obtain s db where s: "commit_registration (ae_reg env) d (aw_db ?w4) = (s, db)" by fastforce
      note st = commit_stage [OF assms(1,2) q [unfolded Inr] k2(3) s refl]
      have k4: "cache_of (ae_others env 4 x) ?p = cache_of x ?p"
        "db_programs (aw_db (ae_others env 4 x)) ?p = db_programs (aw_db x) ?p" for x
        using assms(1) by (simp_all add: elsewhere_def)
      have pid: "rd_program_id d = ?p" using prepare_registration_Inr q Inr by blast
      show ?thesis
        using assms(4) valid f \<open>f = Inr fetched\<close> q Inr s st k2 k4 fo pid
        by (cases s; cases "fetched"; cases "rd_was_cached d") (auto simp: do_register_def Let_def registered_response_def)
    qed
  qed
qed

text \<open>C7. Registration through the API, while other tasks work on other programs: an answer of 201 means
  that the program had no row and now has one with status \<open>schema_created\<close>, the schema name
  derived from its IDL, the raw IDL text and the hash of exactly that text, a fresh
  \<open>indexer_state\<close> row, and a cached IDL that is what the text parses to; any error leaves the
  cache entry of the program as it was (nothing uploaded or fetched for a failed registration
  stays), and a row it may leave is never one that a restart would index.\<close>

theorem do_register_outcome:
  assumes "elsewhere env (rq_program_id body)" and "ddl_local (ae_reg env)"
    and "cache_ok (ae_idl env) (idl_manager_of w)" and "do_register env body w = (r, w')"
  shows "case r of
      Inr resp \<Rightarrow> fst resp = 201 \<and> db_programs (aw_db w) (rq_program_id body) = None \<and>
        stored_faithfully (ae_idl env) (rq_program_id body) w' \<and>
        db_indexer_state (aw_db w') (rq_program_id body) = Some fresh_state
    | Inl e \<Rightarrow> cache_of w' (rq_program_id body) = cache_of w (rq_program_id body) \<and>
        row_not_started (db_programs (aw_db w) (rq_program_id body)) (db_programs (aw_db w') (rq_program_id body))"
  using assms by (rule do_register_cases)

definition demo_reg_env :: reg_env where
  "demo_reg_env = \<lparr> re_fault = (\<lambda>_. None), re_ddl = (\<lambda>_ db. Inr db), re_seed_fault = (\<lambda>_. None), re_now = ''now'',
     re_others = (\<lambda>_ db. db) \<rparr>"

definition demo_api_env :: api_env where
  "demo_api_env = \<lparr> ae_idl = demo_env, ae_reg = demo_reg_env, ae_others = (\<lambda>_ w. w), ae_fault = (\<lambda>_. None),
     ae_program_ids = (\<lambda>_. []), ae_times = (\<lambda>_. ([], None, None)), ae_join = None \<rparr>"

definition demo_world :: api_world where
  "demo_world = \<lparr> aw_registry = program_registry_new (idl_manager_new ''url''),
     aw_db = \<lparr> db_programs = Map.empty, db_indexer_state = Map.empty, db_schemas = Map.empty \<rparr> \<rparr>"

definition demo_body :: register_program_request where
  "demo_body = \<lparr> rq_program_id = ''P'', rq_idl = Some (JObj [(''idl'', JNull)]) \<rparr>"

lemma demo_cache_ok: "cache_ok demo_env (idl_manager_of demo_world)"
  by (simp add: cache_ok_def demo_world_def idl_manager_of_def program_registry_new_def idl_manager_new_def)

lemma demo_ddl_local: "ddl_local demo_reg_env"
  by (simp add: ddl_local_def demo_reg_env_def)

lemma demo_elsewhere: "elsewhere demo_api_env p"
  by (simp add: elsewhere_def demo_api_env_def rows_kept_def demo_reg_env_def)

lemma demo_api_env_simps [simp]: "ae_idl demo_api_env = demo_env" "ae_reg demo_api_env = demo_reg_env"
    "ae_others demo_api_env k w = w" "rq_program_id demo_body = ''P''"
  by (simp_all add: demo_api_env_def demo_body_def)

lemma demo_hash: "char_count (compute_idl_hash demo_env ''idl'') \<le> 64"
proof -
  have "length (compute_idl_hash demo_env ''idl'') = 16"
    by (simp add: compute_idl_hash_def hex2_def demo_env_def as_bytes_def btree_collect_def)
  moreover have "char_count (compute_idl_hash demo_env ''idl'') \<le> length (compute_idl_hash demo_env ''idl'')"
    unfolding char_count_def by (rule length_filter_le)
  ultimately show ?thesis by linarith
qed

lemma demo_prepare:
  "\<exists>d reg. prepare_registration demo_env ''P'' (Some ''idl'') (aw_registry demo_world) = (Inr d, reg) \<and>
     rd_idl_hash d = compute_idl_hash demo_env ''idl'' \<and> rd_program_id d = ''P''"
proof -
  have "cache_of demo_world ''P'' = None"
    by (simp add: demo_world_def idl_manager_of_def program_registry_new_def idl_manager_new_def)
  moreover obtain i m where "upload_idl demo_env (idl_manager_of demo_world) ''P'' ''idl'' = Inr (i, m)"
      "get_cached_entry m ''P'' = Some \<lparr> ce_idl = i, ce_hash = compute_idl_hash demo_env ''idl'', ce_source = Manual, ce_raw_json = ''idl'' \<rparr>"
    using demo_upload by (auto simp: demo_world_def idl_manager_of_def program_registry_new_def)
  ultimately show ?thesis
    by (auto simp: prepare_registration_def get_cached_None idl_manager_of_def Let_def)
qed

lemma demo_commit:
  assumes "rd_program_id d = ''P''" and "char_count (rd_idl_hash d) \<le> 64"
  shows "\<exists>info db. commit_registration demo_reg_env d (aw_db demo_world) = (Inr info, db) \<and> dom (db_programs db) = {''P''}"
proof -
  have "char_count ''P'' \<le> 44" by (simp add: char_count_def)
  then show ?thesis using assms
    by (auto simp: commit_registration_def write_registration_def insert_program_def insert_indexer_row_def
        schema_name_taken_def or_fault_def demo_reg_env_def demo_world_def generate_schema_def update_program_status_def
        set_program_status_def Let_def)
qed

lemma demo_register:
  "\<exists>resp w'. do_register demo_api_env demo_body demo_world = (Inr resp, w') \<and> dom (db_programs (aw_db w')) = {''P''}"
proof -
  obtain d reg where d: "prepare_registration demo_env ''P'' (Some ''idl'') (aw_registry demo_world) = (Inr d, reg)"
      "rd_idl_hash d = compute_idl_hash demo_env ''idl''" "rd_program_id d = ''P''" using demo_prepare by blast
  obtain info db where c: "commit_registration demo_reg_env d (aw_db demo_world) = (Inr info, db)" "dom (db_programs db) = {''P''}"
    using demo_commit [OF d(3)] demo_hash d(2) by auto
  have "map_option (env_to_string demo_env) (rq_idl demo_body) = Some ''idl''"
    "validate_program_id demo_env ''P'' = Inr ()"
    by (simp_all add: demo_body_def demo_env_def validate_program_id_def)
  then show ?thesis using d c by (auto simp: do_register_def Let_def)
qed

theorem do_register_outcome_witness:
  "\<exists>resp w'. do_register demo_api_env demo_body demo_world = (Inr resp, w') \<and> fst resp = 201 \<and>
     stored_faithfully demo_env ''P'' w'"
proof -
  obtain resp w' where r: "do_register demo_api_env demo_body demo_world = (Inr resp, w')" using demo_register by (elim exE conjE) (rule that)
  show ?thesis
    using do_register_outcome [of demo_api_env demo_body demo_world "Inr resp" w'] r demo_cache_ok demo_ddl_local demo_elsewhere
    by auto
qed

section \<open>Two registrations of one program\<close>

lemma commit_ignores_was_cached: "commit_registration env (d\<lparr> rd_was_cached := b \<rparr>) db = commit_registration env d db"
proof (cases d)
  case (fields a1 a2 a3 a4 a5 a6 a7 a8)
  show ?thesis unfolding fields commit_registration_def write_registration_def registration_data.simps by (rule refl)
qed

lemma prepare_again:
  assumes "prepare_registration env p (Some js) reg = (Inr d, reg')"
  shows "prepare_registration env p (Some js) reg' = (Inr (d\<lparr> rd_was_cached := True \<rparr>), reg')"
  using assms upload_idl_Inr [of env "reg_idl_manager reg" p js]
  by (auto simp: prepare_registration_def Let_def get_cached_def get_cached_entry_def resR
      split: option.splits if_splits sum.splits)

text \<open>A request that carries its IDL, with nothing happening while it waits.\<close>

lemma do_register_upload:
  assumes "validate_program_id (ae_idl env) (rq_program_id body) = Inr ()" and "rq_idl body = Some v"
    and "ae_others env 2 w = w"
    and "prepare_registration (ae_idl env) (rq_program_id body) (Some (env_to_string (ae_idl env) v)) (aw_registry w) = (Inr d, reg)"
    and "ae_others env 3 (w\<lparr> aw_registry := reg \<rparr>) = w4"
  shows "do_register env body w =
    (case commit_registration (ae_reg env) d (aw_db w4) of
       (Inr info, db) \<Rightarrow> (Inr (registered_response info), w4\<lparr> aw_db := db \<rparr>)
     | (Inl e, db) \<Rightarrow> (Inl (api_error_of e), if rd_was_cached d then w4\<lparr> aw_db := db \<rparr>
         else let w6 = ae_others env 4 (w4\<lparr> aw_db := db \<rparr>)
              in w6\<lparr> aw_registry := rollback_cache (rd_program_id d) (aw_registry w6) \<rparr>))"
  using assms by (auto simp: do_register_def split: prod.splits sum.splits)

text \<open>C33. Two concurrent registrations of one program can leave it registered and unknown: take a request
  with an IDL that would succeed alone on a program that is not cached, and let a second copy of
  it run to its end between the two phases of the first. Then the first is refused as already
  registered and its rollback removes the cache entry the second one relies on: the database has
  the program as \<open>schema_created\<close>, the registry has no IDL for it, and the query endpoints
  answer 404 until the process restarts.\<close>

theorem concurrent_registration_loses_idl:
  assumes quiet: "\<And>k w. ae_others env k w = w" "\<And>k db. re_others (ae_reg env) k db = db"
    and ddl: "ddl_local (ae_reg env)" and v: "rq_idl body = Some v"
    and new: "cache_of w (rq_program_id body) = None" and alone: "fst (do_register env body w) = Inr resp"
  shows "\<exists>w'. do_register (env\<lparr> ae_others := (\<lambda>k w. if k = 3 then snd (do_register env body w) else w) \<rparr>) body w =
      (Inl (ProgramAlreadyRegistered (rq_program_id body)), w') \<and>
    (\<exists>row. db_programs (aw_db w') (rq_program_id body) = Some row \<and> pr_status row = ''schema_created'') \<and>
    registry_get_idl (aw_registry w') (rq_program_id body) = None"
proof -
  let ?p = "rq_program_id body" and ?js = "env_to_string (ae_idl env) v"
  let ?race = "env\<lparr> ae_others := (\<lambda>k w. if k = 3 then snd (do_register env body w) else w) \<rparr>"
  have val: "validate_program_id (ae_idl env) ?p = Inr ()" using alone by (auto simp: do_register_def split: sum.splits)
  obtain d reg where d: "prepare_registration (ae_idl env) ?p (Some ?js) (aw_registry w) = (Inr d, reg)"
    using alone val v quiet(1) by (fastforce simp: do_register_def Let_def split: sum.splits prod.splits)
  note pr = prepare_registration_Inr [OF d]
  have rk: "rows_kept (ae_reg env) (rd_program_id d)" using quiet(2) by (simp add: rows_kept_def)
  let ?w3 = "w\<lparr> aw_registry := reg \<rparr>"
  obtain info db where c: "commit_registration (ae_reg env) d (aw_db w) = (Inr info, db)"
    using alone do_register_upload [OF val v quiet(1) d quiet(1)] by (auto split: prod.splits sum.splits)
  have second: "do_register env body ?w3 = (Inr (registered_response info), ?w3\<lparr> aw_db := db \<rparr>)"
    using do_register_upload [OF val v quiet(1), of ?w3 "d\<lparr> rd_was_cached := True \<rparr>" reg "?w3\<lparr> aw_registry := reg \<rparr>"]
      prepare_again [OF d] c quiet(1) by (simp add: commit_ignores_was_cached)
  obtain db1 where wr: "write_registration (ae_reg env) d (aw_db w) = Inr db1"
    using c by (cases "write_registration (ae_reg env) d (aw_db w)") (simp_all add: commit_registration_def)
  have row: "db_programs db ?p = Some (registered_row d ''schema_created'')"
    using commit_registration_cases [OF ddl rk c] pr wr by auto
  have "write_registration (ae_reg env) d db = Inl (AlreadyRegistered ?p)"
    using write_registration_taken [of db d "ae_reg env"] write_registration_Inr [OF wr] write_registration_widths [OF wr] row pr
    by auto
  then have again: "commit_registration (ae_reg env) d db = (Inl (AlreadyRegistered ?p), db)"
    by (simp add: commit_registration_def)
  have "do_register ?race body w = (Inl (ProgramAlreadyRegistered ?p),
      ?w3\<lparr> aw_db := db, aw_registry := rollback_cache ?p reg \<rparr>)"
    using do_register_upload [of ?race body v w d reg "?w3\<lparr> aw_db := db \<rparr>"] val v d second again pr new
    by (simp add: idl_manager_of_def)
  then show ?thesis using row by (simp add: registry_get_idl_def get_cached_def registered_row_def)
qed

theorem concurrent_registration_loses_idl_witness:
  "\<exists>w'. do_register (demo_api_env\<lparr> ae_others := (\<lambda>k w. if k = 3 then snd (do_register demo_api_env demo_body w) else w) \<rparr>)
       demo_body demo_world = (Inl (ProgramAlreadyRegistered ''P''), w') \<and>
     (\<exists>row. db_programs (aw_db w') ''P'' = Some row \<and> pr_status row = ''schema_created'') \<and>
     registry_get_idl (aw_registry w') ''P'' = None"
proof -
  obtain resp w' where r: "do_register demo_api_env demo_body demo_world = (Inr resp, w')" using demo_register by (elim exE conjE) (rule that)
  have "cache_of demo_world ''P'' = None" "rq_idl demo_body = Some (JObj [(''idl'', JNull)])"
    by (simp_all add: demo_world_def demo_body_def idl_manager_of_def program_registry_new_def idl_manager_new_def)
  then show ?thesis
    using concurrent_registration_loses_idl [of demo_api_env demo_body "JObj [(''idl'', JNull)]" demo_world resp] r demo_ddl_local
    by (simp add: demo_reg_env_def)
qed

section \<open>Deletion\<close>

text \<open>C36. A hard delete of a registered program removes its schema, its two rows and its cached IDL, and
  nothing of any other program; if it fails, it has changed nothing, or it has dropped the schema
  and kept the rows, and then a second attempt that meets no failure completes the deletion.\<close>

theorem delete_program_outcome:
  assumes quiet: "\<And>k w. ae_others env k w = w" and row: "db_programs (aw_db w) p = Some row"
    and del: "delete_program env p True w = (r, w')"
  shows "(case r of
      Inr resp \<Rightarrow> w' = w\<lparr> aw_registry := remove_program p (aw_registry w),
        aw_db := \<lparr> db_programs = (db_programs (aw_db w))(p := None),
                   db_indexer_state = (db_indexer_state (aw_db w))(p := None),
                   db_schemas = (db_schemas (aw_db w))(pr_schema_name row := None) \<rparr> \<rparr>
    | Inl e \<Rightarrow> (w' = w \<or> w' = w\<lparr> aw_db := drop_schema (pr_schema_name row) (aw_db w) \<rparr>) \<and>
        (validate_program_id (ae_idl env) p = Inr () \<longrightarrow>
         fst (delete_program (env\<lparr> ae_fault := (\<lambda>_. None) \<rparr>) p True w') = Inr (deleted_response p ''deleted'' True)))"
proof -
  have quiet': "ae_others env k = id" for k using quiet by (simp add: fun_eq_iff)
  have drop: "db_programs (drop_schema s d) = db_programs d" for s d by (simp add: drop_schema_def)
  have retry: "fst (delete_program (env\<lparr> ae_fault := (\<lambda>_. None) \<rparr>) p True x) = Inr (deleted_response p ''deleted'' True)"
    if "validate_program_id (ae_idl env) p = Inr ()" and "db_programs (aw_db x) p = Some y" for x y
    using that quiet' by (simp add: delete_program_def hard_delete_def or_fault_def Let_def)
  show ?thesis
  proof (cases "validate_program_id (ae_idl env) p = Inr () \<and> ae_fault env QSchemaName = None \<and> ae_fault env QDropSchema = None")
    case False
    then show ?thesis using del row retry quiet'
      by (auto simp: delete_program_def hard_delete_def split: sum.splits option.splits)
  next
    case True
    then show ?thesis using del row retry [of "w\<lparr> aw_db := drop_schema (pr_schema_name row) (aw_db w) \<rparr>"] quiet' drop
      by (auto simp: delete_program_def hard_delete_def drop_schema_def or_fault_def Let_def
          split: option.splits)
  qed
qed

definition demo_registered :: api_world where
  "demo_registered = demo_world\<lparr> aw_db := (aw_db demo_world)\<lparr> db_programs := [''P'' \<mapsto>
     \<lparr> pr_program_name = ''demo'', pr_schema_name = ''demo_p'', pr_idl_hash = None, pr_idl_source = None, pr_idl_json = None,
       pr_status = ''schema_created'' \<rparr>] \<rparr> \<rparr>"

theorem delete_program_outcome_witness:
  "\<exists>r w'. delete_program demo_api_env ''P'' True demo_registered = (r, w') \<and> (\<exists>resp. r = Inr resp) \<and>
     db_programs (aw_db w') ''P'' = None"
proof -
  obtain r w' where d: "delete_program demo_api_env ''P'' True demo_registered = (r, w')" by fastforce
  have "\<exists>resp. r = Inr resp"
    using d by (auto simp: delete_program_def demo_registered_def hard_delete_def validate_program_id_def demo_env_def
        demo_api_env_def or_fault_def Let_def)
  with d show ?thesis
    using delete_program_outcome [of demo_api_env demo_registered "''P''" _ r w'] by (auto simp: demo_registered_def)
qed

end
