(* ===== verification/Query_Correct.thy ===== *)
theory Query_Correct
  imports Api_Queries Registry_Correct "HOL-Library.Product_Lexorder"
begin

text \<open>
  Correctness of the query endpoints: request values never reach the SQL text, what following the
  cursors of a paged query enumerates, and what the statistics of a program are.
\<close>

section \<open>Filter keys\<close>

lemma match_suffix_hit:
  "f \<noteq> [] \<Longrightarrow> (suf, op) \<in> set sufs \<Longrightarrow> \<forall>(s, p) \<in> set sufs. \<forall>t. f @ suf = t @ s \<longrightarrow> (s, p) = (suf, op) \<Longrightarrow>
   match_suffix (f @ suf) sufs = (f, op)"
proof (induction sufs)
  case (Cons x sufs)
  obtain s p where x: "x = (s, p)" by fastforce
  show ?case
  proof (cases "strip_suffix s (f @ suf)")
    case None
    then have "(s, p) \<noteq> (suf, op)" using strip_suffix_Some [of suf "f @ suf" f] by auto
    then show ?thesis using Cons x None by auto
  next
    case (Some t)
    then have "f @ suf = t @ s" by (simp add: strip_suffix_Some)
    then show ?thesis using Cons.prems x Some by auto
  qed
qed simp

text \<open>No suffix is the end of another, so a key with a suffix is read in one way only.\<close>

lemma suffixes_apart:
  "list_all (\<lambda>(s, p). list_all (\<lambda>(s', p'). prefix (rev s) (rev s') \<longrightarrow> (s, p) = (s', p')) OPERATOR_SUFFIXES) OPERATOR_SUFFIXES"
  by code_simp

lemma extract_with_suffix:
  assumes "f \<noteq> []" and "(suf, op) \<in> set OPERATOR_SUFFIXES"
  shows "extract_field_and_op (f @ suf) = (f, op)"
  unfolding extract_field_and_op_def
proof (rule match_suffix_hit [OF assms])
  have "(s, p) = (suf, op)" if s: "(s, p) \<in> set OPERATOR_SUFFIXES" and e: "f @ suf = t @ s" for s p t
  proof -
    have "rev suf @ rev f = rev s @ rev t" using e by (metis rev_append)
    then have "prefix (rev s) (rev suf) \<or> prefix (rev suf) (rev s)"
      by (metis prefixI prefix_same_cases)
    then show ?thesis using suffixes_apart s assms(2) by (fastforce simp: list_all_iff)
  qed
  then show "\<forall>(s, p) \<in> set OPERATOR_SUFFIXES. \<forall>t. f @ suf = t @ s \<longrightarrow> (s, p) = (suf, op)" by blast
qed

section \<open>Values stay out of the SQL text\<close>

text \<open>What PostgreSQL parses: the texts, with a placeholder for every bound value.\<close>

definition sql_text :: "query_builder \<Rightarrow> string option list" where
  "sql_text qb = map (\<lambda>p. case p of Push s \<Rightarrow> Some s | PushBind _ \<Rightarrow> None) qb"

definition same_shape :: "resolved_filter \<Rightarrow> resolved_filter \<Rightarrow> bool" where
  "same_shape f g = (rf_column_expr f = rf_column_expr g \<and> rf_op f = rf_op g \<and>
     (rf_op f = OpIn \<longrightarrow> (in_values (rf_value f) = []) = (in_values (rf_value g) = [])))"

lemma sql_text_append [simp]: "sql_text (a @ b) = sql_text a @ sql_text b"
  by (simp add: sql_text_def)

lemma sql_text_simps [simp]:
  "sql_text [] = []" "sql_text (Push s # qb) = Some s # sql_text qb" "sql_text (PushBind v # qb) = None # sql_text qb"
  by (simp_all add: sql_text_def)

lemma clause_shape:
  assumes "same_shape f g" and "sql_text qb = sql_text qb'"
  shows "sql_text (append_filter_clause from_str qb f) = sql_text (append_filter_clause from_str qb' g)"
proof -
  have eq: "rf_column_expr g = rf_column_expr f" "rf_op g = rf_op f" using assms by (simp_all add: same_shape_def)
  show ?thesis
  proof (cases "rf_column_expr f")
    case (Promoted c t)
    then show ?thesis using assms eq by (auto simp: same_shape_def split: option.splits)
  next
    case (Jsonb k)
    then show ?thesis using assms eq by (auto simp: same_shape_def)
  qed
qed

lemma filters_shape:
  "list_all2 same_shape fs gs \<Longrightarrow> sql_text qb = sql_text qb' \<Longrightarrow>
   sql_text (fst (append_filters from_str qb b fs)) = sql_text (fst (append_filters from_str qb' b gs)) \<and>
   snd (append_filters from_str qb b fs) = snd (append_filters from_str qb' b gs)"
proof (induction fs gs arbitrary: qb qb' b rule: list_all2_induct)
  case (Cons f fs g gs)
  let ?w = "Push (if b then '' AND '' else '' WHERE '')"
  have "sql_text (append_filter_clause from_str (qb @ [?w]) f) = sql_text (append_filter_clause from_str (qb' @ [?w]) g)"
    using Cons.prems by (intro clause_shape [OF Cons.hyps(1)]) simp
  from Cons.IH [OF this] show ?case by (simp only: append_filters.simps)
qed simp

lemma build_query_base_shape:
  assumes "list_all2 same_shape fs gs"
  shows "sql_text (fst (build_query_base from_str target fs)) = sql_text (fst (build_query_base from_str target gs)) \<and>
    snd (build_query_base from_str target fs) = snd (build_query_base from_str target gs)"
  using filters_shape [OF assms refl] by (simp add: build_query_base_def split: prod.splits)

definition same_keys :: "params \<Rightarrow> params \<Rightarrow> bool" where
  "same_keys = list_all2 (\<lambda>x y. fst x = fst y \<and>
     (snd (extract_field_and_op (fst x)) = OpIn \<longrightarrow> (in_values (snd x) = []) = (in_values (snd y) = [])))"

definition pf_shape :: "parsed_filter \<Rightarrow> parsed_filter \<Rightarrow> bool" where
  "pf_shape f g = (pf_field f = pf_field g \<and> pf_op f = pf_op g \<and>
     (pf_op f = OpIn \<longrightarrow> (in_values (pf_value f) = []) = (in_values (pf_value g) = [])))"

lemma parse_filters_shape: "same_keys ps qs \<Longrightarrow> list_all2 pf_shape (parse_filters ps) (parse_filters qs)"
  unfolding same_keys_def
  by (induction ps qs rule: list_all2_induct) (auto simp: pf_shape_def split: prod.splits)

lemma resolve_filter_shape:
  assumes "pf_shape f g" and "resolve_filter flds types ctx f = Inr r"
  shows "\<exists>r'. resolve_filter flds types ctx g = Inr r' \<and> same_shape r r'"
proof -
  have fld: "pf_field g = pf_field f" using assms(1) by (simp add: pf_shape_def)
  have "resolve_column flds types ctx g = resolve_column flds types ctx f" unfolding resolve_column_def fld by (rule refl)
  then show ?thesis using assms
    by (cases "resolve_column flds types ctx f") (auto simp: pf_shape_def resolve_filter_def same_shape_def split: if_splits)
qed

lemma resolve_filters_shape:
  "list_all2 pf_shape fs gs \<Longrightarrow> resolve_filters fs flds types ctx = Inr rs \<Longrightarrow>
   \<exists>rs'. resolve_filters gs flds types ctx = Inr rs' \<and> list_all2 same_shape rs rs'"
  unfolding resolve_filters_def
proof (induction fs gs arbitrary: rs rule: list_all2_induct)
  case (Cons f fs g gs)
  then show ?case using resolve_filter_shape [OF Cons.hyps(1)] by (fastforce simp: resR)
qed simp

fun column_name :: "column_expr \<Rightarrow> string" where
  "column_name (Promoted c _) = c"
| "column_name (Jsonb f) = f"

lemma find_in: "find P xs = Some x \<Longrightarrow> x \<in> set xs \<and> P x"
  by (induction xs) (auto split: if_splits)

lemma fixed_column_name: "fixed_column_pg_type n cols = Some t \<Longrightarrow> n \<in> fst ` set cols"
  unfolding fixed_column_pg_type_def by (force dest: find_in)

lemma resolve_column_known:
  "resolve_column flds types ctx f = Inr c \<Longrightarrow> column_name c \<in> fst ` set (fixed_columns ctx) \<union> fld_name ` set flds"
proof -
  assume r: "resolve_column flds types ctx f = Inr c"
  have "column_name c = pf_field f" "fixed_column_pg_type (pf_field f) (fixed_columns ctx) = None \<Longrightarrow>
      find (\<lambda>fld. fld_name fld = pf_field f) flds \<noteq> None"
    using r by (auto simp: resolve_column_def split: option.splits)
  then show ?thesis using fixed_column_name [of "pf_field f" "fixed_columns ctx"]
      find_in [of "\<lambda>fld. fld_name fld = pf_field f" flds]
    by (cases "fixed_column_pg_type (pf_field f) (fixed_columns ctx)") force+
qed

lemma resolve_filter_known:
  "resolve_filter flds types ctx f = Inr r \<Longrightarrow>
   column_name (rf_column_expr r) \<in> fst ` set (fixed_columns ctx) \<union> fld_name ` set flds"
  using resolve_column_known [of flds types ctx f] by (auto simp: resolve_filter_def resR simp del: Un_iff split: if_splits)

lemma resolve_filters_known:
  "resolve_filters fs flds types ctx = Inr rs \<Longrightarrow> r \<in> set rs \<Longrightarrow>
   column_name (rf_column_expr r) \<in> fst ` set (fixed_columns ctx) \<union> fld_name ` set flds"
  unfolding resolve_filters_def
proof (induction fs arbitrary: rs)
  case (Cons f fs)
  then show ?case using resolve_filter_known [of flds types ctx f] by (auto simp: resR simp del: Un_iff)
qed simp

text \<open>C10. The values of a request never become SQL: two requests with the same parameter names (and the same
  lists of \<open>_in\<close> filters empty) either both fail or give, for every table, limit and offset,
  queries with exactly the same text, whatever their values are; and every column named in that
  text is a fixed column of the table or a field of the IDL.\<close>

theorem request_values_are_bound:
  assumes "same_keys ps qs" and "resolve_filters (parse_filters ps) flds types ctx = Inr fs"
  shows "\<exists>gs. resolve_filters (parse_filters qs) flds types ctx = Inr gs \<and>
    (\<forall>target limit offset. sql_text (build_query from_str target fs limit offset) =
       sql_text (build_query from_str target gs limit offset)) \<and>
    (\<forall>f \<in> set fs. column_name (rf_column_expr f) \<in> fst ` set (fixed_columns ctx) \<union> fld_name ` set flds)"
proof -
  obtain gs where gs: "resolve_filters (parse_filters qs) flds types ctx = Inr gs" "list_all2 same_shape fs gs"
    using resolve_filters_shape [OF parse_filters_shape [OF assms(1)] assms(2)] by blast
  have "sql_text (build_query from_str target fs limit offset) = sql_text (build_query from_str target gs limit offset)"
    for target limit offset
    using build_query_base_shape [OF gs(2), of from_str target] by (simp add: build_query_def append_order_and_limit_def)
  then show ?thesis using gs(1) resolve_filters_known [OF assms(2)] by (intro exI [of _ gs]) blast
qed

theorem request_values_are_bound_witness:
  "\<exists>fs gs. resolve_filters (parse_filters [(''slot_gt'', ''5'')]) [] [] CtxInstructions = Inr fs \<and>
     resolve_filters (parse_filters [(''slot_gt'', ''0; DROP TABLE t'')]) [] [] CtxInstructions = Inr gs \<and>
     sql_text (build_query (\<lambda>_. Inl []) (TInstructions ''s'') fs 10 0) =
     sql_text (build_query (\<lambda>_. Inl []) (TInstructions ''s'') gs 10 0)"
proof -
  have k: "same_keys [(''slot_gt'', ''5'')] [(''slot_gt'', ''0; DROP TABLE t'')]"
    using extract_with_suffix [of "''slot''" "''_gt''" OpGt] by (simp add: same_keys_def OPERATOR_SUFFIXES_def)
  have "\<exists>fs. resolve_filters (parse_filters [(''slot_gt'', ''5'')]) [] [] CtxInstructions = Inr fs"
    using extract_with_suffix [of "''slot''" "''_gt''" OpGt]
    by (simp add: OPERATOR_SUFFIXES_def RESERVED_PARAMS_def resolve_filters_def resolve_filter_def resolve_column_def
        fixed_columns_def INSTRUCTION_FIXED_COLUMNS_def fixed_column_pg_type_def)
  then obtain fs where "resolve_filters (parse_filters [(''slot_gt'', ''5'')]) [] [] CtxInstructions = Inr fs" by blast
  from request_values_are_bound [OF k this, of "\<lambda>_. Inl []"] this show ?thesis by blast
qed

section \<open>Cursors\<close>

definition ascii :: "string \<Rightarrow> bool" where
  "ascii s = list_all (\<lambda>c. (of_char c :: nat) < 128) s"

definition base64_pair :: "query_env \<Rightarrow> bool" where
  "base64_pair env = (\<forall>s. qe_decode env (qe_encode env s) = Some (as_bytes s))"

lemma unat_byte_of_char: "unat (byte_of_char c) = of_char c"
proof -
  have "(of_char c :: nat) < 256" by simp
  then show ?thesis by (simp add: byte_of_char_def unat_of_nat)
qed

lemma utf8_ascii: "ascii s \<Longrightarrow> utf8_error i (as_bytes s) = None"
  by (induction s arbitrary: i) (simp_all add: ascii_def as_bytes_def unat_byte_of_char)

lemma show_nat_ascii: "ascii (show_nat n)"
  using show_nat_digits [of n] by (auto simp: ascii_def list_all_iff is_digit_def)

lemma show_int_ascii: "ascii (show_int i)"
  using show_nat_ascii by (simp add: show_int_def ascii_def)

lemma decode_encode_cursor:
  assumes "base64_pair env" and "ascii sig" and "- (2 ^ 63) \<le> slot" and "slot < 2 ^ 63"
  shows "decode_cursor env (encode_cursor env slot sig) = Inr (slot, sig)"
proof -
  have "ascii (show_int slot @ ''_'' @ sig)" using show_int_ascii assms(2) by (simp add: ascii_def)
  then show ?thesis
    using assms split_once_append [OF show_int_no_underscore, of slot sig]
    by (simp add: decode_cursor_def encode_cursor_def base64_pair_def utf8_ascii parse_show_i64)
qed

section \<open>Pages\<close>

text \<open>
  The order of the page query: by slot, then by the signature under the collation of the database,
  given by its injective sort key.
\<close>

definition page_key :: "(string \<Rightarrow> string) \<Rightarrow> instruction_row \<Rightarrow> int \<times> string" where
  "page_key collate r = (ir_slot r, collate (ir_signature r))"

definition below :: "(string \<Rightarrow> string) \<Rightarrow> (int \<times> string) option \<Rightarrow> instruction_row \<Rightarrow> bool" where
  "below collate c r = (case c of None \<Rightarrow> True | Some (slot, sig) \<Rightarrow>
     ir_slot r < slot \<or> ir_slot r = slot \<and> collate (ir_signature r) < collate sig)"

abbreviation newest_first :: "(string \<Rightarrow> string) \<Rightarrow> instruction_row list \<Rightarrow> bool" where
  "newest_first collate \<equiv> sorted_wrt (\<lambda>a b. page_key collate b \<le> page_key collate a)"

definition page_query ::
  "query_env \<Rightarrow> string \<Rightarrow> resolved_filter list \<Rightarrow> (int \<times> string) option \<Rightarrow> int \<Rightarrow> query_builder" where
  "page_query env schema fs c limit =
     (let (qb, has_where) = build_query_base (qe_from_str env) (TInstructions schema) fs
      in append_order_and_limit (case c of None \<Rightarrow> qb | Some x \<Rightarrow> append_cursor qb has_where x) (TInstructions schema) limit 0)"

lemma instructions_query_page:
  "instructions_query env schema fs None limit = Inr (page_query env schema fs None limit)"
  "decode_cursor env cur = Inr c \<Longrightarrow>
   instructions_query env schema fs (Some cur) limit = Inr (page_query env schema fs (Some c) limit)"
  by (simp_all add: instructions_query_def page_query_def split: prod.splits)

text \<open>
  PostgreSQL on the page query, as documented for \<open>WHERE\<close>, \<open>ORDER BY\<close> and \<open>LIMIT\<close>: the rows of the
  table that satisfy the filters (\<open>P\<close>) and the cursor condition, in the given order, up to the
  limit; rows that compare equal come in any order.
\<close>

definition runs_pages ::
  "query_env \<Rightarrow> (string \<Rightarrow> string) \<Rightarrow> (instruction_row \<Rightarrow> bool) \<Rightarrow> database \<Rightarrow> string \<Rightarrow> resolved_filter list \<Rightarrow>
   instruction_row list \<Rightarrow> bool" where
  "runs_pages env collate P db schema fs rows = (\<forall>c limit. \<exists>ys.
     qe_instructions env (page_query env schema fs c limit) db = Inr (take (nat limit) ys) \<and>
     mset ys = mset (filter (\<lambda>r. P r \<and> below collate c r) rows) \<and> newest_first collate ys)"

text \<open>A request whose filters are accepted, on a program and instruction that exist, with nothing else running.\<close>

definition paged_request ::
  "query_env \<Rightarrow> string \<Rightarrow> string \<Rightarrow> params \<Rightarrow> string \<Rightarrow> resolved_filter list \<Rightarrow> api_world \<Rightarrow> bool" where
  "paged_request env pid name params schema fs w =
     ((\<forall>k x. ae_others (qe_api env) k x = x) \<and> validate_program_id (ae_idl (qe_api env)) pid = Inr () \<and>
      (\<exists>i ix fs0. registry_get_idl (aw_registry w) pid = Some i \<and> find (\<lambda>x. ix_name x = name) (idl_instructions i) = Some ix \<and>
         resolve_filters (parse_filters params) (ix_args ix) (idl_types i) CtxInstructions = Inr fs0 \<and>
         fs = fs0 @ [name_filter name]) \<and>
      get_schema_name (qe_api env) (aw_db w) pid = Inr schema \<and> map_of params ''cursor'' = None)"

definition with_cursor :: "string option \<Rightarrow> params \<Rightarrow> params" where
  "with_cursor cur params = (case cur of None \<Rightarrow> params | Some c \<Rightarrow> (''cursor'', c) # params)"

lemma with_cursor_simps [simp]:
  "parse_filters (with_cursor cur params) = parse_filters params"
  "clamp_limit (with_cursor cur params) cfg = clamp_limit params cfg"
  by (simp_all add: with_cursor_def RESERVED_PARAMS_def clamp_limit_def split: option.splits)

lemma instruction_rows_page:
  assumes "paged_request env pid name params schema fs w"
  shows "instruction_rows env pid name (with_cursor cur params) w =
    bindR (instructions_query env schema fs cur (clamp_limit params (qe_config env) + 1))
      (\<lambda>qb. map_errR map_query_error (qe_instructions env qb (aw_db w)))"
proof -
  have "map_of (with_cursor cur params) ''cursor'' = cur"
    using assms by (simp add: paged_request_def with_cursor_def split: option.splits)
  then show ?thesis using assms by (auto simp: paged_request_def instruction_rows_def cached_idl_of_def)
qed

definition data_of :: "json \<Rightarrow> json list" where
  "data_of body = (case json_get ''data'' body of Some (JArr xs) \<Rightarrow> xs | _ \<Rightarrow> [])"

definition cursor_of :: "json \<Rightarrow> string option" where
  "cursor_of body = (case Option.bind (json_get ''pagination'' body) (json_get ''next_cursor'') of
     Some (JStr s) \<Rightarrow> Some s | _ \<Rightarrow> None)"

lemma json_get_obj [simp]: "json_get k (json_obj kvs) = map_of (rev kvs) k"
  by (simp add: json_get_def json_obj_def map_of_btree_collect)

lemma take_more: "page_rows limit (take (nat (limit + 1)) ys) = (take (nat limit) ys, limit < int (length ys))" if "0 \<le> limit"
proof -
  have "limit = int (nat limit)" using that by simp
  then obtain n where n: "limit = int n" by blast
  have "nat (int n + 1) = Suc n" by simp
  then show ?thesis unfolding n page_rows_def by (auto simp: min_def Let_def)
qed

text \<open>One page.\<close>

lemma query_page:
  assumes req: "paged_request env pid name params schema fs w"
    and q: "instructions_query env schema fs cur (clamp_limit params (qe_config env) + 1) = Inr qb"
    and rows: "qe_instructions env qb (aw_db w) = Inr (take (nat (clamp_limit params (qe_config env) + 1)) ys)"
    and pos: "0 < clamp_limit params (qe_config env)"
  shows "\<exists>body. query_instructions env pid name (with_cursor cur params) w = Some (Inr (200, body)) \<and>
    data_of body = map instruction_row_to_json (take (nat (clamp_limit params (qe_config env))) ys) \<and>
    cursor_of body = (if clamp_limit params (qe_config env) < int (length ys)
      then Some (encode_cursor env (ir_slot (last (take (nat (clamp_limit params (qe_config env))) ys)))
                   (ir_signature (last (take (nat (clamp_limit params (qe_config env))) ys)))) else None)"
proof -
  let ?l = "clamp_limit params (qe_config env)"
  have "instruction_rows env pid name (with_cursor cur params) w = Inr (take (nat (?l + 1)) ys)"
    using instruction_rows_page [OF req, of cur] q rows by simp
  moreover have "take (nat ?l) ys \<noteq> []" if "?l < int (length ys)" using that pos by auto
  ultimately show ?thesis using take_more [of ?l ys] pos
    by (auto simp: query_instructions_def data_of_def cursor_of_def json_opt_def Let_def)
qed

text \<open>Two lists with the same elements, one ordered and one strictly ordered, are equal.\<close>

lemma ordered_unique:
  fixes key :: "'a \<Rightarrow> 'k :: linorder"
  assumes "mset xs = mset ys" and "sorted_wrt (\<lambda>a b. key b \<le> key a) xs" and "sorted_wrt (\<lambda>a b. key b < key a) ys"
  shows "xs = ys"
  using assms
proof (induction ys arbitrary: xs)
  case (Cons y ys)
  then obtain x xs' where xs: "xs = x # xs'" by (cases xs) auto
  have same: "set (x # xs') = set (y # ys)" using Cons.prems(1) xs by (metis mset_eq_setD)
  have "x = y"
  proof (rule ccontr)
    assume "x \<noteq> y"
    then have "x \<in> set ys" "y \<in> set xs'" using same by auto
    then have "key x < key y" "key y \<le> key x" using Cons.prems(2,3) xs by auto
    then show False by simp
  qed
  then show ?case using Cons xs by auto
qed simp

lemma strictly_ordered:
  fixes key :: "'a \<Rightarrow> 'k :: linorder"
  shows "sorted_wrt (\<lambda>a b. key b \<le> key a) xs \<Longrightarrow> distinct (map key xs) \<Longrightarrow> sorted_wrt (\<lambda>a b. key b < key a) xs"
proof (induction xs)
  case (Cons x xs)
  then show ?case by (auto simp: order.strict_iff_order image_iff)
qed simp

text \<open>A client that asks for a page, then for the page of its cursor, until there is none.\<close>

fun follow_cursors :: "nat \<Rightarrow> query_env \<Rightarrow> string \<Rightarrow> string \<Rightarrow> params \<Rightarrow> string option \<Rightarrow> api_world \<Rightarrow> json list" where
  "follow_cursors 0 env pid name params cur w = []"
| "follow_cursors (Suc n) env pid name params cur w =
     (case query_instructions env pid name (with_cursor cur params) w of
        Some (Inr (status, body)) \<Rightarrow>
          data_of body @ (case cursor_of body of None \<Rightarrow> [] | Some c \<Rightarrow> follow_cursors n env pid name params (Some c) w)
      | _ \<Rightarrow> [])"

text \<open>The rows after a given row are those below its cursor.\<close>

lemma below_last:
  assumes "sorted_wrt (\<lambda>a b. page_key collate b < page_key collate a) (pre @ rest)" and "pre \<noteq> []"
  shows "filter (below collate (Some (ir_slot (last pre), ir_signature (last pre)))) (pre @ rest) = rest"
proof -
  have b: "below collate (Some (ir_slot (last pre), ir_signature (last pre))) r \<longleftrightarrow> page_key collate r < page_key collate (last pre)" for r
    by (auto simp: below_def page_key_def less_prod_def)
  have "\<not> page_key collate r < page_key collate (last pre)" if "r \<in> set pre" for r
  proof -
    have "pre = butlast pre @ [last pre]" using assms(2) by simp
    then have "sorted_wrt (\<lambda>a b. page_key collate b < page_key collate a) (butlast pre @ [last pre])" "r \<in> set (butlast pre @ [last pre])"
      using assms(1) that by (simp_all add: sorted_wrt_append)
    then show ?thesis by (auto simp: sorted_wrt_append)
  qed
  moreover have "page_key collate r < page_key collate (last pre)" if "r \<in> set rest" for r
    using assms that by (auto simp: sorted_wrt_append)
  ultimately show ?thesis using b by (simp add: filter_empty_conv filter_id_conv)
qed

text \<open>What the columns hold: a \<open>BIGINT\<close> slot and a base58 signature.\<close>

definition row_ok :: "instruction_row \<Rightarrow> bool" where
  "row_ok r = (- (2 ^ 63) \<le> ir_slot r \<and> ir_slot r < 2 ^ 63 \<and> ascii (ir_signature r))"

definition cursor_after :: "instruction_row list \<Rightarrow> (int \<times> string) option" where
  "cursor_after pre = (if pre = [] then None else Some (ir_slot (last pre), ir_signature (last pre)))"

definition cursor_text :: "query_env \<Rightarrow> instruction_row list \<Rightarrow> string option" where
  "cursor_text env pre = (if pre = [] then None else Some (encode_cursor env (ir_slot (last pre)) (ir_signature (last pre))))"

lemma cursor_text_query:
  assumes "base64_pair env" and "\<forall>r \<in> set pre. row_ok r"
  shows "instructions_query env schema fs (cursor_text env pre) limit = Inr (page_query env schema fs (cursor_after pre) limit)"
  using assms decode_encode_cursor [OF assms(1), of "ir_signature (last pre)" "ir_slot (last pre)"]
  by (auto simp: cursor_text_def cursor_after_def instructions_query_page row_ok_def)

lemma rows_after:
  assumes "runs_pages env collate P db schema fs rows"
    and "sorted_wrt (\<lambda>a b. page_key collate b < page_key collate a) (pre @ rest)" and "mset (pre @ rest) = mset (filter P rows)"
  shows "qe_instructions env (page_query env schema fs (cursor_after pre) limit) db = Inr (take (nat limit) rest)"
proof -
  obtain ys where ys: "qe_instructions env (page_query env schema fs (cursor_after pre) limit) db = Inr (take (nat limit) ys)"
      "mset ys = mset (filter (\<lambda>r. P r \<and> below collate (cursor_after pre) r) rows)" "newest_first collate ys"
    using assms(1) unfolding runs_pages_def by blast
  have "filter (below collate (cursor_after pre)) (pre @ rest) = rest"
    using below_last [OF assms(2)] by (auto simp: cursor_after_def below_def)
  then have "mset rest = filter_mset (below collate (cursor_after pre)) (mset (filter P rows))"
    using assms(3) by (metis mset_filter)
  then have "mset ys = mset rest" using ys(2) by (simp add: filter_filter_mset conj_commute)
  then have "ys = rest" using ys(3) assms(2) ordered_unique [of ys rest "page_key collate"] by (simp add: sorted_wrt_append)
  then show ?thesis using ys(1) by simp
qed

lemma follow_rest:
  assumes req: "paged_request env pid name params schema fs w" and pages: "runs_pages env collate P (aw_db w) schema fs rows"
    and b64: "base64_pair env" and pos: "0 < clamp_limit params (qe_config env)"
  shows "sorted_wrt (\<lambda>a b. page_key collate b < page_key collate a) (pre @ rest) \<Longrightarrow> mset (pre @ rest) = mset (filter P rows) \<Longrightarrow>
    \<forall>r \<in> set (pre @ rest). row_ok r \<Longrightarrow> length rest < n \<Longrightarrow>
    follow_cursors n env pid name params (cursor_text env pre) w = map instruction_row_to_json rest"
proof (induction n arbitrary: pre rest)
  case (Suc n)
  let ?l = "clamp_limit params (qe_config env)"
  let ?page = "take (nat ?l) rest"
  have "instructions_query env schema fs (cursor_text env pre) (?l + 1) = Inr (page_query env schema fs (cursor_after pre) (?l + 1))"
    using cursor_text_query [OF b64] Suc.prems(3) by simp
  from query_page [OF req this rows_after [OF pages Suc.prems(1,2)] pos]
  obtain body where body: "query_instructions env pid name (with_cursor (cursor_text env pre) params) w = Some (Inr (200, body))"
      "data_of body = map instruction_row_to_json ?page"
      "cursor_of body = (if ?l < int (length rest) then Some (encode_cursor env (ir_slot (last ?page)) (ir_signature (last ?page))) else None)"
    by blast
  show ?case
  proof (cases "?l < int (length rest)")
    case False
    then show ?thesis using body by simp
  next
    case True
    have ne: "?page \<noteq> []" using True pos by auto
    have "cursor_text env (pre @ ?page) = Some (encode_cursor env (ir_slot (last ?page)) (ir_signature (last ?page)))"
      using ne by (simp add: cursor_text_def)
    moreover have "follow_cursors n env pid name params (cursor_text env (pre @ ?page)) w = map instruction_row_to_json (drop (nat ?l) rest)"
    proof (rule Suc.IH)
      show "length (drop (nat ?l) rest) < n" using Suc.prems(4) True pos by simp
    qed (use Suc.prems(1,2,3) in simp_all)
    ultimately have "follow_cursors (Suc n) env pid name params (cursor_text env pre) w =
        map instruction_row_to_json ?page @ map instruction_row_to_json (drop (nat ?l) rest)"
      using body True by simp
    then show ?thesis by (simp only: map_append [symmetric] append_take_drop_id)
  qed
qed simp

text \<open>C9. Paging is complete on a table that does not change meanwhile and in which no two matching rows
  share slot and signature: a client that starts without a cursor and follows \<open>next_cursor\<close> until
  there is none gets, for any positive page size, every row that matches its filters exactly once,
  newest first, and it stops. PostgreSQL runs each built query as its text says: the matching rows
  below the cursor, ordered by slot and signature downwards, cut at the limit; base64 decodes what
  it encoded; and the stored slots and signatures are such as the writer stores.\<close>

theorem paging_enumerates_rows:
  assumes "paged_request env pid name params schema fs w" and "runs_pages env collate P (aw_db w) schema fs rows"
    and "base64_pair env" and "0 < clamp_limit params (qe_config env)"
    and "\<forall>r \<in> set rows. row_ok r" and "distinct (map (page_key collate) (filter P rows))"
  shows "\<exists>ys. mset ys = mset (filter P rows) \<and> newest_first collate ys \<and>
    follow_cursors (Suc (length ys)) env pid name params None w = map instruction_row_to_json ys"
proof -
  obtain ys where ys: "mset ys = mset (filter P rows)" "newest_first collate ys"
    using assms(2) [unfolded runs_pages_def, rule_format, of None 0] by (auto simp: below_def)
  have "distinct (map (page_key collate) ys)" using ys(1) assms(6) by (metis mset_eq_imp_distinct_iff mset_map)
  then have "sorted_wrt (\<lambda>a b. page_key collate b < page_key collate a) ([] @ ys)" using strictly_ordered ys(2) by auto
  moreover have "\<forall>r \<in> set ([] @ ys). row_ok r" using mset_eq_setD [OF ys(1)] assms(5) by auto
  ultimately have "follow_cursors (Suc (length ys)) env pid name params (cursor_text env []) w = map instruction_row_to_json ys"
    using follow_rest [OF assms(1-4), of "[]" ys] ys(1) by (simp del: follow_cursors.simps)
  then show ?thesis using ys by (auto simp: cursor_text_def simp del: follow_cursors.simps)
qed

text \<open>C34. Rows of one transaction can be lost between pages: the cursor names slot and signature only, so
  when exactly two rows match and share both (two instructions of the same name in one
  transaction), a client with page size one gets one of them and never the other, however long
  it follows the cursors.\<close>

theorem paging_loses_tied_row:
  assumes req: "paged_request env pid name params schema fs w" and pages: "runs_pages env collate P (aw_db w) schema fs rows"
    and b64: "base64_pair env" and one: "clamp_limit params (qe_config env) = 1"
    and two: "filter P rows = [a, b]" and tie: "ir_slot a = ir_slot b" "ir_signature a = ir_signature b"
    and ok: "row_ok a"
  shows "\<exists>x \<in> {a, b}. \<forall>n. follow_cursors (Suc n) env pid name params None w = [instruction_row_to_json x]"
proof -
  let ?cur = "cursor_text env [a]"
  have rows: "filter (\<lambda>r. P r \<and> below collate c r) rows = filter (below collate c) [a, b]" for c
    unfolding two [symmetric] by (simp add: conj_commute)
  obtain ys where ys: "qe_instructions env (page_query env schema fs None 2) (aw_db w) = Inr (take (nat 2) ys)" "mset ys = mset [a, b]"
    using pages [unfolded runs_pages_def, rule_format, of None 2] unfolding rows by (auto simp: below_def)
  have "length ys = 2" "set ys = {a, b}" using mset_eq_length [OF ys(2)] mset_eq_setD [OF ys(2)] by simp_all
  then obtain x y where "ys = [x, y]" by (auto simp: numeral_2_eq_2 length_Suc_conv)
  with \<open>set ys = {a, b}\<close> have xy: "ys = [x, y]" "x \<in> {a, b}" by auto
  have key: "encode_cursor env (ir_slot x) (ir_signature x) = the ?cur" using xy(2) tie by (auto simp: cursor_text_def)
  have none: "qe_instructions env (page_query env schema fs (cursor_after [a]) 2) (aw_db w) = Inr (take (nat 2) [])"
    using pages [unfolded runs_pages_def, rule_format, of "cursor_after [a]" 2] tie unfolding rows
    by (auto simp: cursor_after_def below_def)
  obtain body where body: "query_instructions env pid name (with_cursor None params) w = Some (Inr (200, body))"
      "data_of body = [instruction_row_to_json x]" "cursor_of body = ?cur"
    using query_page [OF req, of None "page_query env schema fs None 2" "[x, y]"] instructions_query_page(1) [of env schema fs 2] ys(1) xy(1) one key
    by (auto simp: cursor_text_def)
  obtain body' where body': "query_instructions env pid name (with_cursor ?cur params) w = Some (Inr (200, body'))"
      "data_of body' = []" "cursor_of body' = None"
    using query_page [OF req, of ?cur "page_query env schema fs (cursor_after [a]) 2" "[]"] cursor_text_query [OF b64, of "[a]" schema fs 2] none one ok by auto
  have "follow_cursors (Suc n) env pid name params None w = [instruction_row_to_json x]" for n
    using body body' by (cases n) (auto simp: cursor_text_def)
  then show ?thesis using xy(2) by blast
qed

text \<open>A database that reads the bound values of the page query, for the concrete instances below.\<close>

definition binds :: "query_builder \<Rightarrow> bind_value list" where
  "binds qb = List.map_filter (\<lambda>p. case p of PushBind v \<Rightarrow> Some v | Push _ \<Rightarrow> None) qb"

definition demo_select :: "instruction_row list \<Rightarrow> query_builder \<Rightarrow> sqlx_error + instruction_row list" where
  "demo_select rows qb =
     (case binds qb of
        [_, BindInt l] \<Rightarrow> Inr (take (nat l) rows)
      | [_, BindInt s, _, BindText sig, BindInt l] \<Rightarrow> Inr (take (nat l) (filter (below id (Some (s, sig))) rows))
      | _ \<Rightarrow> Inl (SqlxOther ''unexpected query''))"

lemma binds_page_query:
  "binds (page_query env schema [name_filter n] c limit) =
     [BindText n] @ (case c of None \<Rightarrow> [] | Some (s, sig) \<Rightarrow> [BindInt s, BindInt s, BindText sig]) @ [BindInt limit]"
  by (simp add: binds_def page_query_def build_query_base_def name_filter_def append_order_and_limit_def append_cursor_def
      map_filter_def split: option.splits prod.splits)

lemma demo_runs_pages:
  assumes "newest_first id rows" and "\<And>qb db. qe_instructions env qb db = demo_select rows qb"
  shows "runs_pages env id (\<lambda>_. True) db schema [name_filter n] rows"
  unfolding runs_pages_def
proof (intro allI)
  fix c :: "(int \<times> string) option" and limit
  have "newest_first id (filter (below id c) rows)" using assms(1) by (rule sorted_wrt_filter)
  then show "\<exists>ys. qe_instructions env (page_query env schema [name_filter n] c limit) db = Inr (take (nat limit) ys) \<and>
      mset ys = mset (filter (\<lambda>r. True \<and> below id c r) rows) \<and> newest_first id ys"
    by (intro exI [of _ "filter (below id c) rows"])
      (cases c; auto simp: assms(2) demo_select_def binds_page_query below_def [abs_def])
qed

definition demo_ix_row :: "int \<Rightarrow> nat \<Rightarrow> instruction_row" where
  "demo_ix_row slot k = \<lparr> ir_id = k, ir_signature = ''sig'', ir_slot = slot, ir_block_time = None, ir_instruction_name = ''init'',
     ir_instruction_index = int k, ir_inner_index = None, ir_args = JNull, ir_accounts = JNull, ir_data = JNull, ir_is_inner_ix = False \<rparr>"

definition demo_idl :: idl where
  "demo_idl = \<lparr> idl_address = ''P'', idl_metadata_name = ''demo'', idl_metadata_version = ''1'',
     idl_instructions = [\<lparr> ix_name = ''init'', ix_discriminator = [], ix_args = [] \<rparr>], idl_accounts = [], idl_types = [] \<rparr>"

definition demo_query_env :: "instruction_row list \<Rightarrow> query_env" where
  "demo_query_env rows = \<lparr> qe_api = demo_api_env, qe_config = test_default, qe_from_str = (\<lambda>_. Inl []), qe_encode = id,
     qe_decode = (\<lambda>s. Some (as_bytes s)), qe_instructions = (\<lambda>qb _. demo_select rows qb), qe_accounts = (\<lambda>_ _. Inr []),
     qe_count = (\<lambda>_ _. Inr 0), qe_count_first = False, qe_buckets = (\<lambda>_ _. Inr []), qe_group_order = id,
     qe_account_fault = None, qe_state_fault = None, qe_stats_fault = None, qe_elapsed_ms = 0 \<rparr>"

definition demo_served :: api_world where
  "demo_served = demo_registered\<lparr> aw_registry := \<lparr> reg_idl_manager = (idl_manager_new ''url'')\<lparr> im_cache :=
     [''P'' \<mapsto> \<lparr> ce_idl = demo_idl, ce_hash = [], ce_source = Manual, ce_raw_json = [] \<rparr>] \<rparr> \<rparr> \<rparr>"

lemma demo_paged_request:
  "paged_request (demo_query_env rows) ''P'' ''init'' [(''limit'', ''1'')] ''demo_p'' [name_filter ''init''] demo_served"
  by (simp add: paged_request_def demo_query_env_def demo_served_def demo_registered_def demo_world_def registry_get_idl_def
      get_cached_def demo_idl_def validate_program_id_def demo_env_def RESERVED_PARAMS_def resolve_filters_def get_schema_name_def
      demo_api_env_def or_fault_def)

lemma demo_limit: "clamp_limit [(''limit'', ''1'')] (qe_config (demo_query_env rows)) = 1"
  by (simp add: clamp_limit_def demo_query_env_def test_default_def parse_i64_def read_nat_def is_digit_def digit_val_def)

lemma demo_base64: "base64_pair (demo_query_env rows)"
  by (simp add: base64_pair_def demo_query_env_def)

lemma demo_row_ok: "- 1 \<le> s \<Longrightarrow> s < 100 \<Longrightarrow> row_ok (demo_ix_row s k)"
  by (simp add: row_ok_def demo_ix_row_def ascii_def)

theorem paging_enumerates_rows_witness:
  "\<exists>ys. mset ys = mset [demo_ix_row 9 1, demo_ix_row 7 0] \<and>
     follow_cursors (Suc (length ys)) (demo_query_env [demo_ix_row 9 1, demo_ix_row 7 0]) ''P'' ''init'' [(''limit'', ''1'')] None
       demo_served = map instruction_row_to_json ys"
proof -
  let ?rows = "[demo_ix_row 9 1, demo_ix_row 7 0]"
  have "runs_pages (demo_query_env ?rows) id (\<lambda>_. True) (aw_db demo_served) ''demo_p'' [name_filter ''init''] ?rows"
    by (rule demo_runs_pages) (simp_all add: demo_ix_row_def page_key_def demo_query_env_def)
  from paging_enumerates_rows [OF demo_paged_request this demo_base64] show ?thesis
    using demo_row_ok [of 9 1] demo_row_ok [of 7 0] by (auto simp: demo_limit page_key_def demo_ix_row_def)
qed

theorem paging_loses_tied_row_witness:
  "\<exists>x \<in> {demo_ix_row 9 0, demo_ix_row 9 1}. \<forall>n.
     follow_cursors (Suc n) (demo_query_env [demo_ix_row 9 0, demo_ix_row 9 1]) ''P'' ''init'' [(''limit'', ''1'')] None demo_served =
       [instruction_row_to_json x]"
proof -
  let ?rows = "[demo_ix_row 9 0, demo_ix_row 9 1]"
  have "runs_pages (demo_query_env ?rows) id (\<lambda>_. True) (aw_db demo_served) ''demo_p'' [name_filter ''init''] ?rows"
    by (rule demo_runs_pages) (simp_all add: demo_ix_row_def page_key_def demo_query_env_def)
  from paging_loses_tied_row [OF demo_paged_request this demo_base64 demo_limit] show ?thesis
    using demo_row_ok [of 9 0] by (auto simp: demo_ix_row_def simp del: follow_cursors.simps)
qed

section \<open>Statistics\<close>

definition opt_min :: "int set \<Rightarrow> int option" where
  "opt_min S = (if S = {} then None else Some (Min S))"

definition opt_max :: "int set \<Rightarrow> int option" where
  "opt_max S = (if S = {} then None else Some (Max S))"

definition slots_named :: "instruction_row list \<Rightarrow> string set \<Rightarrow> int set" where
  "slots_named rows names = ir_slot ` {r \<in> set rows. ir_instruction_name r \<in> names}"

lemma slots_named_insert: "slots_named rows (insert n names) = slots_named rows {n} \<union> slots_named rows names"
  by (auto simp: slots_named_def)

lemma finite_slots_named [simp]: "finite (slots_named rows names)"
  by (simp add: slots_named_def)

lemma fold_min_max:
  fixes xs :: "int list"
  assumes "xs \<noteq> []"
  shows "fold min xs (hd xs) = Min (set xs)" and "fold max xs (hd xs) = Max (set xs)"
proof -
  obtain y ys where xs: "xs = y # ys" using assms by (cases xs) auto
  show "fold min xs (hd xs) = Min (set xs)" "fold max xs (hd xs) = Max (set xs)"
    unfolding xs Min.set_eq_fold Max.set_eq_fold by simp_all
qed

lemma group_row_slots:
  "group_row rows n = (opt_min (slots_named rows {n}), opt_max (slots_named rows {n}), n,
     int (length (filter (\<lambda>r. ir_instruction_name r = n) rows)))"
proof -
  let ?s = "map ir_slot (filter (\<lambda>r. ir_instruction_name r = n) rows)"
  have set: "set ?s = slots_named rows {n}" by (auto simp: slots_named_def)
  then have "?s = [] \<longleftrightarrow> slots_named rows {n} = {}" by (metis set_empty)
  then show ?thesis using fold_min_max [of ?s] unfolding set by (auto simp: group_row_def Let_def opt_min_def opt_max_def)
qed

lemma fold_groups_spec:
  "finite S \<Longrightarrow> fold_groups (map (group_row rows) names) (opt_min S) (opt_max S) counts =
    (opt_min (S \<union> slots_named rows (set names)), opt_max (S \<union> slots_named rows (set names)),
     fold (\<lambda>n. map_insert n (JInt (int (length (filter (\<lambda>r. ir_instruction_name r = n) rows))))) names counts)"
proof (induction names arbitrary: S counts)
  case (Cons n names)
  let ?T = "slots_named rows {n}"
  have mn: "(case opt_min ?T of None \<Rightarrow> opt_min S | Some f \<Rightarrow> Some (case opt_min S of None \<Rightarrow> f | Some cur \<Rightarrow> min cur f)) = opt_min (S \<union> ?T)"
    using Cons.prems by (auto simp: opt_min_def Min_Un)
  have mx: "(case opt_max ?T of None \<Rightarrow> opt_max S | Some f \<Rightarrow> Some (case opt_max S of None \<Rightarrow> f | Some cur \<Rightarrow> max cur f)) = opt_max (S \<union> ?T)"
    using Cons.prems by (auto simp: opt_max_def Max_Un)
  have "S \<union> slots_named rows (set (n # names)) = (S \<union> ?T) \<union> slots_named rows (set names)"
    using slots_named_insert [of rows n "set names"] by (simp add: Un_assoc)
  then show ?case using Cons.IH [of "S \<union> ?T"] Cons.prems by (simp add: group_row_slots mn mx)
qed (simp add: slots_named_def)

lemma map_of_fold_insert:
  "map_of (fold (\<lambda>n. map_insert n (f n)) names counts) k = (if k \<in> set names then Some (f k) else map_of counts k)"
  by (induction names arbitrary: counts) (auto simp: map_of_map_insert)

text \<open>C35. The statistics of a program are exact: whatever order the database returns the groups in, the
  answer has the smallest and the largest slot of the whole instruction table (null when it is
  empty), and the counts have exactly the names of the table, each with its number of rows.\<close>

theorem program_stats_exact:
  assumes quiet: "\<And>k x. ae_others (qe_api env) k x = x" and valid: "validate_program_id (ae_idl (qe_api env)) pid = Inr ()"
    and name: "get_schema_name (qe_api env) (aw_db w) pid = Inr schema" and ps: "db_schemas (aw_db w) schema = Some ps"
    and ok: "qe_state_fault env = None" "qe_stats_fault env = None"
    and order: "\<And>xs. mset (qe_group_order env xs) = mset xs"
  shows "\<exists>body d counts. program_stats env pid w = Inr (200, body) \<and> json_get ''data'' body = Some d \<and>
    json_get ''first_seen_slot'' d = Some (json_opt JInt (opt_min (ir_slot ` set (ps_instructions ps)))) \<and>
    json_get ''last_seen_slot'' d = Some (json_opt JInt (opt_max (ir_slot ` set (ps_instructions ps)))) \<and>
    json_get ''instruction_counts'' d = Some (JObj counts) \<and>
    (\<forall>n. map_of counts n = (if n \<in> ir_instruction_name ` set (ps_instructions ps)
       then Some (JInt (int (length (filter (\<lambda>r. ir_instruction_name r = n) (ps_instructions ps))))) else None))"
proof -
  let ?rows = "ps_instructions ps"
  let ?names = "qe_group_order env (remdups (map ir_instruction_name ?rows))"
  let ?counts = "fold (\<lambda>n. map_insert n (JInt (int (length (filter (\<lambda>r. ir_instruction_name r = n) ?rows))))) ?names []"
  have names: "set ?names = ir_instruction_name ` set ?rows" using mset_eq_setD [OF order] by auto
  then have "slots_named ?rows (set ?names) = ir_slot ` set ?rows" by (auto simp: slots_named_def)
  then have groups: "fold_groups (group_rows env ?rows) None None [] =
      (opt_min (ir_slot ` set ?rows), opt_max (ir_slot ` set ?rows), ?counts)"
    using fold_groups_spec [of "{}" ?rows ?names "[]"] by (simp add: group_rows_def opt_min_def opt_max_def)
  have counts: "map_of ?counts n = (if n \<in> ir_instruction_name ` set ?rows
       then Some (JInt (int (length (filter (\<lambda>r. ir_instruction_name r = n) ?rows)))) else None)" for n
    unfolding map_of_fold_insert names by simp
  show ?thesis
    using quiet valid name ps ok groups counts
    by (auto simp: program_stats_def try_join_def split: option.splits prod.splits)
qed

theorem program_stats_exact_witness:
  "\<exists>body d. program_stats (demo_query_env []) ''P'' (demo_served\<lparr> aw_db := (aw_db demo_served)\<lparr> db_schemas := [''demo_p'' \<mapsto>
       \<lparr> ps_accounts = Map.empty, ps_instructions = [demo_ix_row 9 0, demo_ix_row 7 1], ps_next_id = 2, ps_metadata = Map.empty,
         ps_checkpoints = Map.empty \<rparr>] \<rparr> \<rparr>) = Inr (200, body) \<and> json_get ''data'' body = Some d \<and>
     json_get ''first_seen_slot'' d = Some (JInt 7) \<and> json_get ''last_seen_slot'' d = Some (JInt 9)"
proof -
  let ?ps = "\<lparr> ps_accounts = Map.empty, ps_instructions = [demo_ix_row 9 0, demo_ix_row 7 1], ps_next_id = 2, ps_metadata = Map.empty,
         ps_checkpoints = Map.empty \<rparr>"
  let ?w = "demo_served\<lparr> aw_db := (aw_db demo_served)\<lparr> db_schemas := [''demo_p'' \<mapsto> ?ps] \<rparr> \<rparr>"
  have "get_schema_name (qe_api (demo_query_env [])) (aw_db ?w) ''P'' = Inr ''demo_p''"
    "validate_program_id (ae_idl (qe_api (demo_query_env []))) ''P'' = Inr ()"
    by (simp_all add: get_schema_name_def demo_query_env_def demo_served_def demo_registered_def demo_api_env_def or_fault_def
        validate_program_id_def demo_env_def)
  moreover have "opt_min (ir_slot ` set (ps_instructions ?ps)) = Some 7" "opt_max (ir_slot ` set (ps_instructions ?ps)) = Some 9"
    by (simp_all add: opt_min_def opt_max_def demo_ix_row_def)
  ultimately show ?thesis
    using program_stats_exact [of "demo_query_env []" "''P''" ?w "''demo_p''" ?ps]
    by (simp add: demo_query_env_def json_opt_def) blast
qed

end
