(* ===== verification/Router_Correct.thy ===== *)
theory Router_Correct
  imports Router Query_Correct
begin

text \<open>
  Correctness of the router: the routes never overlap, so each request has one handler, and every
  endpoint is reached with the segments of its path; and an internal error never shows its cause.
\<close>

section \<open>Segments\<close>

text \<open>The segments between the slashes of a path; a path starts with a slash and the root has none.\<close>

fun pieces :: "string \<Rightarrow> string list" where
  "pieces [] = [[]]"
| "pieces (c # cs) = (if c = CHR ''/'' then [] # pieces cs else (case pieces cs of [] \<Rightarrow> [[c]] | p # ps \<Rightarrow> (c # p) # ps))"

definition segments :: "string \<Rightarrow> string list" where
  "segments path = (if path = ''/'' then [] else tl (pieces path))"

definition is_capture :: "string \<Rightarrow> bool" where
  "is_capture s = (s \<noteq> [] \<and> hd s = CHR ''{'')"

text \<open>A literal segment matches itself, a capture any segment that is not empty.\<close>

fun match_segments :: "string list \<Rightarrow> string list \<Rightarrow> string list option" where
  "match_segments [] [] = Some []"
| "match_segments (p # ps) (s # ss) =
     (if is_capture p then (if s = [] then None else map_option ((#) s) (match_segments ps ss))
      else if p = s then match_segments ps ss else None)"
| "match_segments _ _ = None"

text \<open>What axum documents of its patterns: a nested route has the segments of the prefix and then its own.\<close>

definition axum_matching :: "(string \<Rightarrow> string \<Rightarrow> string \<Rightarrow> string list option) \<Rightarrow> bool" where
  "axum_matching matches = (\<forall>nest pat path. path \<noteq> [] \<and> hd path = CHR ''/'' \<longrightarrow>
     matches nest pat path = match_segments (segments nest @ segments pat) (segments path))"

lemma find_member: "find P xs = Some x \<Longrightarrow> x \<in> set xs \<and> P x"
  by (induction xs) (auto split: if_splits)

section \<open>Paths of a pattern\<close>

fun fill :: "string list \<Rightarrow> string list \<Rightarrow> string list" where
  "fill [] args = []"
| "fill (p # ps) args = (if is_capture p then hd args # fill ps (tl args) else p # fill ps args)"

definition path_of :: "string \<Rightarrow> string \<Rightarrow> string list \<Rightarrow> string" where
  "path_of nest pat args = concat (map ((#) CHR ''/'') (fill (segments nest @ segments pat) args))"

abbreviation plain_segment :: "string \<Rightarrow> bool" where
  "plain_segment s \<equiv> s \<noteq> [] \<and> CHR ''/'' \<notin> set s"

lemma pieces_not_empty [simp]: "pieces s \<noteq> []"
  by (induction s) (auto split: list.splits)

lemma pieces_plain: "CHR ''/'' \<notin> set s \<Longrightarrow> pieces (s @ CHR ''/'' # t) = s # pieces t"
  by (induction s) auto

lemma pieces_last: "CHR ''/'' \<notin> set s \<Longrightarrow> pieces s = [s]"
  by (induction s) auto

lemma pieces_path: "\<forall>s \<in> set ss. CHR ''/'' \<notin> set s \<Longrightarrow> CHR ''/'' \<notin> set a \<Longrightarrow> pieces (a @ concat (map ((#) CHR ''/'') ss)) = a # ss"
  by (induction ss arbitrary: a) (auto simp: pieces_plain pieces_last)

lemma segments_path:
  assumes "\<forall>s \<in> set ss. plain_segment s" and "ss \<noteq> []"
  shows "segments (concat (map ((#) CHR ''/'') ss)) = ss"
proof -
  have "concat (map ((#) CHR ''/'') ss) \<noteq> ''/''" using assms by (cases ss) auto
  then show ?thesis using pieces_path [of ss "[]"] assms(1) by (simp add: segments_def)
qed

lemma match_fill:
  "length args = length (filter is_capture ps) \<Longrightarrow> \<forall>a \<in> set args. a \<noteq> [] \<Longrightarrow> match_segments ps (fill ps args) = Some args"
proof (induction ps arbitrary: args)
  case (Cons p ps)
  then show ?case by (cases args) auto
qed simp

lemma fill_plain:
  "length args = length (filter is_capture ps) \<Longrightarrow> \<forall>a \<in> set args. plain_segment a \<Longrightarrow>
   \<forall>p \<in> set ps. plain_segment p \<Longrightarrow> \<forall>s \<in> set (fill ps args). plain_segment s"
proof (induction ps arbitrary: args)
  case (Cons p ps)
  show ?case
  proof (cases "is_capture p")
    case True
    then obtain a as where "args = a # as" using Cons.prems(1) by (cases args) simp_all
    then show ?thesis using True Cons.IH [of as] Cons.prems by simp
  next
    case False
    then show ?thesis using Cons.IH [of args] Cons.prems by simp
  qed
qed simp

section \<open>The routes do not overlap\<close>

text \<open>Two patterns of the same length that match one path agree wherever both are literal.\<close>

fun apart :: "string list \<Rightarrow> string list \<Rightarrow> bool" where
  "apart [] [] = False"
| "apart (p # ps) (q # qs) = ((\<not> is_capture p \<and> \<not> is_capture q \<and> p \<noteq> q) \<or> apart ps qs)"
| "apart _ _ = True"

lemma apart_exclusive: "apart ps qs \<Longrightarrow> match_segments ps ss \<noteq> None \<Longrightarrow> match_segments qs ss = None"
  by (induction ps qs arbitrary: ss rule: apart.induct; case_tac ss) (auto split: if_splits)

abbreviation route_segments :: "route \<Rightarrow> string list" where
  "route_segments r \<equiv> segments (fst r) @ segments (fst (snd r))"

lemma routes_apart: "r \<in> set routes \<Longrightarrow> r' \<in> set routes \<Longrightarrow> r \<noteq> r' \<Longrightarrow> apart (route_segments r) (route_segments r')"
proof -
  have "\<forall>r \<in> set routes. \<forall>r' \<in> set routes. r \<noteq> r' \<longrightarrow> apart (route_segments r) (route_segments r')"
    by code_simp
  then show "r \<in> set routes \<Longrightarrow> r' \<in> set routes \<Longrightarrow> r \<noteq> r' \<Longrightarrow> apart (route_segments r) (route_segments r')" by blast
qed

lemma routes_plain: "r \<in> set routes \<Longrightarrow> \<forall>p \<in> set (route_segments r). plain_segment p"
proof -
  have "\<forall>r \<in> set routes. \<forall>p \<in> set (route_segments r). plain_segment p" by code_simp
  then show "r \<in> set routes \<Longrightarrow> \<forall>p \<in> set (route_segments r). plain_segment p" by blast
qed

lemma routes_proper: "r \<in> set routes \<Longrightarrow> route_segments r \<noteq> []"
proof -
  have "\<forall>r \<in> set routes. route_segments r \<noteq> []" by code_simp
  then show "r \<in> set routes \<Longrightarrow> route_segments r \<noteq> []" by blast
qed

text \<open>C39. Every endpoint is reached: for each route of the table and any segments for its captures, the path
  built from them is routed to the handlers of that route with those segments as the captured values,
  whatever other routes the table holds and whatever the values spell (an id named like an endpoint
  included). The only assumption is what axum documents of its patterns.\<close>

theorem route_roundtrip:
  assumes axum: "axum_matching matches" and r: "(nest, pat, hs) \<in> set routes"
    and args: "length args = length (filter is_capture (segments nest @ segments pat))" "\<forall>a \<in> set args. a \<noteq> [] \<and> CHR ''/'' \<notin> set a"
  shows "route_of matches (path_of nest pat args) = Some (hs, args)"
proof -
  let ?ps = "segments nest @ segments pat" and ?path = "path_of nest pat args"
  let ?f = "\<lambda>(nest, pat, hs). matches nest pat ?path \<noteq> None"
  have ps: "\<forall>p \<in> set ?ps. plain_segment p" "?ps \<noteq> []" using routes_plain [OF r] routes_proper [OF r] by simp_all
  then have ne: "fill ?ps args \<noteq> []" by (cases ?ps) simp_all
  have seg: "segments ?path = fill ?ps args"
    unfolding path_of_def by (rule segments_path [OF fill_plain [OF args ps(1)] ne])
  have root: "?path \<noteq> [] \<and> hd ?path = CHR ''/''" using ne by (cases "fill ?ps args") (simp_all add: path_of_def)
  have m: "matches n q ?path = match_segments (segments n @ segments q) (fill ?ps args)" for n q
    using axum root seg by (simp add: axum_matching_def)
  have own: "matches nest pat ?path = Some args" using m match_fill [OF args(1)] args(2) by simp
  have "find ?f routes \<noteq> None" unfolding find_None_iff using r own by force
  then obtain r' where r': "find ?f routes = Some r'" by (elim not_None_eq [THEN iffD1, elim_format] exE)
  then have "r' \<in> set routes" "?f r'" using find_member by fast+
  moreover have "r' = (nest, pat, hs)"
  proof (rule ccontr)
    assume "r' \<noteq> (nest, pat, hs)"
    then have "match_segments (route_segments r') (fill ?ps args) = None"
      using apart_exclusive [OF routes_apart [OF r \<open>r' \<in> set routes\<close>], of "fill ?ps args"] own m [of nest pat] by simp
    then show False using \<open>?f r'\<close> m by (cases r') simp
  qed
  ultimately show ?thesis using r' own by (simp add: route_of_def)
qed

definition demo_matches :: "string \<Rightarrow> string \<Rightarrow> string \<Rightarrow> string list option" where
  "demo_matches nest pat path = match_segments (segments nest @ segments pat) (segments path)"

theorem route_roundtrip_witness:
  "route_of demo_matches ''/api/programs/stats/instructions/count/count'' = Some ([(Get, HInstructionCount)], [''stats'', ''count''])"
proof -
  have p: "path_of ''/api/programs'' ''/{id}/instructions/{name}/count'' [''stats'', ''count''] = ''/api/programs/stats/instructions/count/count''"
    by code_simp
  show ?thesis unfolding p [symmetric]
  proof (rule route_roundtrip)
    show "axum_matching demo_matches" by (simp add: axum_matching_def demo_matches_def)
    show "(''/api/programs'', ''/{id}/instructions/{name}/count'', [(Get, HInstructionCount)]) \<in> set routes"
      by (simp add: routes_def program_routes_def)
  qed code_simp+
qed

section \<open>Answers\<close>

lemma match_length: "match_segments ps ss = Some args \<Longrightarrow> length args = length (filter is_capture ps)"
  by (induction ps ss arbitrary: args rule: match_segments.induct) (auto split: if_splits)

lemma route_of_member: "route_of matches path = Some (hs, cs) \<Longrightarrow> \<exists>nest pat. (nest, pat, hs) \<in> set routes \<and> matches nest pat path = Some cs"
proof -
  assume a: "route_of matches path = Some (hs, cs)"
  then obtain nest pat where f: "find (\<lambda>(nest, pat, hs). matches nest pat path \<noteq> None) routes = Some (nest, pat, hs)"
    "cs = the (matches nest pat path)" by (auto simp: route_of_def split: option.splits)
  then show ?thesis using find_member [OF f(1)] by auto
qed

lemma get_program_status: "get_program env pid w = Inr r \<Longrightarrow> fst r = 200"
  by (auto simp: get_program_def resR Let_def)

lemma list_programs_status: "list_programs env w = Inr r \<Longrightarrow> fst r = 200"
  by (auto simp: list_programs_def resR Let_def split: option.splits)

lemma delete_program_status: "delete_program env pid d w = (Inr r, w') \<Longrightarrow> fst r = 200"
  by (auto simp: delete_program_def deleted_response_def Let_def split: sum.splits if_splits option.splits prod.splits)

lemma register_program_status: "register_program env body w = (Inr r, w') \<Longrightarrow> fst r = 201"
  by (auto simp: register_program_def do_register_def registered_response_def Let_def split: sum.splits if_splits option.splits prod.splits)

lemma query_status:
  "list_instruction_types api pid w = Inr r \<Longrightarrow> fst r = 200"
  "list_account_types api pid w = Inr r \<Longrightarrow> fst r = 200"
  "query_instructions env pid name params w = Some (Inr r) \<Longrightarrow> fst r = 200"
  "instruction_count env pid name params w = Inr r \<Longrightarrow> fst r = 200"
  "program_stats env pid w = Inr r \<Longrightarrow> fst r = 200"
  "query_accounts env pid t params w = Inr r \<Longrightarrow> fst r = 200"
  "get_account env pid t k w = Inr r \<Longrightarrow> fst r = 200"
  subgoal by (auto simp: list_instruction_types_def names_response_def resR)
  subgoal by (auto simp: list_account_types_def names_response_def resR)
  subgoal by (auto simp: query_instructions_def Let_def split: sum.splits prod.splits if_splits)
  subgoal by (auto simp: instruction_count_def Let_def resR split: sum.splits prod.splits if_splits)
  subgoal by (auto simp: program_stats_def Let_def resR split_beta)
  subgoal by (auto simp: query_accounts_def Let_def resR split_beta split: if_splits)
  subgoal by (auto simp: get_account_def Let_def resR split: sum.splits prod.splits if_splits)
  done

text \<open>The number of path segments each handler takes, and what the framework answers itself.\<close>

fun arity :: "handler \<Rightarrow> nat" where
  "arity HHealth = 0"
| "arity HRegisterProgram = 0"
| "arity HListPrograms = 0"
| "arity HQueryInstructions = 2"
| "arity HInstructionCount = 2"
| "arity HQueryAccounts = 2"
| "arity HGetAccount = 3"
| "arity _ = 1"

lemma routes_arity: "(nest, pat, hs) \<in> set routes \<Longrightarrow> (m, h) \<in> set hs \<Longrightarrow> arity h = length (filter is_capture (segments nest @ segments pat))"
proof -
  have "\<forall>(nest, pat, hs) \<in> set routes. \<forall>(m, h) \<in> set hs. arity h = length (filter is_capture (segments nest @ segments pat))"
    by code_simp
  then show "(nest, pat, hs) \<in> set routes \<Longrightarrow> (m, h) \<in> set hs \<Longrightarrow> arity h = length (filter is_capture (segments nest @ segments pat))"
    by fast
qed

definition clean :: "response + 'a \<Rightarrow> bool" where
  "clean x = (case x of Inl r \<Rightarrow> fst r \<noteq> 500 | Inr _ \<Rightarrow> True)"

definition framework_answers :: "router_env \<Rightarrow> bool" where
  "framework_answers ro =
     ((\<forall>cs. clean (ro_path ro cs)) \<and> (\<forall>cs args. ro_path ro cs = Inr args \<longrightarrow> length args = length cs) \<and>
      (\<forall>q. clean (ro_params ro q)) \<and> (\<forall>q. clean (ro_drop_tables ro q)) \<and> (\<forall>b. clean (ro_register_body ro b)) \<and>
      (\<forall>p b. ro_not_found ro p \<noteq> (500, b)) \<and> (\<forall>m p b. ro_other_method ro m p \<noteq> (500, b)))"

definition opaque_bodies :: "json set" where
  "opaque_bodies = {error_body ''STORAGE_ERROR'' ''Internal storage error'', error_body ''QUERY_FAILED'' ''Query execution failed''}"

definition opaque :: "response \<Rightarrow> bool" where
  "opaque r = (fst r = 500 \<longrightarrow> snd r \<in> opaque_bodies)"

lemma answer_opaque: "(\<And>resp. r = Inr resp \<Longrightarrow> fst resp \<noteq> 500) \<Longrightarrow> opaque (answer r)"
proof (cases r)
  case (Inl e)
  then show ?thesis by (cases e) (simp_all add: answer_def opaque_def opaque_bodies_def)
qed (simp add: answer_def opaque_def)

lemma extracted_opaque:
  assumes "extracted x f w = (Some resp, w')" and "clean x"
    and "\<And>v. x = Inr v \<Longrightarrow> f v = (Some resp, w') \<Longrightarrow> opaque resp"
  shows "opaque resp"
  using assms by (cases x) (auto simp: extracted_def opaque_def clean_def)

lemma health_opaque: "opaque (health env v t w)"
  by (simp add: opaque_def health_def Let_def)

lemma call_handler_opaque:
  assumes "framework_answers ro" and "length args = arity h" and "call_handler ro env h args req w = (Some resp, w')"
  shows "opaque resp"
proof -
  note fw = assms(1) [unfolded framework_answers_def]
  consider "args = []" | pid where "args = [pid]" | pid n where "args = [pid, n]" | pid n k where "args = [pid, n, k]"
    using assms(2) by (cases h) (auto simp: length_Suc_conv numeral_2_eq_2 numeral_3_eq_3)
  then show ?thesis
  proof cases
    case 1
    then show ?thesis using assms(2,3) fw
      by (cases h) (auto elim!: extracted_opaque intro!: answer_opaque simp: health_opaque
          dest!: list_programs_status register_program_status split: prod.splits)
  next
    case 2
    then show ?thesis using assms(2,3) fw
      by (cases h) (auto elim!: extracted_opaque intro!: answer_opaque
          dest!: get_program_status delete_program_status query_status split: prod.splits)
  next
    case 3
    then show ?thesis using assms(2,3) fw
      by (cases h) (auto elim!: extracted_opaque intro!: answer_opaque dest!: query_status)
  next
    case 4
    then show ?thesis using assms(2,3) by (cases h) (auto intro!: answer_opaque dest!: query_status)
  qed
qed

lemma handler_of_member: "handler_of hs m = Some h \<Longrightarrow> \<exists>m'. (m', h) \<in> set hs"
  by (auto simp: handler_of_def dest: map_of_SomeD split: option.splits if_splits)

text \<open>C40. An internal error never shows its cause: whatever the request, the state of the database and the
  failing statement or task, an answer with status 500 has one of two constant bodies, or none when
  the request is a HEAD, so no message
  of PostgreSQL, no SQL text and no panic message reaches a client. This covers the whole path from
  the routing of a request to its answer for every endpoint; the assumptions are what axum documents
  of its patterns and that its extractors refuse a request with a client error.\<close>

theorem serve_errors_opaque:
  assumes axum: "axum_matching (ro_matches ro)" "framework_answers ro" and path: "req_path req \<noteq> []" "hd (req_path req) = CHR ''/''"
    and served: "serve ro env req w = (Some (500, body), w')"
  shows "if req_method req = Head then body = None
    else body = Some (error_body ''STORAGE_ERROR'' ''Internal storage error'') \<or>
         body = Some (error_body ''QUERY_FAILED'' ''Query execution failed'')"
proof -
  note fw = axum(2) [unfolded framework_answers_def]
  obtain hs cs h where rt: "route_of (ro_matches ro) (req_path req) = Some (hs, cs)" and h: "handler_of hs (req_method req) = Some h"
    and x: "\<exists>b. extracted (ro_path ro cs) (\<lambda>args. call_handler ro env h args req w) w = (Some (500, b), w') \<and>
      body = (if req_method req = Head then None else Some b)"
    using served fw by (auto simp: serve_def sent_def split: option.splits prod.splits)
  then obtain b where x: "extracted (ro_path ro cs) (\<lambda>args. call_handler ro env h args req w) w = (Some (500, b), w')"
    and body: "body = (if req_method req = Head then None else Some b)" by blast
  obtain m' where m': "(m', h) \<in> set hs" using handler_of_member [OF h] by blast
  obtain nest pat where r: "(nest, pat, hs) \<in> set routes" "ro_matches ro nest pat (req_path req) = Some cs"
    using route_of_member [OF rt] by (elim exE conjE) (rule that)
  have len: "length cs = length (filter is_capture (segments nest @ segments pat))"
    using r(2) axum(1) path match_length by (simp add: axum_matching_def)
  have "opaque (500, b)"
  proof (rule extracted_opaque [OF x])
    show "clean (ro_path ro cs)" using fw by simp
    show "opaque (500, b)" if "ro_path ro cs = Inr args" "call_handler ro env h args req w = (Some (500, b), w')" for args
      using call_handler_opaque [OF axum(2) _ that(2)] fw that(1) len routes_arity [OF r(1) m'] by simp
  qed
  then show ?thesis using body by (simp add: opaque_def opaque_bodies_def)
qed

definition demo_router :: router_env where
  "demo_router = \<lparr> ro_matches = demo_matches, ro_path = Inr, ro_params = (\<lambda>_. Inr []), ro_drop_tables = (\<lambda>_. Inr False),
     ro_register_body = (\<lambda>_. Inl (400, JNull)), ro_wrong_arguments = (500, JNull), ro_not_found = (\<lambda>_. (404, JNull)),
     ro_other_method = (\<lambda>_ _. (405, JNull)), ro_version = ''0'', ro_uptime = 0 \<rparr>"

definition demo_failing :: query_env where
  "demo_failing = (demo_query_env [])\<lparr> qe_api := demo_api_env\<lparr> ae_fault := \<lambda>_. Some ''password authentication failed'' \<rparr> \<rparr>"

definition demo_list :: request where
  "demo_list = \<lparr> req_method = Get, req_path = ''/api/programs'', req_query = [], req_body = [] \<rparr>"

theorem serve_errors_opaque_witness:
  "\<exists>body. serve demo_router demo_failing demo_list demo_world = (Some (500, body), demo_world) \<and>
     (body = Some (error_body ''STORAGE_ERROR'' ''Internal storage error'') \<or>
      body = Some (error_body ''QUERY_FAILED'' ''Query execution failed''))"
proof -
  have m: "axum_matching (ro_matches demo_router)" by (simp add: demo_router_def axum_matching_def demo_matches_def)
  have fw: "framework_answers demo_router" by (simp add: demo_router_def framework_answers_def clean_def)
  have "route_of demo_matches ''/api/programs'' = Some ([(Post, HRegisterProgram), (Get, HListPrograms)], [])" by code_simp
  then have s: "\<exists>body. serve demo_router demo_failing demo_list demo_world = (Some (500, body), demo_world)"
    by (simp add: serve_def sent_def handler_of_def demo_router_def demo_list_def demo_failing_def list_programs_def answer_def extracted_def)
  then obtain body where s: "serve demo_router demo_failing demo_list demo_world = (Some (500, body), demo_world)" ..
  show ?thesis using serve_errors_opaque [OF m fw _ _ s] s by (intro exI [of _ body] conjI) (simp_all add: demo_list_def)
qed

end
