(* ===== verification/Startup.thy ===== *)
theory Startup
  imports Api_Programs Backfill
begin

text \<open>
  Startup and shutdown (\<open>src/startup.rs\<close> and the parts of \<open>src/main.rs\<close> around the running tasks):
  the programs a process finds in the database, the seeding of the IDL cache, the choice of the
  program to index, and the final update of \<open>indexer_state\<close>.

  \<open>su_from_text\<close> is serde's parser from text to an IDL, \<open>su_program_ids\<close> the order in which the query
  returns the rows of \<open>programs\<close>, and \<open>su_reg\<close> gives the faults of the statements that mark one
  program. The tasks themselves, signals and timeouts belong to tokio.
\<close>

record startup_program =
  sp_program_id :: string
  sp_schema_name :: string
  sp_idl :: idl
  sp_idl_json :: string

record startup_env =
  su_idl :: idl_env
  su_from_text :: "string \<Rightarrow> string + idl"
  su_program_ids :: "database \<Rightarrow> string list"
  su_query_fault :: "string option"
  su_reg :: "string \<Rightarrow> reg_env"

section \<open>The connection pool\<close>

definition sanitize_database_url :: "string \<Rightarrow> string" where
  "sanitize_database_url url =
     (case split_once_str ''://'' url of
        None \<Rightarrow> ''<invalid-url>''
      | Some (scheme, rest) \<Rightarrow>
          (case split_once CHR ''@'' rest of
             None \<Rightarrow> url
           | Some (credentials, host) \<Rightarrow>
               (case split_once CHR '':'' credentials of
                  Some (user, _) \<Rightarrow> scheme @ ''://'' @ user @ '':***@'' @ host
                | None \<Rightarrow> url)))"

text \<open>\<open>connected\<close> is the error of opening the pool.\<close>

definition init_pool :: "string option \<Rightarrow> config \<Rightarrow> storage_error + unit" where
  "init_pool connected cfg =
     (case connected of
        Some e \<Rightarrow> Inl (ConnectionFailed (''failed to connect to database ('' @
                     sanitize_database_url (cfg_database_url cfg) @ ''): '' @ e))
      | None \<Rightarrow> Inr ())"

section \<open>Startup\<close>

text \<open>The rows of the query: \<open>WHERE "status" = 'schema_created'\<close>.\<close>

definition registered_rows :: "startup_env \<Rightarrow> database \<Rightarrow> (string \<times> string \<times> string option) list" where
  "registered_rows env db = List.map_filter
     (\<lambda>p. case db_programs db p of
            Some r \<Rightarrow> if pr_status r = ''schema_created'' then Some (p, pr_schema_name r, pr_idl_json r) else None
          | None \<Rightarrow> None) (su_program_ids env db)"

fun load_programs :: "startup_env \<Rightarrow> (string \<times> string \<times> string option) list \<Rightarrow> startup_program list" where
  "load_programs env [] = []"
| "load_programs env ((program_id, schema_name, idl_json) # rows) =
     (case idl_json of
        None \<Rightarrow> load_programs env rows
      | Some js \<Rightarrow>
          (case su_from_text env js of
             Inr i \<Rightarrow> \<lparr> sp_program_id = program_id, sp_schema_name = schema_name, sp_idl = i, sp_idl_json = js \<rparr>
                       # load_programs env rows
           | Inl _ \<Rightarrow> load_programs env rows))"

definition query_registered_programs :: "startup_env \<Rightarrow> database \<Rightarrow> storage_error + startup_program list" where
  "query_registered_programs env db =
     (case su_query_fault env of
        Some e \<Rightarrow> Inl (QueryFailed (''programs lookup failed: '' @ e))
      | None \<Rightarrow> Inr (load_programs env (registered_rows env db)))"

text \<open>The cache is seeded under one write lock; an entry that fails leaves the cache as it is.\<close>

fun seed_outcomes :: "startup_env \<Rightarrow> startup_program list \<Rightarrow> program_registry \<Rightarrow> bool list \<times> program_registry" where
  "seed_outcomes env [] reg = ([], reg)"
| "seed_outcomes env (p # ps) reg =
     (case insert_fetched_idl (su_idl env) (reg_idl_manager reg) (sp_program_id p) (sp_idl_json p) OnChain of
        Inr (_, m) \<Rightarrow> (let (oks, reg') = seed_outcomes env ps (reg\<lparr> reg_idl_manager := m \<rparr>) in (True # oks, reg'))
      | Inl _ \<Rightarrow> (let (oks, reg') = seed_outcomes env ps reg in (False # oks, reg')))"

fun programs_to_start ::
  "startup_env \<Rightarrow> (startup_program \<times> bool) list \<Rightarrow> database \<Rightarrow> startup_program list \<times> database" where
  "programs_to_start env [] db = ([], db)"
| "programs_to_start env ((p, ok) # ps) db =
     (if ok then (let (rest, db') = programs_to_start env ps db in (p # rest, db'))
      else programs_to_start env ps
             (snd (mark_program_error (su_reg env (sp_program_id p)) (sp_program_id p)
                ''registry IDL cache seeding failed at startup'' db)))"

definition startup ::
  "startup_env \<Rightarrow> string \<Rightarrow> database \<Rightarrow> storage_error + startup_program list \<times> program_registry \<times> database" where
  "startup env rpc_url db =
     bindR (query_registered_programs env db) (\<lambda>programs.
       let (oks, reg) = seed_outcomes env programs (program_registry_new (idl_manager_new rpc_url));
           (to_start, db') = programs_to_start env (zip programs oks) db
       in Inr (to_start, reg, db'))"

text \<open>Only the first program is indexed; with none, the process serves the API alone.\<close>

definition indexed_program :: "startup_program list \<Rightarrow> startup_program option" where
  "indexed_program programs = (case programs of [] \<Rightarrow> None | p # _ \<Rightarrow> Some p)"

section \<open>Shutdown\<close>

text \<open>\<open>MAX("last_slot")\<close> over the rows of \<open>_checkpoints\<close>; \<open>rows\<close> lists their streams as PostgreSQL scans them.\<close>

definition max_checkpoint :: "string list \<Rightarrow> program_schema \<Rightarrow> int option" where
  "max_checkpoint streams ps =
     fold (\<lambda>s m. case Option.bind (ps_checkpoints ps s) cp_last_slot of
                   None \<Rightarrow> m
                 | Some x \<Rightarrow> Some (case m of None \<Rightarrow> x | Some y \<Rightarrow> max y x)) streams None"

definition read_max_checkpoint_slot ::
  "(program_schema \<Rightarrow> string list) \<Rightarrow> string option \<Rightarrow> string option \<Rightarrow> database \<Rightarrow> string \<Rightarrow> u64 option" where
  "read_max_checkpoint_slot rows name_fault max_fault db program_id =
     (if name_fault \<noteq> None then None
      else Option.bind (db_programs db program_id) (\<lambda>row.
           Option.bind (db_schemas db (pr_schema_name row)) (\<lambda>ps.
           if max_fault \<noteq> None then None
           else case max_checkpoint (rows ps) ps of
                  Some s \<Rightarrow> if 0 \<le> s then Some (of_int s) else None
                | None \<Rightarrow> None)))"

text \<open>
  The updates of the started programs; \<open>faults p\<close> are the errors of the three statements. A timeout
  is the prefix of \<open>started_programs\<close> whose update was done.
\<close>

definition graceful_shutdown ::
  "(program_schema \<Rightarrow> string list) \<Rightarrow> (string \<Rightarrow> string option \<times> string option \<times> string option) \<Rightarrow> string list \<Rightarrow> database \<Rightarrow> database" where
  "graceful_shutdown rows faults started_programs db =
     fold (\<lambda>p db.
       let (name_fault, max_fault, update_fault) = faults p;
           last_slot = read_max_checkpoint_slot rows name_fault max_fault db p
       in case update_indexer_state update_fault db p ''stopped'' last_slot of
            Inl _ \<Rightarrow> db | Inr db' \<Rightarrow> db') started_programs db"

end
