(* ===== verification/Process.thy ===== *)
theory Process
  imports Startup Streaming Router
begin

text \<open>
  The process as a whole (\<open>main\<close> and \<open>read_shutdown_totals\<close> of \<open>src/main.rs\<close>): initialisation, the
  two tasks, the join of both, the totals of the summary event and the shutdown.

  \<open>tasks_run\<close> is one run of the two tasks on the database. The pipeline task is \<open>pipeline_task\<close>, which
  builds the client and the orchestrator and runs it; what it meets (the node, the sockets, the
  schedule) are the fields \<open>pv_senv\<close> to \<open>pv_joined\<close>, and its configuration is the process's. The
  API task serves requests: those of \<open>pv_early\<close> change the database before the pipeline reads it,
  those of \<open>pv_late\<close> after its last write. \<open>pv_first\<close> says which task \<open>select!\<close> saw end first,
  the two flags whether the other one ends within the drain time, and \<open>pv_cut\<close> what a pipeline
  leaves that panics or is aborted in the middle. When the pipeline is to end first and does not
  end, the process is still running. What an await of a handle does whose result was already
  taken is tokio's: \<open>pv_repoll\<close>.
\<close>

section \<open>Results\<close>

datatype solarix_error =
    SxStorage storage_error
  | SxIo string
  | SxPipeline pipeline_error
  | SxApiServer string
  | SxPipelineJoin string
  | SxApiJoin string

fun show_solarix_error :: "solarix_error \<Rightarrow> string" where
  "show_solarix_error (SxStorage e) = ''storage: '' @ show_storage_error e"
| "show_solarix_error (SxIo e) = ''io: '' @ e"
| "show_solarix_error (SxPipeline e) = ''pipeline: '' @ show_pipeline_error e"
| "show_solarix_error (SxApiServer e) = ''API server: '' @ e"
| "show_solarix_error (SxPipelineJoin e) = ''pipeline task panicked: '' @ e"
| "show_solarix_error (SxApiJoin e) = ''API task panicked: '' @ e"

text \<open>The join of a task: \<open>Inl\<close> is a \<open>JoinError\<close>. An await of a handle is ready, pending or panics.\<close>

type_synonym pipeline_join = "string + (pipeline_error + unit)"
type_synonym api_join = "string + (string + unit)"

datatype handle_poll = PollReady | PollPending | PollPanics

datatype first_ended = PipelineEnded pipeline_join | ApiEnded api_join

record task_run =
  tr_first :: first_ended
  tr_api_drains :: bool
  tr_pipeline_drains :: bool
  tr_db :: database
  tr_stats :: runtime_stats

text \<open>Which of the two tasks ends first; a panic of the pipeline and the join of the server are given.\<close>

datatype first_task = PipelineFirst | PipelinePanics string | ApiFirst api_join

record process_env =
  pv_config :: config
  pv_startup :: startup_env
  pv_connect_fault :: "string option"
  pv_bootstrap_fault :: "string option"
  pv_cancelled_early :: bool
  pv_bind_fault :: "string option"
  pv_router :: router_env
  pv_early :: "(query_env \<times> request) list"
  pv_late :: "(query_env \<times> request) list"
  pv_api_result :: "string + unit"
  pv_senv :: stream_env
  pv_http_fault :: "string option"
  pv_first_conn :: ws_conn
  pv_conns :: "(ws_conn \<times> ws_conn list) list"
  pv_joined :: "(pipeline_error + unit) option"
  pv_first :: first_task
  pv_api_drains :: bool
  pv_pipeline_drains :: bool
  pv_cut :: "database \<Rightarrow> database \<times> runtime_stats"
  pv_repoll :: handle_poll
  pv_totals_fault :: "string option"
  pv_max_text :: "string list \<Rightarrow> string"
  pv_checkpoint_rows :: "program_schema \<Rightarrow> string list"
  pv_shutdown_faults :: "string \<Rightarrow> string option \<times> string option \<times> string option"

record shutdown_summary =
  sm_total_instructions :: u64
  sm_total_accounts :: u64
  sm_rpc_retries :: u64
  sm_decode_failures :: u64
  sm_final_state :: string
  sm_outcome :: string

datatype exit = Returned "solarix_error + unit" | Panicked | StillRunning

section \<open>The tasks\<close>

definition rpc_client_new :: "config \<Rightarrow> string option \<Rightarrow> pipeline_error + unit" where
  "rpc_client_new cfg http_fault =
     (if cfg_rpc_rps cfg = 0 then Inl (Fatal ''rpc_rps must be > 0'')
      else case http_fault of
             Some e \<Rightarrow> Inl (Fatal (''HTTP client init failed: '' @ e))
           | None \<Rightarrow> Inr ())"

definition orchestrator_new :: "bool \<Rightarrow> runtime_stats \<Rightarrow> database \<Rightarrow> pipe" where
  "orchestrator_new cancelled stats db =
     \<lparr> pw_tick = 0, pw_db = db, pw_writer = storage_writer_new, pw_decoder = chainparser_new, pw_stats = stats,
       pw_cancelled = cancelled, pw_chan = channel_new [], pw_progress = progress_new 0 0 \<rparr>"

definition pipeline_task ::
  "stream_env \<Rightarrow> string option \<Rightarrow> ws_conn \<Rightarrow> (ws_conn \<times> ws_conn list) list \<Rightarrow> (pipeline_error + unit) option \<Rightarrow>
   startup_program \<Rightarrow> bool \<Rightarrow> runtime_stats \<Rightarrow> database \<Rightarrow> (pipeline_error + unit) option \<times> pipe" where
  "pipeline_task senv http_fault first_conn conns joined p cancelled stats db =
     (case rpc_client_new (pe_config (sv_pipe senv)) http_fault of
        Inl e \<Rightarrow> (Some (Inl e), orchestrator_new cancelled stats db)
      | Inr _ \<Rightarrow> run senv (sp_program_id p) (sp_schema_name p) (sp_idl p) first_conn conns joined
                   (orchestrator_new cancelled stats db))"

text \<open>The pipeline gets a clone of the process's configuration.\<close>

definition pipeline_env :: "process_env \<Rightarrow> stream_env" where
  "pipeline_env env = (pv_senv env)\<lparr> sv_pipe := (sv_pipe (pv_senv env))\<lparr> pe_config := pv_config env \<rparr> \<rparr>"

text \<open>
  The pipeline runs to its end when it returns and nothing stops it first: a server that ended
  first leaves it the drain time, if the drain gets to it at all.
\<close>

definition pipeline_finishes :: "process_env \<Rightarrow> (pipeline_error + unit) option \<Rightarrow> bool" where
  "pipeline_finishes env r =
     (r \<noteq> None \<and>
      (case pv_first env of
         PipelineFirst \<Rightarrow> True
       | PipelinePanics _ \<Rightarrow> False
       | ApiFirst _ \<Rightarrow> pv_repoll env = PollReady \<and> pv_pipeline_drains env))"

text \<open>Both tasks on the database: \<open>Inl\<close> is the database of a process that is still running.\<close>

definition tasks_run :: "process_env \<Rightarrow> startup_program \<Rightarrow> program_registry \<Rightarrow> database \<Rightarrow> database + task_run" where
  "tasks_run env p reg db =
     (let w1 = serve_all (pv_router env) (pv_early env) \<lparr> aw_registry = reg, aw_db = db \<rparr>;
          (r, w2) = pipeline_task (pipeline_env env) (pv_http_fault env) (pv_first_conn env) (pv_conns env) (pv_joined env)
                      p False runtime_stats_new (aw_db w1)
      in if r = None \<and> pv_first env = PipelineFirst then Inl (pw_db w2)
         else
           let (db2, stats) = (if pipeline_finishes env r then (pw_db w2, pw_stats w2) else pv_cut env (aw_db w1));
               w3 = serve_all (pv_router env) (pv_late env) (w1\<lparr> aw_db := db2 \<rparr>)
           in Inr \<lparr> tr_first = (case pv_first env of
                                PipelineFirst \<Rightarrow> PipelineEnded (Inr (the r))
                              | PipelinePanics e \<Rightarrow> PipelineEnded (Inl e)
                              | ApiFirst j \<Rightarrow> ApiEnded j),
                    tr_api_drains = pv_api_drains env, tr_pipeline_drains = r \<noteq> None \<and> pv_pipeline_drains env,
                    tr_db = aw_db w3, tr_stats = stats \<rparr>)"

section \<open>Joining the tasks\<close>

fun initial_outcome :: "first_ended \<Rightarrow> solarix_error + unit" where
  "initial_outcome (PipelineEnded (Inr (Inr _))) = Inr ()"
| "initial_outcome (PipelineEnded (Inr (Inl e))) = Inl (SxPipeline e)"
| "initial_outcome (PipelineEnded (Inl e)) = Inl (SxPipelineJoin e)"
| "initial_outcome (ApiEnded (Inr (Inr _))) = Inr ()"
| "initial_outcome (ApiEnded (Inr (Inl e))) = Inl (SxApiServer e)"
| "initial_outcome (ApiEnded (Inl e)) = Inl (SxApiJoin e)"

text \<open>The handle \<open>select!\<close> took the result of is awaited again.\<close>

definition await_api :: "handle_poll \<Rightarrow> task_run \<Rightarrow> handle_poll" where
  "await_api repoll t =
     (case tr_first t of
        ApiEnded _ \<Rightarrow> repoll
      | PipelineEnded _ \<Rightarrow> if tr_api_drains t then PollReady else PollPending)"

definition await_pipeline :: "handle_poll \<Rightarrow> task_run \<Rightarrow> handle_poll" where
  "await_pipeline repoll t =
     (case tr_first t of
        PipelineEnded _ \<Rightarrow> repoll
      | ApiEnded _ \<Rightarrow> if tr_pipeline_drains t then PollReady else PollPending)"

text \<open>The drain: ready when both awaits are, pending when the timeout passes first.\<close>

definition drain_outcome :: "handle_poll \<Rightarrow> task_run \<Rightarrow> handle_poll" where
  "drain_outcome repoll t =
     (case await_api repoll t of
        PollReady \<Rightarrow> await_pipeline repoll t
      | PollPending \<Rightarrow> PollPending
      | PollPanics \<Rightarrow> PollPanics)"

section \<open>The totals\<close>

text \<open>
  The aggregates over the rows of \<open>indexer_state\<close> with a listed id; the cast to \<open>BIGINT\<close> fails out of
  range. A timeout is a fault.
\<close>

definition state_rows :: "database \<Rightarrow> string list \<Rightarrow> indexer_row list" where
  "state_rows db ids = List.map_filter (db_indexer_state db) (remdups ids)"

definition totals_query ::
  "string option \<Rightarrow> (string list \<Rightarrow> string) \<Rightarrow> database \<Rightarrow> string list \<Rightarrow> string + int \<times> int \<times> string" where
  "totals_query fault max_text db ids =
     (let rows = state_rows db ids;
          ti = sum_list (map st_total_instructions rows);
          ta = sum_list (map st_total_accounts rows)
      in case fault of
           Some e \<Rightarrow> Inl e
         | None \<Rightarrow>
             if ti < - (2 ^ 63) \<or> 2 ^ 63 \<le> ti \<or> ta < - (2 ^ 63) \<or> 2 ^ 63 \<le> ta
             then Inl ''error returned from database: bigint out of range''
             else Inr (ti, ta, if rows = [] then ''unknown'' else max_text (map st_status rows)))"

definition read_shutdown_totals ::
  "string option \<Rightarrow> (string list \<Rightarrow> string) \<Rightarrow> string list \<Rightarrow> database \<Rightarrow> u64 \<times> u64 \<times> string" where
  "read_shutdown_totals fault max_text started_programs db =
     (if started_programs = [] then (0, 0, ''unknown'')
      else case totals_query fault max_text db started_programs of
             Inr (ti, ta, status) \<Rightarrow>
               (if ti < 0 then 0 else of_int ti, if ta < 0 then 0 else of_int ta, status)
           | Inl e \<Rightarrow> (0, 0, ''unknown''))"

section \<open>The process\<close>

definition bootstrap_system_tables :: "string option \<Rightarrow> storage_error + unit" where
  "bootstrap_system_tables fault =
     (case fault of
        Some e \<Rightarrow> Inl (DdlFailed (''system table bootstrap failed: '' @ e))
      | None \<Rightarrow> Inr ())"

text \<open>After the tasks: the totals are read, then the shutdown updates the started programs.\<close>

definition finish_process ::
  "process_env \<Rightarrow> string list \<Rightarrow> solarix_error + unit \<Rightarrow> runtime_stats \<Rightarrow> database \<Rightarrow>
   exit \<times> shutdown_summary option \<times> database" where
  "finish_process env started_programs run_result stats db =
     (let (ti, ta, st) = read_shutdown_totals (pv_totals_fault env) (pv_max_text env) started_programs db
      in (Returned run_result,
          Some \<lparr> sm_total_instructions = ti, sm_total_accounts = ta, sm_rpc_retries = rs_rpc_retries stats,
                 sm_decode_failures = rs_decode_failures stats, sm_final_state = st,
                 sm_outcome = (case run_result of Inr _ \<Rightarrow> ''clean'' | Inl _ \<Rightarrow> ''error'') \<rparr>,
          graceful_shutdown (pv_checkpoint_rows env) (pv_shutdown_faults env) started_programs db))"

definition run_tasks ::
  "process_env \<Rightarrow> startup_program \<Rightarrow> program_registry \<Rightarrow> database \<Rightarrow> exit \<times> shutdown_summary option \<times> database" where
  "run_tasks env p reg db =
     (case tasks_run env p reg db of
        Inl db2 \<Rightarrow> (StillRunning, None, db2)
      | Inr t \<Rightarrow>
          if drain_outcome (pv_repoll env) t = PollPanics then (Panicked, None, tr_db t)
          else finish_process env [sp_program_id p] (initial_outcome (tr_first t)) (tr_stats t) (tr_db t))"

definition main_process :: "process_env \<Rightarrow> database \<Rightarrow> exit \<times> shutdown_summary option \<times> database" where
  "main_process env db =
     (case bindR (map_errR SxStorage (init_pool (pv_connect_fault env) (pv_config env))) (\<lambda>_.
           bindR (map_errR SxStorage (bootstrap_system_tables (pv_bootstrap_fault env))) (\<lambda>_.
           map_errR SxStorage (startup (pv_startup env) (cfg_rpc_url (pv_config env)) db))) of
        Inl e \<Rightarrow> (Returned (Inl e), None, db)
      | Inr (programs, reg, db1) \<Rightarrow>
          if pv_cancelled_early env then (Returned (Inr ()), None, graceful_shutdown (pv_checkpoint_rows env) (pv_shutdown_faults env) [] db1)
          else case pv_bind_fault env of
                 Some e \<Rightarrow> (Returned (Inl (SxIo e)), None, db1)
               | None \<Rightarrow>
                   (case indexed_program programs of
                      None \<Rightarrow>
                        (let w = serve_all (pv_router env) (pv_early env @ pv_late env) \<lparr> aw_registry = reg, aw_db = db1 \<rparr>
                         in finish_process env [] (map_errR SxApiServer (pv_api_result env)) runtime_stats_new (aw_db w))
                    | Some p \<Rightarrow> run_tasks env p reg db1))"

end
