(* ===== verification/Process_Correct.thy ===== *)
theory Process_Correct
  imports Process Startup_Correct Streaming_Correct Router_Correct
begin

text \<open>
  Correctness of the process: what an exit code says, what the shutdown leaves in the database, and
  which runs never get to it.
\<close>

section \<open>The way to the tasks\<close>

text \<open>\<open>serving env db\<close>: the initialisation succeeds and leaves these programs, this cache and this database.\<close>

definition serving ::
  "process_env \<Rightarrow> database \<Rightarrow> startup_program list \<Rightarrow> program_registry \<Rightarrow> database \<Rightarrow> bool" where
  "serving env db programs reg db1 =
     (pv_connect_fault env = None \<and> pv_bootstrap_fault env = None \<and> \<not> pv_cancelled_early env \<and> pv_bind_fault env = None \<and>
      startup (pv_startup env) (cfg_rpc_url (pv_config env)) db = Inr (programs, reg, db1))"

lemma main_process_serving:
  "serving env db programs reg db1 \<Longrightarrow> main_process env db =
     (case programs of
        [] \<Rightarrow> finish_process env [] (map_errR SxApiServer (pv_api_result env)) runtime_stats_new
                (aw_db (serve_all (pv_router env) (pv_early env @ pv_late env) \<lparr> aw_registry = reg, aw_db = db1 \<rparr>))
      | p # _ \<Rightarrow> run_tasks env p reg db1)"
  by (cases programs) (simp_all add: serving_def main_process_def init_pool_def bootstrap_system_tables_def map_errR_def indexed_program_def
      Let_def)

lemma initial_outcome_clean:
  "initial_outcome f = Inr () \<longleftrightarrow> f = PipelineEnded (Inr (Inr ())) \<or> f = ApiEnded (Inr (Inr ()))"
  by (cases f rule: initial_outcome.cases) auto

lemma map_errR_clean: "map_errR f m = Inr x \<longleftrightarrow> m = Inr x"
  by (cases m) (simp_all add: map_errR_def)

section \<open>The exit code\<close>

text \<open>Nothing fails silently: a process exits with success only when it was cancelled before it served,
  or when its initialisation succeeded and the server, or the task that ended first, ended without
  an error. In the second case the summary says \<open>clean\<close>.\<close>

theorem clean_exit:
  assumes "main_process env db = (Returned (Inr ()), sm, db')"
  shows "(pv_cancelled_early env \<and> sm = None) \<or>
    (\<exists>programs reg db1. serving env db programs reg db1 \<and> map_option sm_outcome sm = Some ''clean'' \<and>
       (case programs of
          [] \<Rightarrow> pv_api_result env = Inr ()
        | p # _ \<Rightarrow> \<exists>t. tasks_run env p reg db1 = Inr t \<and> tr_first t \<in> {PipelineEnded (Inr (Inr ())), ApiEnded (Inr (Inr ()))}))"
proof -
  have ok: "pv_connect_fault env = None" "pv_bootstrap_fault env = None"
    using assms by (auto simp: main_process_def init_pool_def bootstrap_system_tables_def map_errR_def split: option.splits)
  obtain programs reg db1 where s: "startup (pv_startup env) (cfg_rpc_url (pv_config env)) db = Inr (programs, reg, db1)"
    using assms ok by (auto simp: main_process_def init_pool_def bootstrap_system_tables_def map_errR_def split: sum.splits)
  show ?thesis
  proof (cases "pv_cancelled_early env")
    case True
    then show ?thesis using assms ok s by (simp add: main_process_def init_pool_def bootstrap_system_tables_def map_errR_def)
  next
    case False
    then have "pv_bind_fault env = None"
      using assms ok s by (simp add: main_process_def init_pool_def bootstrap_system_tables_def map_errR_def split: option.splits)
    then have sv: "serving env db programs reg db1" using ok s False by (simp add: serving_def)
    show ?thesis
    proof (cases programs)
      case Nil
      then have "pv_api_result env = Inr ()" "map_option sm_outcome sm = Some ''clean''"
        using assms main_process_serving [OF sv]
        by (auto simp: finish_process_def map_errR_clean split: prod.splits)
      then show ?thesis using sv Nil by (intro disjI2 exI [of _ programs] exI [of _ reg] exI [of _ db1]) simp
    next
      case (Cons p ps)
      have "\<exists>t. tasks_run env p reg db1 = Inr t \<and> initial_outcome (tr_first t) = Inr ()" "map_option sm_outcome sm = Some ''clean''"
        using assms main_process_serving [OF sv] Cons
        by (auto simp: run_tasks_def finish_process_def Let_def split: prod.splits if_splits sum.splits)
      then show ?thesis using sv Cons
        by (intro disjI2 exI [of _ programs] exI [of _ reg] exI [of _ db1]) (simp add: initial_outcome_clean)
    qed
  qed
qed

section \<open>What the process leaves\<close>

lemma state_rows_single: "db_indexer_state db p = Some st \<Longrightarrow> state_rows db [p] = [st]"
  by (simp add: state_rows_def map_filter_def)

lemma totals_single:
  assumes "db_indexer_state db p = Some st" and "0 \<le> st_total_instructions st" "st_total_instructions st < 2 ^ 63"
    and "0 \<le> st_total_accounts st" "st_total_accounts st < 2 ^ 63" and "max_text [st_status st] = st_status st"
  shows "read_shutdown_totals None max_text [p] db = (of_int (st_total_instructions st), of_int (st_total_accounts st), st_status st)"
  using assms by (simp add: read_shutdown_totals_def totals_query_def state_rows_single)

text \<open>C37. The shutdown of an indexing process: when the drain does not panic and the statements of the
  shutdown succeed, the process returns the result of the task that ended first, the row of the
  indexed program ends as \<open>stopped\<close> with a last processed slot that is at least the one it had and
  at least the checkpoint of every stream of the program, and the summary reports the counters and
  the state the tasks left in the row, so the state from before it was stopped.\<close>

theorem process_records_checkpoints:
  assumes serving: "serving env db (sp # sps) reg db1" and t: "tasks_run env sp reg db1 = Inr t"
    and drain: "drain_outcome (pv_repoll env) t \<noteq> PollPanics"
    and row: "db_programs (tr_db t) (sp_program_id sp) = Some row" "db_schemas (tr_db t) (pr_schema_name row) = Some ps"
      "db_indexer_state (tr_db t) (sp_program_id sp) = Some st"
    and ok: "pv_shutdown_faults env (sp_program_id sp) = (None, None, None)" "pv_totals_fault env = None"
      "pv_max_text env [st_status st] = st_status st"
    and counters: "0 \<le> st_total_instructions st" "st_total_instructions st < 2 ^ 63"
      "0 \<le> st_total_accounts st" "st_total_accounts st < 2 ^ 63"
    and s: "set (pv_checkpoint_rows env ps) = dom (ps_checkpoints ps)" "Option.bind (ps_checkpoints ps s) cp_last_slot = Some x" "0 \<le> x"
    and big: "\<And>u y. Option.bind (ps_checkpoints ps u) cp_last_slot = Some y \<Longrightarrow> y < 2 ^ 63"
  shows "\<exists>sm db' st' slot. main_process env db = (Returned (initial_outcome (tr_first t)), Some sm, db') \<and>
    sm_total_instructions sm = of_int (st_total_instructions st) \<and> sm_total_accounts sm = of_int (st_total_accounts st) \<and>
    sm_final_state sm = st_status st \<and>
    db_indexer_state db' (sp_program_id sp) = Some st' \<and> st_status st' = ''stopped'' \<and>
    st_last_processed_slot st' = Some slot \<and> x \<le> slot \<and> (\<forall>old. st_last_processed_slot st = Some old \<longrightarrow> old \<le> slot)"
proof -
  let ?db' = "graceful_shutdown (pv_checkpoint_rows env) (pv_shutdown_faults env) [sp_program_id sp] (tr_db t)"
  obtain st' slot where e: "db_indexer_state ?db' (sp_program_id sp) = Some st'" "st_status st' = ''stopped''"
      "st_last_processed_slot st' = Some slot" "x \<le> slot" "\<forall>old. st_last_processed_slot st = Some old \<longrightarrow> old \<le> slot"
    using shutdown_records_checkpoints [where faults = "pv_shutdown_faults env" and rows = "pv_checkpoint_rows env", OF row ok(1) s] big by blast
  obtain sm where "main_process env db = (Returned (initial_outcome (tr_first t)), Some sm, ?db')"
      "sm_total_instructions sm = of_int (st_total_instructions st)" "sm_total_accounts sm = of_int (st_total_accounts st)"
      "sm_final_state sm = st_status st"
    using main_process_serving [OF serving] t drain
      totals_single [OF row(3) counters, of "pv_max_text env"] ok(2,3)
    by (simp add: run_tasks_def finish_process_def)
  with e show ?thesis by (intro exI [of _ sm] exI [of _ ?db'] exI [of _ st'] exI [of _ slot] conjI)
qed

section \<open>The drain\<close>

text \<open>C38. The drain awaits the task whose result \<open>select!\<close> already took. Where such an await panics, an indexing
  process gets to its shutdown in one case only: the pipeline ended first and the server did not
  end within the drain time. In every other run the process panics, no summary is written, and the
  database stays as the tasks left it, so the program is not marked as stopped.\<close>

theorem drain_repolls_joined_task:
  assumes serving: "serving env db (sp # sps) reg db1" and t: "tasks_run env sp reg db1 = Inr t"
    and repoll: "pv_repoll env = PollPanics"
  shows "main_process env db =
    (if (\<exists>r. tr_first t = PipelineEnded r) \<and> \<not> tr_api_drains t
     then finish_process env [sp_program_id sp] (initial_outcome (tr_first t)) (tr_stats t) (tr_db t)
     else (Panicked, None, tr_db t))"
  using main_process_serving [OF serving] t repoll
  by (cases "tr_first t") (auto simp: run_tasks_def drain_outcome_def await_api_def await_pipeline_def Let_def)

lemma graceful_shutdown_schemas: "db_schemas (graceful_shutdown rows faults ps db) = db_schemas db"
proof -
  have "update_indexer_state f db p s l = Inr db' \<Longrightarrow> db_schemas db' = db_schemas db" for f db p s l db'
    by (auto simp: update_indexer_state_def split: option.splits)
  then show ?thesis unfolding graceful_shutdown_def
    by (induction ps arbitrary: db) (simp_all add: Let_def split: prod.splits sum.splits)
qed

lemma main_process_schemas:
  assumes "serving env db (sp # sps) reg db1"
  shows "db_schemas (snd (snd (main_process env db))) =
    db_schemas (case tasks_run env sp reg db1 of Inl db2 \<Rightarrow> db2 | Inr t \<Rightarrow> tr_db t)"
  using main_process_serving [OF assms]
  by (simp add: run_tasks_def finish_process_def graceful_shutdown_schemas Let_def split: prod.splits sum.splits)

lemma pipeline_task_run:
  "cfg_rpc_rps (pe_config (sv_pipe senv)) \<noteq> 0 \<Longrightarrow>
   pipeline_task senv None first_conn conns joined sp cancelled stats db =
     run senv (sp_program_id sp) (sp_schema_name sp) (sp_idl sp) first_conn conns joined (orchestrator_new cancelled stats db)"
  by (simp add: pipeline_task_def rpc_client_new_def)

section \<open>Requests keep the rows\<close>

text \<open>
  What a request meets keeps the rows of a schema: the other requests do, and PostgreSQL does when
  it runs generated DDL, which only creates what does not exist.
\<close>

definition keeps_rows :: "string \<Rightarrow> api_env \<Rightarrow> bool" where
  "keeps_rows sn api =
     ((\<forall>k w. db_keys sn (aw_db w) \<subseteq> db_keys sn (aw_db (ae_others api k w))) \<and>
      (\<forall>k db. db_keys sn db \<subseteq> db_keys sn (re_others (ae_reg api) k db)) \<and>
      (\<forall>sql db db'. re_ddl (ae_reg api) sql db = Inr db' \<longrightarrow> db_keys sn db \<subseteq> db_keys sn db'))"

definition hard_delete_request :: "router_env \<Rightarrow> request \<Rightarrow> bool" where
  "hard_delete_request ro req = (req_method req = Delete \<and> ro_drop_tables ro (req_query req) = Inr True)"

lemma seed_metadata_keys: "db_keys sn (snd (seed_metadata fault now i p h sn' db)) = db_keys sn db"
proof -
  have "db_keys sn (on_schema sn' (upsert_metadata key val) db) = db_keys sn db" for key val db
    by (simp add: on_schema_def upsert_metadata_def db_keys_def split: option.splits)
  then have "db_keys sn (snd (seed_entries fault k sn' kvs db)) = db_keys sn db" for fault k kvs db
    by (induction fault k sn' kvs db rule: seed_entries.induct) (simp_all split: option.splits)
  then show ?thesis by (simp add: seed_metadata_def)
qed

lemma update_program_status_keys: "db_keys sn (snd (update_program_status env p st db)) = db_keys sn db"
  by (simp add: update_program_status_def set_program_status_def db_keys_def split: option.splits)

lemma write_registration_keys: "write_registration env d db = Inr db' \<Longrightarrow> db_keys sn db' = db_keys sn db"
  using write_registration_Inr [of env d db db'] by (auto simp: db_keys_def)

lemma commit_registration_keys:
  assumes "keeps_rows sn api" and "commit_registration (ae_reg api) d db = (r, db')"
  shows "db_keys sn db \<subseteq> db_keys sn db'"
proof (cases "write_registration (ae_reg api) d db")
  case (Inl e)
  then show ?thesis using assms(2) by (simp add: commit_registration_def)
next
  case (Inr db1)
  let ?env = "ae_reg api"
  have o: "db_keys sn x \<subseteq> db_keys sn (re_others ?env k x)" for k x using assms(1) by (simp add: keeps_rows_def)
  obtain g db2 where g: "generate_schema (re_ddl ?env) (rd_idl d) (rd_schema_name d) (re_others ?env 0 db1) = (g, db2)" by fastforce
  then have "db_keys sn (re_others ?env 0 db1) \<subseteq> db_keys sn db2"
    using assms(1) by (auto simp: generate_schema_def keeps_rows_def split: sum.splits)
  then have k2: "db_keys sn db \<subseteq> db_keys sn (re_others ?env 1 db2)"
    using write_registration_keys [OF Inr, of sn] o [of db1 0] o [of db2 1] by simp
  let ?db3 = "snd (seed_metadata (re_seed_fault ?env) (re_now ?env) (rd_idl d) (rd_program_id d) (rd_idl_hash d) (rd_schema_name d) (re_others ?env 1 db2))"
  obtain u db4 where u: "update_program_status ?env (rd_program_id d) ''schema_created'' (re_others ?env 2 ?db3) = (u, db4)" by fastforce
  have "db_keys sn db4 = db_keys sn (re_others ?env 2 ?db3)" using update_program_status_keys [of sn ?env] u by (metis snd_conv)
  then have k4: "db_keys sn db \<subseteq> db_keys sn db4" "db_keys sn db \<subseteq> db_keys sn (re_others ?env 3 db4)"
    using k2 o [of ?db3 2] o [of db4 3] by (auto simp: seed_metadata_keys)
  show ?thesis
  proof (cases g)
    case (Inl e)
    then have "db' = snd (update_program_status ?env (rd_program_id d) ''error'' (re_others ?env 1 db2))"
      using assms(2) Inr g by (simp add: commit_registration_def)
    then show ?thesis using k2 by (simp add: update_program_status_keys)
  next
    case (Inr x)
    then have "db' = db4 \<or> db' = snd (update_program_status ?env (rd_program_id d) ''error'' (re_others ?env 3 db4))"
      using assms(2) \<open>write_registration ?env d db = Inr db1\<close> g u by (auto simp: commit_registration_def Let_def split: sum.splits)
    then show ?thesis using k4 by (auto simp: update_program_status_keys)
  qed
qed

lemma auto_fetch_idl_keys:
  assumes "keeps_rows sn api" and "auto_fetch_idl api p w = (r, w')"
  shows "db_keys sn (aw_db w) \<subseteq> db_keys sn (aw_db w')"
proof -
  have o: "db_keys sn (aw_db x) \<subseteq> db_keys sn (aw_db (ae_others api k x))" for k x using assms(1) by (simp add: keeps_rows_def)
  have "aw_db w' = aw_db (ae_others api 0 w) \<or> aw_db w' = aw_db (ae_others api 1 (ae_others api 0 w))"
    using assms(2) by (auto simp: auto_fetch_idl_def Let_def split: if_splits prod.splits sum.splits)
  then show ?thesis using o [of w 0] o [of "ae_others api 0 w" 1] by auto
qed

lemma do_register_keys:
  assumes "keeps_rows sn api" and "do_register api body w = (r, w')"
  shows "db_keys sn (aw_db w) \<subseteq> db_keys sn (aw_db w')"
proof (cases "validate_program_id (ae_idl api) (rq_program_id body)")
  case (Inl e)
  then show ?thesis using assms(2) by (simp add: do_register_def)
next
  case (Inr u)
  let ?js = "map_option (env_to_string (ae_idl api)) (rq_idl body)"
  have o: "db_keys sn (aw_db x) \<subseteq> db_keys sn (aw_db (ae_others api k x))" for k x using assms(1) by (simp add: keeps_rows_def)
  obtain f w1 where f: "(if ?js = None then auto_fetch_idl api (rq_program_id body) w else (Inr False, w)) = (f, w1)" by fastforce
  have k1: "db_keys sn (aw_db w) \<subseteq> db_keys sn (aw_db w1)"
    using f auto_fetch_idl_keys [OF assms(1)] by (auto split: if_splits)
  let ?w2 = "ae_others api 2 w1"
  obtain q reg where q: "prepare_registration (ae_idl api) (rq_program_id body) ?js (aw_registry ?w2) = (q, reg)" by fastforce
  let ?w4 = "ae_others api 3 (?w2\<lparr> aw_registry := reg \<rparr>)"
  have k4: "db_keys sn (aw_db w) \<subseteq> db_keys sn (aw_db ?w2)" "db_keys sn (aw_db w) \<subseteq> db_keys sn (aw_db ?w4)"
    using k1 o [of w1 2] o [of "?w2\<lparr> aw_registry := reg \<rparr>" 3] by auto
  show ?thesis
  proof (cases "\<exists>fetched d. f = Inr fetched \<and> q = Inr d")
    case False
    then have "w' = w1 \<or> aw_db w' = aw_db ?w2"
      using assms(2) Inr f q by (cases f; cases q) (auto simp: do_register_def Let_def)
    then show ?thesis using k1 k4 by auto
  next
    case True
    then obtain fetched d where fd: "f = Inr fetched" "q = Inr d" by blast
    obtain s db where c: "commit_registration (ae_reg api) d (aw_db ?w4) = (s, db)" by fastforce
    have db: "db_keys sn (aw_db w) \<subseteq> db_keys sn db" using commit_registration_keys [OF assms(1) c] k4(2) by blast
    have "aw_db w' = db \<or> aw_db w' = aw_db (ae_others api 4 (?w4\<lparr> aw_db := db \<rparr>))"
      using assms(2) Inr f q fd c by (cases s) (auto simp: do_register_def Let_def split: if_splits)
    then show ?thesis using db o [of "?w4\<lparr> aw_db := db \<rparr>" 4] by auto
  qed
qed

lemma soft_delete_keys: "delete_program api pid False w = (r, w') \<Longrightarrow> db_keys sn (aw_db w') = db_keys sn (aw_db w)"
  by (auto simp: delete_program_def set_program_status_def db_keys_def split: sum.splits option.splits if_splits)

lemma call_handler_keys:
  assumes "keeps_rows sn (qe_api q)" and "h = HDeleteProgram \<Longrightarrow> ro_drop_tables ro (req_query req) \<noteq> Inr True"
    and "call_handler ro q h args req w = (r, w')"
  shows "db_keys sn (aw_db w) \<subseteq> db_keys sn (aw_db w')"
  using assms(3)
proof (cases rule: call_handler.cases [of "(ro, q, h, args, req, w)"])
  case (2 ro q req w)
  then show ?thesis using assms(1,3) do_register_keys [of sn "qe_api q"]
    by (auto simp: extracted_def register_program_def split: sum.splits prod.splits)
next
  case (5 ro q pid req w)
  then show ?thesis using assms(2,3)
    by (auto simp: extracted_def dest: soft_delete_keys [where sn = sn] split: sum.splits prod.splits)
qed (use assms(3) in \<open>auto simp: extracted_def split: sum.splits\<close>)

lemma delete_routes: "(nest, pat, hs) \<in> set routes \<Longrightarrow> handler_of hs m = Some HDeleteProgram \<Longrightarrow> m = Delete"
proof -
  have "\<forall>(nest, pat, hs) \<in> set routes. (HDeleteProgram \<in> snd ` set hs \<longrightarrow> hs = [(Get, HGetProgram), (Delete, HDeleteProgram)])"
    by code_simp
  moreover have "handler_of hs m = Some HDeleteProgram \<Longrightarrow> HDeleteProgram \<in> snd ` set hs"
    using handler_of_member [of hs m] by force
  ultimately show "(nest, pat, hs) \<in> set routes \<Longrightarrow> handler_of hs m = Some HDeleteProgram \<Longrightarrow> m = Delete"
    by (fastforce simp: handler_of_def split: if_splits)
qed

lemma serve_keys:
  assumes "keeps_rows sn (qe_api q)" and "\<not> hard_delete_request ro req"
  shows "db_keys sn (aw_db w) \<subseteq> db_keys sn (aw_db (snd (serve ro q req w)))"
proof (cases "\<exists>hs cs h args. route_of (ro_matches ro) (req_path req) = Some (hs, cs) \<and> handler_of hs (req_method req) = Some h \<and>
    ro_path ro cs = Inr args")
  case False
  then have "snd (serve ro q req w) = w"
    by (auto simp: serve_def extracted_def split: option.splits sum.splits prod.splits)
  then show ?thesis by simp
next
  case True
  then obtain hs cs h args where h: "route_of (ro_matches ro) (req_path req) = Some (hs, cs)" "handler_of hs (req_method req) = Some h"
    "ro_path ro cs = Inr args" by blast
  obtain nest pat where "(nest, pat, hs) \<in> set routes" using route_of_member [OF h(1)] by blast
  then have "h = HDeleteProgram \<Longrightarrow> ro_drop_tables ro (req_query req) \<noteq> Inr True"
    using delete_routes [of nest pat hs "req_method req"] h(2) assms(2) by (auto simp: hard_delete_request_def)
  moreover obtain r w' where c: "call_handler ro q h args req w = (r, w')" by fastforce
  moreover have "snd (serve ro q req w) = w'" using h c by (simp add: serve_def extracted_def)
  ultimately show ?thesis using call_handler_keys [OF assms(1) _ c] by blast
qed

lemma serve_all_keys:
  "(\<And>q req. (q, req) \<in> set requests \<Longrightarrow> keeps_rows sn (qe_api q) \<and> \<not> hard_delete_request ro req) \<Longrightarrow>
   db_keys sn (aw_db w) \<subseteq> db_keys sn (aw_db (serve_all ro requests w))"
proof (induction requests arbitrary: w)
  case (Cons x requests)
  obtain q req where x: "x = (q, req)" by fastforce
  have "db_keys sn (aw_db w) \<subseteq> db_keys sn (aw_db (snd (serve ro q req w)))" using Cons.prems [of q req] x by (intro serve_keys) auto
  moreover have "db_keys sn (aw_db (snd (serve ro q req w))) \<subseteq> db_keys sn (aw_db (serve_all ro requests (snd (serve ro q req w))))"
    using Cons.prems by (intro Cons.IH) auto
  ultimately show ?case using x by (auto simp: serve_all_def)
qed (simp add: serve_all_def)

section \<open>From the process to the rows\<close>

text \<open>The run of the tasks holds what the pipeline wrote, when that was not cut short.\<close>

lemma tasks_run_keys:
  assumes "db0 = aw_db (serve_all (pv_router env) (pv_early env) \<lparr> aw_registry = reg, aw_db = db1 \<rparr>)"
    and "pipeline_task (pipeline_env env) (pv_http_fault env) (pv_first_conn env) (pv_conns env) (pv_joined env) sp False
      runtime_stats_new db0 = (r, w2)"
    and "pv_first env = PipelineFirst \<or> pipeline_finishes env r"
    and "\<And>q req. (q, req) \<in> set (pv_late env) \<Longrightarrow> keeps_rows sn (qe_api q) \<and> \<not> hard_delete_request (pv_router env) req"
  shows "db_keys sn (pw_db w2) \<subseteq> db_keys sn (case tasks_run env sp reg db1 of Inl db2 \<Rightarrow> db2 | Inr t \<Rightarrow> tr_db t)"
proof (cases "r = None \<and> pv_first env = PipelineFirst")
  case True
  then show ?thesis using assms(1,2) by (simp add: tasks_run_def Let_def)
next
  case False
  then have fin: "pipeline_finishes env r" using assms(3) by (auto simp: pipeline_finishes_def)
  let ?w1 = "serve_all (pv_router env) (pv_early env) \<lparr> aw_registry = reg, aw_db = db1 \<rparr>"
  have "\<exists>t. tasks_run env sp reg db1 = Inr t \<and> tr_db t = aw_db (serve_all (pv_router env) (pv_late env) (?w1\<lparr> aw_db := pw_db w2 \<rparr>))"
    using assms(1,2) fin False by (auto simp: tasks_run_def Let_def)
  then show ?thesis
    using serve_all_keys [of "pv_late env" sn "pv_router env" "?w1\<lparr> aw_db := pw_db w2 \<rparr>"] assms(4) by auto
qed

lemma pipeline_env_config [simp]: "pe_config (sv_pipe (pipeline_env env)) = pv_config env"
  by (simp add: pipeline_env_def)

text \<open>C2. From the start of the process to the rows. Take a process that initialises without error and finds
  the program \<open>sp\<close> first; it spawns the server and the pipeline. Let \<open>db0\<close> be the database after the
  requests that were served before the pipeline read it. The HTTP client is built, the configured
  rate and chunk size are not zero, the node serves its blocks; from the checkpoints in \<open>db0\<close> the
  pipeline decides to backfill \<open>a\<close> to \<open>b\<close>, and that backfill ends without error and before it is
  cancelled. The pipeline does not panic, and where the server ends first it returns within the
  drain time; no request served afterwards is a hard delete. Then, however the process ends (clean,
  with an error, in a panic of the drain) or while it is still running, every instruction that
  decodes by the program's IDL from a block the node serves for a slot from the resume point to
  \<open>b\<close> is in the instruction table of its schema.\<close>

theorem indexing_process_complete:
  assumes serving: "serving env db (sp # sps) reg db1"
    and db0: "db0 = aw_db (serve_all (pv_router env) (pv_early env) \<lparr> aw_registry = reg, aw_db = db1 \<rparr>)"
    and node: "honest_node (sv_pipe (pipeline_env env)) produced blk"
    and cfg: "pv_http_fault env = None" "cfg_rpc_rps (pv_config env) \<noteq> 0" "0 < cfg_backfill_chunk_size (pv_config env)"
    and start: "determine_initial_state (sv_pipe (pipeline_env env)) (sp_schema_name sp) (orchestrator_new False runtime_stats_new db0) =
      (Inr (InitBackfill a b), w1)"
    and ended: "run_backfill (sv_pipe (pipeline_env env)) (sp_program_id sp) (sp_schema_name sp) (sp_idl sp) a b w1 = (Inr u, w2)"
      "\<not> pw_cancelled w2"
    and whole: "pv_first env = PipelineFirst \<or> pipeline_finishes env (pv_joined env)"
    and late: "\<And>q req. (q, req) \<in> set (pv_late env) \<Longrightarrow>
      keeps_rows (sp_schema_name sp) (qe_api q) \<and> \<not> hard_delete_request (pv_router env) req"
  shows "\<exists>exit sm db' cp. main_process env db = (exit, sm, db') \<and>
    read_checkpoint (pe_read_fault (sv_pipe (pipeline_env env)) (pw_tick w1)) (pw_db (await (sv_pipe (pipeline_env env)) w1))
      (sp_schema_name sp) ''backfill'' = Inr cp \<and>
    (\<forall>s. produced s \<and> unat (resume_from cp a) \<le> s \<and> s \<le> unat b \<longrightarrow>
       decoded_keys (sv_pipe (pipeline_env env)) (sp_program_id sp) (sp_idl sp) (blk s) \<subseteq> db_keys (sp_schema_name sp) db')"
proof -
  let ?senv = "pipeline_env env" and ?sn = "sp_schema_name sp"
  let ?w = "orchestrator_new False runtime_stats_new db0"
  let ?run = "run ?senv (sp_program_id sp) ?sn (sp_idl sp) (pv_first_conn env) (pv_conns env) (pv_joined env) ?w"
  have w: "cache_ok (pw_decoder ?w) (sp_idl sp)" "\<not> pw_cancelled ?w" by (simp_all add: orchestrator_new_def)
  have task: "pipeline_task ?senv (pv_http_fault env) (pv_first_conn env) (pv_conns env) (pv_joined env) sp False runtime_stats_new db0 = ?run"
    using pipeline_task_run [of ?senv] cfg(1,2) by simp
  obtain v where v: "?run = (pv_joined env, v)" using start ended w(2) by (simp add: run_def Let_def)
  obtain cp where cp: "read_checkpoint (pe_read_fault (sv_pipe ?senv) (pw_tick w1)) (pw_db (await (sv_pipe ?senv) w1)) ?sn ''backfill'' = Inr cp"
      "slot_keys (sv_pipe ?senv) (sp_program_id sp) (sp_idl sp) produced blk (slots_of (resume_from cp a, b)) \<subseteq> db_keys ?sn (pw_db (snd ?run))"
    using run_backfills [OF node _ w start ended, of "pv_first_conn env" "pv_conns env" "pv_joined env", unfolded pipeline_env_config, OF cfg(3)]
    by (elim exE conjE) (rule that)
  have keys: "db_keys ?sn (pw_db (snd ?run)) \<subseteq> db_keys ?sn (case tasks_run env sp reg db1 of Inl db2 \<Rightarrow> db2 | Inr t \<Rightarrow> tr_db t)"
    using tasks_run_keys [OF db0 task [unfolded v] whole late] v by simp
  obtain exit sm db' where m: "main_process env db = (exit, sm, db')" by (metis prod_cases3)
  then have "db_keys ?sn db' = db_keys ?sn (case tasks_run env sp reg db1 of Inl db2 \<Rightarrow> db2 | Inr t \<Rightarrow> tr_db t)"
    using main_process_schemas [OF serving] by (intro db_keys_schemas) simp
  then have "\<forall>s. produced s \<and> unat (resume_from cp a) \<le> s \<and> s \<le> unat b \<longrightarrow>
       decoded_keys (sv_pipe ?senv) (sp_program_id sp) (sp_idl sp) (blk s) \<subseteq> db_keys ?sn db'"
    using subset_trans [OF cp(2) keys] by (fastforce simp: slot_keys_def slots_of_def)
  then show ?thesis using m cp(1) by (intro exI conjI)
qed

section \<open>A run\<close>

definition demo_process_db :: database where
  "demo_process_db = demo_shutdown_db\<lparr> db_programs := [''P'' \<mapsto>
     \<lparr> pr_program_name = ''demo'', pr_schema_name = ''demo_p'', pr_idl_hash = None, pr_idl_source = None, pr_idl_json = Some ''idl'',
       pr_status = ''schema_created'' \<rparr>] \<rparr>"

definition demo_conn :: ws_conn where
  "demo_conn = \<lparr> wc_connect = None, wc_sub_sent = None, wc_handshake = [], wc_inputs = [], wc_now = 0, wc_now_after = 0 \<rparr>"

definition demo_index_senv :: stream_env where
  "demo_index_senv = \<lparr> sv_pipe = demo_pipe_env, sv_ws = demo_ws_env, sv_heartbeat_due = (\<lambda>_. False) \<rparr>"

text \<open>A pipeline whose HTTP client cannot be built, beside a server that drains or does not.\<close>

definition demo_process_env :: "bool \<Rightarrow> process_env" where
  "demo_process_env drains =
     \<lparr> pv_config = test_default, pv_startup = demo_startup_env, pv_connect_fault = None, pv_bootstrap_fault = None,
       pv_cancelled_early = False, pv_bind_fault = None, pv_router = demo_router, pv_early = [], pv_late = [],
       pv_api_result = Inr (), pv_senv = demo_index_senv, pv_http_fault = Some ''no TLS'', pv_first_conn = demo_conn,
       pv_conns = [], pv_joined = Some (Inr ()), pv_first = PipelineFirst, pv_api_drains = drains, pv_pipeline_drains = True,
       pv_cut = (\<lambda>db. (db, runtime_stats_new)), pv_repoll = PollPanics, pv_totals_fault = None, pv_max_text = hd,
       pv_checkpoint_rows = (\<lambda>_. [''backfill'']), pv_shutdown_faults = (\<lambda>_. (None, None, None)) \<rparr>"

lemma demo_tasks:
  "tasks_run (demo_process_env drains) sp reg db =
     Inr \<lparr> tr_first = PipelineEnded (Inr (Inl (Fatal ''HTTP client init failed: no TLS''))), tr_api_drains = drains,
           tr_pipeline_drains = True, tr_db = db, tr_stats = runtime_stats_new \<rparr>"
  by (simp add: tasks_run_def demo_process_env_def serve_all_def pipeline_task_def pipeline_env_def rpc_client_new_def
      test_default_def pipeline_finishes_def orchestrator_new_def)

lemma demo_seeds: "seeds demo_startup_env \<lparr> sp_program_id = ''P'', sp_schema_name = sn, sp_idl = i, sp_idl_json = ''idl'' \<rparr>
    (case env_from_value demo_env JNull of Inr i \<Rightarrow> i)"
  by (simp add: seeds_def demo_startup_env_def demo_env_def validate_idl_def json_get_def is_string_def)

lemma demo_serving: "\<exists>sp sps reg. serving (demo_process_env drains) demo_process_db (sp # sps) reg demo_process_db \<and> sp_program_id sp = ''P''"
proof -
  obtain i where "su_from_text demo_startup_env ''idl'' = Inr i" by (simp add: demo_startup_env_def demo_env_def)
  then have "load_programs demo_startup_env (registered_rows demo_startup_env demo_process_db) =
      [\<lparr> sp_program_id = ''P'', sp_schema_name = ''demo_p'', sp_idl = i, sp_idl_json = ''idl'' \<rparr>]"
    by (simp add: registered_rows_def map_filter_def demo_process_db_def) (simp add: demo_startup_env_def)
  moreover have "su_query_fault demo_startup_env = None" by (simp add: demo_startup_env_def)
  ultimately show ?thesis
    using insert_seeds [OF demo_seeds [of "''demo_p''" i]]
    by (simp add: serving_def demo_process_env_def startup_def query_registered_programs_def Let_def)
qed

theorem process_records_checkpoints_witness:
  "\<exists>sm db' st' slot. main_process (demo_process_env False) demo_process_db =
       (Returned (Inl (SxPipeline (Fatal ''HTTP client init failed: no TLS''))), Some sm, db') \<and>
     db_indexer_state db' ''P'' = Some st' \<and> st_status st' = ''stopped'' \<and> st_last_processed_slot st' = Some slot \<and> 5 \<le> slot"
proof -
  let ?env = "demo_process_env False"
  obtain sp sps reg where sv: "serving ?env demo_process_db (sp # sps) reg demo_process_db" "sp_program_id sp = ''P''"
    using demo_serving [of False] by (elim exE conjE) (rule that)
  note t = demo_tasks [of False sp reg demo_process_db]
  obtain row where row: "db_programs demo_process_db ''P'' = Some row" "pr_schema_name row = ''demo_p''"
    by (simp add: demo_process_db_def)
  obtain ps where ps: "db_schemas demo_process_db ''demo_p'' = Some ps"
      "ps_checkpoints ps = [''backfill'' \<mapsto> \<lparr> cp_last_slot = Some 5, cp_last_signature = None \<rparr>]"
    by (simp add: demo_process_db_def demo_shutdown_db_def)
  have st: "db_indexer_state demo_process_db ''P'' = Some fresh_state" by (simp add: demo_process_db_def demo_shutdown_db_def)
  have poll: "pv_repoll ?env = PollPanics" by (simp add: demo_process_env_def)
  have rows: "set (pv_checkpoint_rows ?env ps) = dom (ps_checkpoints ps)" by (simp add: demo_process_env_def ps(2))
  have big: "y < 2 ^ 63" if "Option.bind (ps_checkpoints ps u) cp_last_slot = Some y" for u y
    using that by (simp add: ps(2) split: if_splits)
  from process_records_checkpoints [where s = "''backfill''" and x = 5 and row = row and st = fresh_state, OF sv(1) t _ _ _ _ _ _ _ _ _ _ _ rows]
  show ?thesis using sv(2) row st ps big poll
    by (auto simp: drain_outcome_def await_api_def await_pipeline_def demo_process_env_def fresh_state_def)
qed

theorem drain_repolls_joined_task_witness:
  "main_process (demo_process_env True) demo_process_db = (Panicked, None, demo_process_db)"
proof -
  obtain sp sps reg where sv: "serving (demo_process_env True) demo_process_db (sp # sps) reg demo_process_db"
    using demo_serving [of True] by (elim exE conjE) (rule that)
  show ?thesis
    using drain_repolls_joined_task [OF sv demo_tasks] by (simp add: demo_process_env_def)
qed

definition demo_index_db :: database where
  "demo_index_db = demo_process_db\<lparr> db_schemas := [''demo_p'' \<mapsto> \<lparr> ps_accounts = Map.empty, ps_instructions = [], ps_next_id = 1,
     ps_metadata = Map.empty, ps_checkpoints = [''backfill'' \<mapsto> \<lparr> cp_last_slot = Some 4, cp_last_signature = None \<rparr>] \<rparr>] \<rparr>"

text \<open>A client that can be built, and a request for the list of programs after the pipeline has ended.\<close>

definition demo_index_env :: process_env where
  "demo_index_env = (demo_process_env True)\<lparr>
     pv_startup := demo_startup_env\<lparr> su_from_text := \<lambda>_. Inr demo_idl_empty \<rparr>, pv_http_fault := None,
     pv_late := [(demo_failing, demo_list)] \<rparr>"

lemma demo_index_serving:
  "\<exists>reg. serving (demo_index_env) demo_index_db
     [\<lparr> sp_program_id = ''P'', sp_schema_name = ''demo_p'', sp_idl = demo_idl_empty, sp_idl_json = ''idl'' \<rparr>] reg demo_index_db"
proof -
  let ?se = "demo_startup_env\<lparr> su_from_text := \<lambda>_. Inr demo_idl_empty \<rparr>"
  have "load_programs ?se (registered_rows ?se demo_index_db) =
      [\<lparr> sp_program_id = ''P'', sp_schema_name = ''demo_p'', sp_idl = demo_idl_empty, sp_idl_json = ''idl'' \<rparr>]"
    by (simp add: registered_rows_def map_filter_def demo_index_db_def demo_process_db_def) (simp add: demo_startup_env_def)
  moreover have "su_query_fault demo_startup_env = None" by (simp add: demo_startup_env_def)
  ultimately show ?thesis
    using insert_seeds [OF demo_seeds [of "''demo_p''" demo_idl_empty]]
    by (simp add: serving_def demo_index_env_def demo_process_env_def startup_def query_registered_programs_def Let_def)
qed

lemma demo_slot: "get_slot demo_node st = (Inr 9, incr_rpc_retry st)"
  by (simp add: get_slot_def demo_node_request) (simp add: demo_node_def demo_rpc_def)

lemma demo_chunks_9: "compute_backfill_chunks 5 9 50000 = [(5, 9)]"
  by (simp add: compute_backfill_chunks_def) (subst chunks_from.simps, simp add: saturating_add_def)

lemma demo_blocks_9: "get_blocks demo_node 5 9 st = (Inr [5], incr_rpc_retry st)"
proof -
  have "compute_block_chunks 5 9 = [(5, 9)]"
    by (simp add: compute_block_chunks_def MAX_GET_BLOCKS_RANGE_def) (subst chunks_from.simps, simp add: saturating_add_def)
  then show ?thesis
    by (simp add: get_blocks_def demo_node_request) (simp add: demo_node_def demo_rpc_def upt_rec)
qed

lemma demo_start:
  "\<exists>t st. determine_initial_state demo_pipe_env ''demo_p'' (orchestrator_new False runtime_stats_new demo_index_db) =
     (Inr (InitBackfill 5 9), (orchestrator_new False st demo_index_db)\<lparr> pw_tick := t \<rparr>)"
  by (simp add: determine_initial_state_def demo_await demo_slot read_checkpoint_def demo_index_db_def orchestrator_new_def
      max_slot_of_def decide_initial_state_def map_filter_def saturating_add_def)

lemma demo_index_run:
  "\<exists>w'. run_backfill demo_pipe_env ''P'' ''demo_p'' demo_idl_empty 5 9 ((orchestrator_new False st demo_index_db)\<lparr> pw_tick := t \<rparr>) = (Inr (), w') \<and>
     \<not> pw_cancelled w'"
  by (simp add: run_backfill_def demo_env_simps demo_blocks_9 demo_chunks_9 read_checkpoint_def orchestrator_new_def demo_index_db_def
     demo_process_db_def demo_shutdown_db_def fresh_state_def set_state_def update_indexer_state_def saturating_add_def
     backfill_chunks_through_def process_chunk_def Let_def chan_send_def send_permit_def channel_new_def set_chan_def
     join_writer_def writer_task_def writer_recv_def write_batch_now_def write_block_def write_instructions_def write_accounts_inner_def
     update_checkpoint_def demo_batch char_count_def insert_ixs_def add_totals_def writer_finish_def increment_indexer_counters_def
     unnest_decompose insert_ix_def ix_row_def ix_key_def)

lemma demo_index_pipe: "sv_pipe (pipeline_env demo_index_env) = demo_pipe_env"
  by (simp add: pipeline_env_def demo_index_env_def demo_process_env_def demo_index_senv_def demo_pipe_env_def)

theorem indexing_process_complete_witness:
  "\<exists>exit sm db'. main_process demo_index_env demo_index_db = (exit, sm, db') \<and>
     decoded_keys demo_pipe_env ''P'' demo_idl_empty (Some (demo_block 5)) \<subseteq> db_keys ''demo_p'' db'"
proof -
  let ?sp = "\<lparr> sp_program_id = ''P'', sp_schema_name = ''demo_p'', sp_idl = demo_idl_empty, sp_idl_json = ''idl'' \<rparr>"
  obtain reg where sv: "serving demo_index_env demo_index_db [?sp] reg demo_index_db"
    using demo_index_serving by (elim exE) (rule that)
  obtain t st where start: "determine_initial_state demo_pipe_env ''demo_p'' (orchestrator_new False runtime_stats_new demo_index_db) =
      (Inr (InitBackfill 5 9), (orchestrator_new False st demo_index_db)\<lparr> pw_tick := t \<rparr>)" using demo_start by (elim exE) (rule that)
  let ?w1 = "(orchestrator_new False st demo_index_db)\<lparr> pw_tick := t \<rparr>"
  obtain w' where run: "run_backfill demo_pipe_env ''P'' ''demo_p'' demo_idl_empty 5 9 ?w1 = (Inr (), w')" "\<not> pw_cancelled w'"
    using demo_index_run [of t st] by (elim exE conjE) (rule that)
  have cp: "read_checkpoint None (pw_db (await demo_pipe_env ?w1)) ''demo_p'' ''backfill'' = Inr (Some \<lparr> ci_last_slot = 4, ci_last_signature = None \<rparr>)"
    by (simp add: demo_await read_checkpoint_def orchestrator_new_def demo_index_db_def)
  have env: "pv_http_fault demo_index_env = None" "pv_first demo_index_env = PipelineFirst" "pv_config demo_index_env = test_default"
    "demo_index_db = aw_db (serve_all (pv_router demo_index_env) (pv_early demo_index_env) \<lparr> aw_registry = reg, aw_db = demo_index_db \<rparr>)"
    by (simp_all add: demo_index_env_def demo_process_env_def serve_all_def)
  have late: "keeps_rows ''demo_p'' (qe_api q) \<and> \<not> hard_delete_request (pv_router demo_index_env) req"
    if "(q, req) \<in> set (pv_late demo_index_env)" for q req
    using that by (simp add: demo_index_env_def keeps_rows_def hard_delete_request_def demo_failing_def demo_list_def demo_api_env_def demo_reg_env_def)
  from indexing_process_complete [of demo_index_env demo_index_db ?sp "[]" reg demo_index_db demo_index_db
      "\<lambda>s. s = 3 \<or> s = 5" "\<lambda>s. Some (demo_block (of_nat s))" 5 9 ?w1 "()" w', OF sv env(4) _ env(1)] late
  obtain exit sm db' where m: "main_process demo_index_env demo_index_db = (exit, sm, db')"
    and rows: "\<forall>s. (s = 3 \<or> s = 5) \<and> unat (resume_from (Some \<lparr> ci_last_slot = 4, ci_last_signature = None \<rparr>) 5) \<le> s \<and> s \<le> unat (9 :: u64) \<longrightarrow>
      decoded_keys demo_pipe_env ''P'' demo_idl_empty (Some (demo_block (of_nat s))) \<subseteq> db_keys ''demo_p'' db'"
    using demo_honest start run env cp by (auto simp: demo_index_pipe test_default_def)
  from rows [rule_format, of 5] m show ?thesis by (auto simp: resume_from_def saturating_add_def)
qed

end
