(* ===== verification/Spec2Isabelle.thy ===== *)
theory Spec2Isabelle
  imports Decoder_Correct Schema Writer_Correct Idl_Correct Rpc_Correct Ws_Correct Snapshot_Correct Router_Correct Process_Correct
begin

text \<open>
  A verification of Solarix, an indexer for Solana programs: it reads blocks from an RPC node,
  decodes the instructions and accounts of a program by its Anchor IDL, writes them to
  PostgreSQL tables generated from that IDL and serves them over HTTP.

  \<^bold>\<open>The program and how its parts interact.\<close> \<open>main.rs\<close> opens the database, loads the registered
  programs (\<open>startup.rs\<close>), seeds the IDL cache and runs two tasks: the HTTP server
  (\<open>api/handlers.rs\<close>, \<open>api/filters.rs\<close>, \<open>storage/queries.rs\<close>) and, for the first program, the
  pipeline (\<open>pipeline/mod.rs\<close>). A client registers a program through \<open>registry.rs\<close>, which takes the
  IDL from the request, the chain or a bundled file (\<open>idl/mod.rs\<close>, \<open>idl/fetch.rs\<close>) and creates the
  program's schema (\<open>storage/schema.rs\<close>). The pipeline compares its checkpoints with the tip of
  the chain; it backfills slot ranges over RPC (\<open>pipeline/rpc.rs\<close>) and streams over a WebSocket
  (\<open>pipeline/ws.rs\<close>), decodes transactions (\<open>decoder/mod.rs\<close>) and writes each block in one transaction
  (\<open>storage/writer.rs\<close>). The row of the program in \<open>indexer_state\<close> shows what it does.

  \<^bold>\<open>Theories and sources\<close> (all paths are under \<open>src/src/\<close>):

  \<^item> \<open>Prelude\<close>: words, strings, results (\<open>bindR\<close> is the question mark operator) and their lemmas.
    \<open>Json_Value\<close>: \<open>serde_json::Value\<close>. \<open>Solarix_Types\<close>: \<open>types.rs\<close> and the Anchor IDL.
    \<open>Config\<close>: \<open>config.rs\<close>.
  \<^item> \<open>Interfaces\<close>: the contracts between components as locales. \<open>keyed_log\<close> (a table that keeps the
    first row of a key) is interpreted on the instruction table in \<open>Database\<close>, \<open>newest_register\<close> (a
    table that keeps the newest entry of a key) on the account upsert in \<open>Writer_Correct\<close>,
    \<open>slot_chunker\<close> (a cut of a slot range) on both chunk functions in \<open>Rpc\<close> and \<open>Transactions\<close>.
    \<open>pipe_stable\<close>, \<open>pipe_invariant\<close> and \<open>db_invariant\<close> of the backfill theories lift a property that
    every event keeps to whole runs; their interpretations are the rows covered, the rows kept, the
    cursor, the bound of the channel and the presence of the state row.
  \<^item> \<open>Decoder\<close>: \<open>decoder/mod.rs\<close>. The state is the cache of type registries per address.
  \<^item> \<open>Database\<close>: the tables as maps and lists of rows, and the effect of each SQL statement.
    \<open>Schema\<close>: \<open>storage/schema.rs\<close>. \<open>Writer\<close>: \<open>storage/writer.rs\<close>; a transaction works on a copy
    that the commit installs.
  \<^item> \<open>Idl_Manager\<close>: \<open>idl/mod.rs\<close>, \<open>idl/fetch.rs\<close>. The state is the cache of IDLs with hash and text.
  \<^item> \<open>Rpc\<close>: \<open>pipeline/rpc.rs\<close>, \<open>runtime_stats.rs\<close>. \<open>Ws_Stream\<close>: \<open>pipeline/ws.rs\<close>; the state is the
    slot cursor, the deduplication set, the buffered frames and the heartbeat.
  \<^item> \<open>Transactions\<close>, \<open>Backfill\<close>, \<open>Streaming\<close>: \<open>pipeline/mod.rs\<close>. The record \<open>pipe\<close> is what the tasks share:
    database, writer, decoder, counters, cancellation token, channel with its writer task.
  \<^item> \<open>Registry\<close>: \<open>registry.rs\<close>. \<open>Api_Error\<close>: \<open>api/mod.rs\<close>. \<open>Filters\<close>: \<open>api/filters.rs\<close>. \<open>Queries\<close>:
    \<open>storage/queries.rs\<close>. \<open>Api_Programs\<close>, \<open>Api_Queries\<close>: \<open>api/handlers.rs\<close>; the record \<open>api_world\<close> is the
    registry and the database, which concurrent requests share. \<open>Router\<close>: the routes of
    \<open>api/mod.rs\<close> as a table, and \<open>serve\<close>, the way of a request through extractors and handler to its
    answer.
  \<^item> \<open>Startup\<close>: \<open>startup.rs\<close>, the pool of \<open>storage/mod.rs\<close>, loading and final update of \<open>main.rs\<close>.
    \<open>Process\<close>: the rest of \<open>main.rs\<close>, from the first connection to the exit.

  \<^bold>\<open>What the lemmas show.\<close>

  \<^item> \<open>Decoder_Correct\<close>: the decoder is sound and complete for a declarative wire format (\<open>wire\<close>), for types
    and for instructions; its cache never changes a result.
  \<^item> \<open>Schema\<close>, \<open>Writer_Correct\<close>: sanitized names are valid identifiers, quoted names cannot break out of
    their quotes, programs whose ids differ early (case aside) do not share schemas; a block is
    written atomically with its accounts and its checkpoint, writing it again adds nothing, account
    rows keep the newest state over any sequence of writes and so converge (\<open>newest_rows\<close>,
    \<open>block_writes\<close>), a checkpoint reads back.
  \<^item> \<open>Idl_Correct\<close>, \<open>Rpc_Correct\<close>, \<open>Ws_Correct\<close>: every cached IDL is the parse of its text; the hash ignores
    key order; chunked and batched requests return exactly what one unlimited request would; the
    retry loop; the deduplication window, the slot cursor, the handshake, the heartbeat.
  \<^item> \<open>Transactions_Correct\<close>, \<open>Backfill_Correct\<close>, \<open>Backfill_Invariants\<close>, \<open>Streaming_Correct\<close>: under every schedule
    a backfill that returns has written everything the node serves, the concurrent writer refines
    the sequential one on a subsequence of the batches that is a prefix until it is cancelled, the
    cursor never goes back, and a backfill ends in one of the listed ways. \<open>fetches\<close> is the log of a
    connection, with the answer to each fetch: what the node returned is in the table; the catch-up
    after a disconnect closes the gap. \<open>Reconnect_Correct\<close> joins these over any number of
    connections: \<open>sessions\<close> lists the connections of a run, \<open>session_rows\<close> says what each has left in the
    table, and cancellation is permanent. \<open>Snapshot_Correct\<close>: an account snapshot settles the row of
    every account that decodes and touches no other row. One batch can be lost at a shutdown
    (\<open>drain_passes_failed_batch\<close>).
  \<^item> \<open>Registry_Correct\<close>, \<open>Query_Correct\<close>: what a registration stores or rolls back under the interference
    of other requests, and the race that loses an IDL; deletion; request values are only ever
    bound; paging by cursor enumerates all rows when no two share slot and signature, and a
    counterexample when they do; statistics are exact.
  \<^item> \<open>Router_Correct\<close>: no route hides another, every endpoint is reached with the segments of its path,
    and an answer with status 500 never shows its cause.
  \<^item> \<open>Startup_Correct\<close>, \<open>Process_Correct\<close>: a registered program is found again after a restart with its IDL,
    and is indexed when it comes first; a process that exits cleanly had no error; the shutdown records what is durable; the drain
    awaits a task twice, and what follows where that panics; requests other than hard deletes keep
    the rows. \<open>indexing_process_complete\<close> joins the layers: from the start of a process on a database
    with a registered program to the rows of its table.

  \<^bold>\<open>Concurrency.\<close> The tasks of tokio interleave at await points. A pipeline run is the producer's
  function with a schedule: \<open>pe_events env t\<close> lists what the other tasks do while it waits for the
  \<open>t\<close>-th time, and \<open>await\<close> runs them. A handler is its function with \<open>ae_others k\<close>, what others do to
  registry and database while it waits for the \<open>k\<close>-th time, and \<open>re_others k\<close> what they do to the
  database during the second phase of a registration. In \<open>Process\<close>, \<open>tasks_run\<close> runs the pipeline task
  on the database and serves the requests of the API task: those that change the database are taken
  before the pipeline reads it or after its last write (\<open>pv_early\<close>, \<open>pv_late\<close>), an approximation for
  registrations and deletions that fall in between. A pipeline that panics or is aborted leaves
  what the parameter \<open>pv_cut\<close> says. Theorems hold for all schedules, or name what they need of them.

  \<^bold>\<open>Failures and outside code.\<close> Errors are values of sum types with the source's variants and texts. Every
  statement, request and file access can fail: the fields with \<open>fault\<close> in their name give the
  error at each point. Third-party code is a parameter: PostgreSQL running generated DDL
  (\<open>re_ddl\<close>), promoted-column expressions (\<open>pe_pg_eval\<close>) and built queries (\<open>query_env\<close>); serde's parsers
  and printers, SHA-256, base58, base64, zlib and HTTP (\<open>idl_env\<close>, \<open>rpc_env\<close>, \<open>ws_env\<close>); axum's
  pattern matching and extractors (\<open>router_env\<close>); the order of hash maps and of unordered result
  sets. The text of a built query is modelled as it is pushed and is not interpreted: a theorem
  about its rows states what PostgreSQL returns for it. \<open>retry_call\<close> is backon's loop as its
  documentation describes it, over the attempts its delays allow. Where a theorem relies on one of them it says so in a
  hypothesis, and its witness instantiates the parameter.

  \<^bold>\<open>Bounds and termination.\<close> Words keep their width; casts that reinterpret are written as such.
  The type decoder recurses to the depth limit of the source, and lists of attempts, frames and
  connections bound the loops over the network: a run that uses one up is still waiting, which is
  the value \<open>None\<close> of \<open>ws_next\<close>, \<open>stream_loop\<close> and \<open>run\<close>, except that the last failed attempt of a
  retry is its error, as in the source. \<open>follow_cursors\<close>, the client that pages, has fuel, and
  \<open>paging_enumerates_rows\<close> shows that one more than the number of rows is enough of it. All other loops are total
  functions.

  \<^bold>\<open>Not modelled.\<close> Log events, spans, the progress rates they print and the set-up of the subscriber
  (output only); the request ids and the tracing layer of \<open>api/mod.rs\<close> (a header and log lines); \<open>lib.rs\<close> (module declarations); the flag and environment lookup of clap; the wiring of
  signals to the cancellation token, rate limiting, delays and timeouts as durations (their effect
  is part of the schedule or of a fault); the connections between the pool and its clients. Panics
  are modelled where the source can panic by its own code (\<open>query_instructions\<close>) or by awaiting a
  joined task (\<open>main_process\<close>).
\<close>

end
